(* ===== verification/Prelude.thy ===== *)
theory Prelude
  imports Main "HOL-Library.Word"
begin

text \<open>
  What every theory of the development shares: the machine types, the faults a C program can
  run into, the result type with its sequencing operator, the memory a C pointer leads to,
  little-endian integers, NUL-terminated strings and bounded loops. The collections
  \<open>run_simps\<close> (evaluating a run) and \<open>layout_simps\<close> (the byte layout of the packets) are
  what the component proofs pass to \<open>simp\<close>.
\<close>

named_theorems run_simps
named_theorems layout_simps

type_synonym byte = "8 word"
type_synonym u32 = "32 word"

section \<open>Faults and results\<close>

text \<open>
  A C statement either goes on or does something the language does not define. Every read and
  write of the model checks its pointer, so an undefined access is a value: the first such
  access ends the run with \<open>Inl\<close> of a fault. Return codes are no faults, they are values.
\<close>

datatype fault =
    Null_deref       \<comment> \<open>access through a null pointer\<close>
  | Bad_pointer      \<comment> \<open>access through an ERR_PTR value\<close>
  | Out_of_bounds    \<comment> \<open>access past the end of a block\<close>
  | Use_after_free   \<comment> \<open>access to a block that is not allocated\<close>
  | Uninit_read      \<comment> \<open>use of an uninitialised variable or slot\<close>
  | Int_overflow     \<comment> \<open>signed arithmetic out of the range of \<open>int\<close>\<close>

type_synonym 'a result = "fault + 'a"

definition bindr :: "'e + 'a \<Rightarrow> ('a \<Rightarrow> 'e + 'b) \<Rightarrow> 'e + 'b" where
  "bindr m f = (case m of Inl e \<Rightarrow> Inl e | Inr x \<Rightarrow> f x)"

definition require :: "bool \<Rightarrow> 'e \<Rightarrow> 'e + unit" where
  "require b e = (if b then Inr () else Inl e)"

lemma bindr_Inl [simp]: "bindr (Inl e) f = Inl e"
  by (simp add: bindr_def)

lemma bindr_Inr [simp]: "bindr (Inr x) f = f x"
  by (simp add: bindr_def)

lemma bindr_eq_Inr [run_simps]:
  "bindr m f = Inr y \<longleftrightarrow> (\<exists>x. m = Inr x \<and> f x = Inr y)"
  by (cases m) auto

lemma bindr_eq_Inl:
  "bindr m f = Inl e \<longleftrightarrow> m = Inl e \<or> (\<exists>x. m = Inr x \<and> f x = Inl e)"
  by (cases m) auto

lemma bindr_assoc: "bindr (bindr m f) g = bindr m (\<lambda>x. bindr (f x) g)"
  by (cases m) auto

lemma bindr_cong [fundef_cong]:
  "m = m' \<Longrightarrow> (\<And>x. m' = Inr x \<Longrightarrow> f x = f' x) \<Longrightarrow> bindr m f = bindr m' f'"
  by (cases m') auto

lemma require_True [simp]: "require True e = Inr ()"
  and require_False [simp]: "require False e = Inl e"
  by (simp_all add: require_def)

lemma require_eq_Inr [run_simps]: "require b e = Inr u \<longleftrightarrow> b"
  by (simp add: require_def)

text \<open>
  \<open>post m P\<close>: the run \<open>m\<close> ends without a fault, and its result satisfies \<open>P\<close>.
\<close>

definition post :: "'e + 'a \<Rightarrow> ('a \<Rightarrow> bool) \<Rightarrow> bool" where
  "post m P \<longleftrightarrow> (\<exists>x. m = Inr x \<and> P x)"

lemma post_Inr [simp]: "post (Inr x) P \<longleftrightarrow> P x"
  and post_Inl [simp]: "\<not> post (Inl e) P"
  by (simp_all add: post_def)

lemma post_bindr: "post m R \<Longrightarrow> (\<And>x. R x \<Longrightarrow> post (k x) P) \<Longrightarrow> post (bindr m k) P"
  by (auto simp: post_def)

lemma bindr_fails: "post m R \<Longrightarrow> (\<And>x. R x \<Longrightarrow> k x = Inl e) \<Longrightarrow> bindr m k = Inl e"
  by (auto simp: post_def)

lemma post_mono: "post m R \<Longrightarrow> (\<And>x. R x \<Longrightarrow> P x) \<Longrightarrow> post m P"
  by (auto simp: post_def)

lemma post_eqI: "m = Inr x \<Longrightarrow> P x \<Longrightarrow> post m P"
  by simp

lemma post_eqD: "post m (\<lambda>y. y = x) \<Longrightarrow> m = Inr x"
  by (simp add: post_def)

section \<open>Pointers to bytes\<close>

text \<open>
  A \<open>char *\<close> is null, an ERR_PTR value, never assigned, or leads into a block: \<open>PBlk b\<close> lists
  the bytes from the address it holds to the end of the block. Advancing the pointer drops
  bytes; a read of more bytes than are left is out of bounds. Reading no byte touches nothing.
\<close>

datatype cptr = PNull | PErr int | PUninit | PBlk "byte list"

fun mem_block :: "cptr \<Rightarrow> byte list result" where
  "mem_block PNull = Inl Null_deref"
| "mem_block (PErr e) = Inl Bad_pointer"
| "mem_block PUninit = Inl Uninit_read"
| "mem_block (PBlk b) = Inr b"

definition rd_mem :: "nat \<Rightarrow> byte list \<Rightarrow> (byte list \<times> byte list) result" where
  "rd_mem n p = (if n \<le> length p then Inr (take n p, drop n p) else Inl Out_of_bounds)"

definition mem_read :: "cptr \<Rightarrow> nat \<Rightarrow> byte list result" where
  "mem_read p n = (if n = 0 then Inr [] else
     bindr (mem_block p) (\<lambda>b. bindr (rd_mem n b) (\<lambda>(x, _). Inr x)))"

lemma rd_mem_append [simp, layout_simps]: "length x = n \<Longrightarrow> rd_mem n (x @ r) = Inr (x, r)"
  by (auto simp: rd_mem_def)

lemma rd_mem_eq_Inr: "rd_mem n p = Inr (x, r) \<longleftrightarrow> p = x @ r \<and> length x = n"
  by (auto simp: rd_mem_def)

lemma mem_read_0 [simp]: "mem_read p 0 = Inr []"
  by (simp add: mem_read_def)

lemma mem_read_PBlk [simp]:
  "n \<le> length b \<Longrightarrow> mem_read (PBlk b) n = Inr (take n b)"
  by (simp add: mem_read_def rd_mem_def)

lemma mem_read_length: "mem_read p n = Inr x \<Longrightarrow> length x = n"
  by (cases p) (auto simp: mem_read_def rd_mem_def run_simps split: if_splits)

section \<open>Little-endian 32-bit integers\<close>

lemma unat_u32_less: "unat (w :: u32) < 4294967296"
  using unsigned_less [of w] by simp

lemma unat_of_nat_u32: "n < 4294967296 \<Longrightarrow> unat (word_of_nat n :: u32) = n"
  by (simp add: unat_of_nat)

lemma unat_eq_0_u32: "unat (w :: u32) = 0 \<longleftrightarrow> w = 0"
  by (simp add: unat_eq_0)

lemma sint_small_u32:
  assumes "unat (w :: u32) < 2 ^ 31"
  shows "sint w = int (unat w)"
proof -
  have u: "uint w = int (unat w)" by simp
  have "int (unat w) < int (2 ^ 31)" using assms by (simp only: of_nat_less_iff)
  then have t: "signed_take_bit 31 (int (unat w)) = int (unat w)"
    by (intro signed_take_bit_int_eq_self order_trans [OF _ of_nat_0_le_iff]) simp_all
  have l: "LENGTH(32) - Suc 0 = 31" by simp
  show ?thesis by (simp only: sint_uint l u t One_nat_def)
qed

definition u32_bytes :: "u32 \<Rightarrow> byte list" where
  "u32_bytes w = [ucast w, ucast (drop_bit 8 w), ucast (drop_bit 16 w), ucast (drop_bit 24 w)]"

definition bytes_u32 :: "byte \<Rightarrow> byte \<Rightarrow> byte \<Rightarrow> byte \<Rightarrow> u32" where
  "bytes_u32 a b c d =
     or (ucast a) (or (push_bit 8 (ucast b)) (or (push_bit 16 (ucast c)) (push_bit 24 (ucast d))))"

fun rd_u32 :: "byte list \<Rightarrow> (u32 \<times> byte list) result" where
  "rd_u32 (a # b # c # d # r) = Inr (bytes_u32 a b c d, r)"
| "rd_u32 _ = Inl Out_of_bounds"

lemma length_u32_bytes [simp, layout_simps]: "length (u32_bytes w) = 4"
  by (simp add: u32_bytes_def)

lemma bytes_u32_of_bytes [simp]:
  "bytes_u32 (ucast w) (ucast (drop_bit 8 w)) (ucast (drop_bit 16 w)) (ucast (drop_bit 24 w)) = w"
proof (rule bit_word_eqI)
  fix n assume "n < LENGTH(32)"
  then consider "n < 8" | "8 \<le> n" "n < 16" | "16 \<le> n" "n < 24" | "24 \<le> n" "n < 32"
    by fastforce
  then show "bit (bytes_u32 (ucast w) (ucast (drop_bit 8 w)) (ucast (drop_bit 16 w))
      (ucast (drop_bit 24 w))) n = bit w n"
    by cases
      (auto simp: bytes_u32_def bit_or_iff bit_push_bit_iff bit_ucast_iff bit_drop_bit_eq)
qed

lemma u32_bytes_of_u32 [simp]: "u32_bytes (bytes_u32 a b c d) = [a, b, c, d]"
proof -
  have "ucast (bytes_u32 a b c d) = a" "ucast (drop_bit 8 (bytes_u32 a b c d)) = b"
    "ucast (drop_bit 16 (bytes_u32 a b c d)) = c" "ucast (drop_bit 24 (bytes_u32 a b c d)) = d"
    by (rule bit_word_eqI;
      auto simp: bytes_u32_def bit_or_iff bit_push_bit_iff bit_ucast_iff bit_drop_bit_eq
        dest: bit_imp_le_length)+
  then show ?thesis by (simp add: u32_bytes_def)
qed

lemma rd_u32_append [simp, layout_simps]: "rd_u32 (u32_bytes w @ r) = Inr (w, r)"
  by (simp add: u32_bytes_def)

lemma rd_u32_eq_Inr: "rd_u32 p = Inr (w, r) \<longleftrightarrow> p = u32_bytes w @ r"
proof
  assume "rd_u32 p = Inr (w, r)"
  then show "p = u32_bytes w @ r"
    by (cases p rule: rd_u32.cases) auto
qed simp

lemma u32_bytes_inject [simp]: "u32_bytes a = u32_bytes b \<longleftrightarrow> a = b"
  by (metis Inr_inject append_Nil2 prod.inject rd_u32_append)

lemma rd_u32_short: "length p < 4 \<Longrightarrow> rd_u32 p = Inl Out_of_bounds"
  by (cases p rule: rd_u32.cases) auto

lemma u32_bytes_exists: "4 \<le> length p \<Longrightarrow> \<exists>w. take 4 p = u32_bytes w"
  by (cases p rule: rd_u32.cases) (auto intro: u32_bytes_of_u32 [symmetric])

section \<open>NUL-terminated strings\<close>

text \<open>
  \<open>cstrlen\<close> is \<open>strlen\<close> on the bytes from the pointer on: the number of bytes before the
  first NUL, out of bounds if the block ends before one.
\<close>

definition cstrlen :: "byte list \<Rightarrow> nat result" where
  "cstrlen p = (if 0 \<in> set p then Inr (length (takeWhile (\<lambda>b. b \<noteq> 0) p)) else Inl Out_of_bounds)"

definition strlen :: "cptr \<Rightarrow> nat result" where
  "strlen p = bindr (mem_block p) cstrlen"

definition cstring :: "byte list \<Rightarrow> byte list" where
  "cstring s = s @ [0]"

lemma length_cstring [simp, layout_simps]: "length (cstring s) = Suc (length s)"
  by (simp add: cstring_def)

lemma cstring_nonempty [simp]: "cstring s \<noteq> []"
  by (simp add: cstring_def)

lemma cstrlen_cstring [simp]: "0 \<notin> set s \<Longrightarrow> cstrlen (cstring s @ r) = Inr (length s)"
  by (auto simp: cstrlen_def cstring_def takeWhile_append)

lemma strlen_cstring [simp]: "0 \<notin> set s \<Longrightarrow> strlen (PBlk (cstring s)) = Inr (length s)"
  using cstrlen_cstring [of s "[]"] by (simp add: strlen_def)

lemma cstrlen_eq_Inr:
  "cstrlen p = Inr n \<longleftrightarrow> (\<exists>s r. p = cstring s @ r \<and> 0 \<notin> set s \<and> length s = n)"
proof
  assume *: "cstrlen p = Inr n"
  then have "0 \<in> set p" by (auto simp: cstrlen_def split: if_splits)
  then obtain s r where "p = s @ 0 # r" "0 \<notin> set s"
    by (meson split_list_first)
  with * show "\<exists>s r. p = cstring s @ r \<and> 0 \<notin> set s \<and> length s = n"
    by (auto simp: cstring_def cstrlen_def takeWhile_append split: if_splits)
qed auto

text \<open>
  What a string contributes to a packet: its characters and the terminator. It is empty for a
  pointer that leads to no string.
\<close>

definition str_bytes :: "cptr \<Rightarrow> byte list" where
  "str_bytes p = (case p of PBlk b \<Rightarrow> if 0 \<in> set b then cstring (takeWhile (\<lambda>c. c \<noteq> 0) b) else []
     | _ \<Rightarrow> [])"

lemma str_bytes_cstring [simp]: "0 \<notin> set s \<Longrightarrow> str_bytes (PBlk (cstring s @ r)) = cstring s"
  by (auto simp: str_bytes_def cstring_def takeWhile_append)

lemma str_bytes_cstring_exact [simp]: "0 \<notin> set s \<Longrightarrow> str_bytes (PBlk (cstring s)) = cstring s"
  using str_bytes_cstring [of s "[]"] by simp

lemma strlen_eq_Inr:
  "strlen p = Inr n \<longleftrightarrow>
     (\<exists>s r. p = PBlk (cstring s @ r) \<and> 0 \<notin> set s \<and> length s = n)"
  by (cases p) (auto simp: strlen_def cstrlen_eq_Inr bindr_eq_Inr)

lemma strlen_mem_read:
  "strlen p = Inr n \<Longrightarrow> mem_read p (Suc n) = Inr (str_bytes p) \<and> length (str_bytes p) = Suc n"
  by (auto simp: strlen_eq_Inr)

section \<open>Early returns\<close>

text \<open>
  A function that may return an error code from the middle of a loop stops for one of two
  reasons. \<open>may\<close> runs a step that can only fault inside such a function, \<open>leave\<close> is its end:
  the code becomes a value.
\<close>

datatype stop = Fault fault | Return int

definition may :: "'a result \<Rightarrow> stop + 'a" where
  "may m = (case m of Inl f \<Rightarrow> Inl (Fault f) | Inr x \<Rightarrow> Inr x)"

definition leave :: "stop + 'a \<Rightarrow> (int + 'a) result" where
  "leave m = (case m of Inl (Fault f) \<Rightarrow> Inl f | Inl (Return c) \<Rightarrow> Inr (Inl c) | Inr x \<Rightarrow> Inr (Inr x))"

lemma may_simps [simp]: "may (Inl f) = Inl (Fault f)" "may (Inr x) = Inr x"
  by (simp_all add: may_def)

lemma leave_simps [simp]: "leave (Inl (Fault f)) = Inl f" "leave (Inl (Return c)) = Inr (Inl c)"
  "leave (Inr x) = Inr (Inr x)"
  by (simp_all add: leave_def)

lemma post_may [simp]: "post (may m) P = post m P"
  by (cases m) simp_all

lemma may_eq_Inr: "may m = Inr x \<longleftrightarrow> m = Inr x"
  by (cases m) simp_all

section \<open>Arrays, allocation and loops\<close>

text \<open>
  A pointer to an array is \<open>None\<close> when null. An allocation of \<open>n\<close> bytes is granted or refused
  by the kernel: \<open>ok n\<close> is its answer, and a request of no bytes is always granted.
\<close>

definition arr_get :: "'a list option \<Rightarrow> nat \<Rightarrow> 'a result" where
  "arr_get a i = (case a of None \<Rightarrow> Inl Null_deref
     | Some xs \<Rightarrow> if i < length xs then Inr (xs ! i) else Inl Out_of_bounds)"

definition kgrant :: "(nat \<Rightarrow> bool) \<Rightarrow> nat \<Rightarrow> bool" where
  "kgrant ok n \<longleftrightarrow> n = 0 \<or> ok n"

lemma arr_get_Some [simp]: "i < length xs \<Longrightarrow> arr_get (Some xs) i = Inr (xs ! i)"
  by (simp add: arr_get_def)

lemma arr_get_None [simp]: "arr_get None i = Inl Null_deref"
  by (simp add: arr_get_def)

lemma arr_get_beyond [simp]: "length xs \<le> i \<Longrightarrow> arr_get (Some xs) i = Inl Out_of_bounds"
  by (simp add: arr_get_def)

lemma arr_get_eq_Inr:
  "arr_get a i = Inr x \<longleftrightarrow> (\<exists>xs. a = Some xs \<and> i < length xs \<and> xs ! i = x)"
  by (auto simp: arr_get_def split: option.splits)

lemma kgrant_0 [simp]: "kgrant ok 0"
  by (simp add: kgrant_def)

text \<open>
  \<open>for_loop i n f s\<close> is \<open>for (j = i; j < i + n; j++) s = f(j, s)\<close>, \<open>for_collect\<close> is the loop
  that fills array entry \<open>j\<close> with \<open>f(j)\<close>, and \<open>rd_list n rd\<close> is the loop that reads \<open>n\<close>
  items one after the other at an advancing pointer. A fault ends each of them.
\<close>

fun for_loop :: "nat \<Rightarrow> nat \<Rightarrow> (nat \<Rightarrow> 's \<Rightarrow> 'e + 's) \<Rightarrow> 's \<Rightarrow> 'e + 's" where
  "for_loop i 0 f s = Inr s"
| "for_loop i (Suc n) f s = bindr (f i s) (for_loop (Suc i) n f)"

fun for_collect :: "nat \<Rightarrow> nat \<Rightarrow> (nat \<Rightarrow> 'e + 'a) \<Rightarrow> 'e + 'a list" where
  "for_collect i 0 f = Inr []"
| "for_collect i (Suc n) f =
     bindr (f i) (\<lambda>x. bindr (for_collect (Suc i) n f) (\<lambda>xs. Inr (x # xs)))"

fun rd_list :: "nat \<Rightarrow> ('p \<Rightarrow> 'e + 'a \<times> 'p) \<Rightarrow> 'p \<Rightarrow> 'e + 'a list \<times> 'p" where
  "rd_list 0 rd p = Inr ([], p)"
| "rd_list (Suc n) rd p =
     bindr (rd p) (\<lambda>(x, p). bindr (rd_list n rd p) (\<lambda>(xs, p). Inr (x # xs, p)))"

lemma for_loop_invariant:
  assumes "for_loop i n f s = Inr s'" and "P s"
    and "\<And>j s s'. P s \<Longrightarrow> i \<le> j \<Longrightarrow> j < i + n \<Longrightarrow> f j s = Inr s' \<Longrightarrow> P s'"
  shows "P s'"
  using assms
proof (induction n arbitrary: i s)
  case (Suc n)
  from Suc.prems(1) obtain t where t: "f i s = Inr t" "for_loop (Suc i) n f t = Inr s'"
    by (auto simp: bindr_eq_Inr)
  have "P t" using Suc.prems(3) [OF Suc.prems(2) _ _ t(1)] by simp
  show ?case
  proof (rule Suc.IH [OF t(2) \<open>P t\<close>])
    fix j s s' assume "P s" "Suc i \<le> j" "j < Suc i + n" "f j s = Inr s'"
    then show "P s'" using Suc.prems(3) [of s j s'] by simp
  qed
qed simp

lemma for_loop_append:
  "for_loop i (m + n) f s = bindr (for_loop i m f s) (for_loop (i + m) n f)"
proof (induction m arbitrary: i s)
  case (Suc m)
  show ?case by (cases "f i s") (simp_all add: Suc.IH)
qed simp

lemma for_collect_map:
  "(\<And>j. i \<le> j \<Longrightarrow> j < i + n \<Longrightarrow> f j = Inr (g j)) \<Longrightarrow> for_collect i n f = Inr (map g [i..<i + n])"
proof (induction n arbitrary: i)
  case (Suc n)
  have "for_collect (Suc i) n f = Inr (map g [Suc i..<Suc i + n])"
    by (rule Suc.IH) (use Suc.prems in auto)
  moreover have "f i = Inr (g i)" using Suc.prems by simp
  moreover have "[i..<i + Suc n] = i # [Suc i..<Suc i + n]"
    by (subst upt_conv_Cons) simp_all
  ultimately show ?case by simp
qed simp

lemma for_collect_eq_Inr:
  "for_collect i n f = Inr xs \<Longrightarrow> length xs = n \<and> (\<forall>j<n. f (i + j) = Inr (xs ! j))"
proof (induction n arbitrary: i xs)
  case (Suc n)
  then obtain x ys where *: "f i = Inr x" "for_collect (Suc i) n f = Inr ys" "xs = x # ys"
    by (auto simp: bindr_eq_Inr)
  with Suc.IH [OF *(2)] show ?case by (auto simp: nth_Cons split: nat.splits)
qed simp

lemma rd_list_length: "rd_list n rd p = Inr (xs, p') \<Longrightarrow> length xs = n"
  by (induction n arbitrary: p xs) (auto simp: bindr_eq_Inr)

end
