(* ===== verification/Interface_Types.thy ===== *)
theory Interface_Types
  imports Prelude
begin

text \<open>
  The data of \<open>module/interface.h\<close>: interface descriptors with their control block, names and
  values, and the part of the kernel's memory the module shares between its threads, a heap of
  interface descriptors. Flag arrays, names and values hang off exactly one descriptor and are
  stored in it; descriptors themselves are reached from several lists and live in the heap, so
  a dangling pointer is visible as one.
\<close>

section \<open>Descriptors\<close>

record attr_info =
  attr_name :: cptr
  attr_description :: cptr

record attr_value =
  len :: u32
  addr :: cptr

record info_t =
  info_name :: cptr
  info_description :: cptr
  arg_info :: "attr_info list option"
  ret_info :: "attr_info list option"

text \<open>
  A socket is known by a number; \<open>sk_null\<close> says that its \<open>sk\<close> field is null. \<open>callback\<close> is
  the address of a user-space function, never read in the kernel. \<open>proc_entry\<close> is the number
  of a procfs entry.
\<close>

record socket_t =
  sock_no :: nat
  sk_null :: bool

record ctrl_t =
  activated :: byte
  client_portid :: u32
  callback :: nat
  socket :: "socket_t option"
  bind_pid :: int
  proc_entry :: "nat option"

record interface_t =
  if_id :: u32
  argc :: u32
  retc :: u32
  arg_flags :: cptr
  ret_flags :: cptr
  ctrl :: "ctrl_t option"
  info :: "info_t option"
  argv :: "attr_value list option"
  retv :: "attr_value list option"

text \<open>What \<open>kzalloc\<close> leaves in a fresh block: every field zero.\<close>

definition attr_info_0 :: attr_info where
  "attr_info_0 = \<lparr>attr_name = PNull, attr_description = PNull\<rparr>"

definition attr_value_0 :: attr_value where
  "attr_value_0 = \<lparr>len = 0, addr = PNull\<rparr>"

definition info_0 :: info_t where
  "info_0 = \<lparr>info_name = PNull, info_description = PNull, arg_info = None, ret_info = None\<rparr>"

definition ctrl_0 :: ctrl_t where
  "ctrl_0 = \<lparr>activated = 0, client_portid = 0, callback = 0, socket = None, bind_pid = 0,
     proc_entry = None\<rparr>"

definition interface_0 :: interface_t where
  "interface_0 = \<lparr>if_id = 0, argc = 0, retc = 0, arg_flags = PNull, ret_flags = PNull,
     ctrl = None, info = None, argv = None, retv = None\<rparr>"

text \<open>The sizes of the structures on the 64-bit target, and of their pointers.\<close>

abbreviation (input) SIZEOF_PTR :: nat where "SIZEOF_PTR \<equiv> 8"
abbreviation (input) SIZEOF_ATTR_INFO :: nat where "SIZEOF_ATTR_INFO \<equiv> 16"
abbreviation (input) SIZEOF_ATTR_VALUE :: nat where "SIZEOF_ATTR_VALUE \<equiv> 16"
abbreviation (input) SIZEOF_INFO :: nat where "SIZEOF_INFO \<equiv> 32"
abbreviation (input) SIZEOF_CTRL :: nat where "SIZEOF_CTRL \<equiv> 40"
abbreviation (input) SIZEOF_INTERFACE :: nat where "SIZEOF_INTERFACE \<equiv> 64"

section \<open>The heap of descriptors\<close>

text \<open>
  Addresses are positive numbers handed out in order; 0 is the null pointer. An array of
  descriptor pointers has slots that may be uninitialised. \<open>trace\<close> lists, newest first, the
  calls the module made to the rest of the kernel that have an effect outside it.
\<close>

type_synonym ptr = nat
type_synonym iarray = "ptr option list"

datatype thread = Discovery_loop | Broadcast_loop | Service_loop | Connection nat

datatype event =
    Sock_created nat
  | Sock_bound nat
  | Sock_listening nat
  | Sock_accepted nat nat                     \<comment> \<open>listening socket, connected socket\<close>
  | Sock_connected nat u32
  | Sock_sent nat "u32 option" "byte list"    \<comment> \<open>\<open>sock_sendmsg\<close>: socket, address, bytes\<close>
  | Sock_received nat nat                     \<comment> \<open>\<open>sock_recvmsg\<close>: socket, size of the buffer\<close>
  | Sock_released nat
  | Nl_created nat
  | Nl_unicast nat u32 "byte list"            \<comment> \<open>\<open>nlmsg_unicast\<close>: socket, port, bytes\<close>
  | Nl_released nat
  | Proc_created "byte list" nat
  | Proc_dir_created nat
  | Proc_removed nat
  | Thread_started thread
  | Thread_stopped thread
  | Chrdev_allocated nat
  | Chrdev_freed nat
  | Chrdev_unregistered nat                   \<comment> \<open>\<open>unregister_chrdev\<close>, given a device number for a major one\<close>
  | Class_created nat
  | Class_destroyed nat
  | Device_created nat int                    \<comment> \<open>device class, minor number\<close>
  | Device_destroyed nat int
  | Cdev_added nat
  | Cdev_deleted nat
  | Module_got                                \<comment> \<open>\<open>try_module_get\<close> that succeeded\<close>
  | Module_put

record mem =
  heap :: "ptr \<Rightarrow> interface_t option"
  next_ptr :: ptr
  trace :: "event list"

definition deref :: "ptr \<Rightarrow> 'z mem_scheme \<Rightarrow> interface_t result" where
  "deref p s = (if p = 0 then Inl Null_deref else
     (case heap s p of None \<Rightarrow> Inl Use_after_free | Some i \<Rightarrow> Inr i))"

definition store :: "ptr \<Rightarrow> interface_t \<Rightarrow> 'z mem_scheme \<Rightarrow> 'z mem_scheme" where
  "store p i s = s\<lparr>heap := (heap s)(p \<mapsto> i)\<rparr>"

definition new_interface :: "interface_t \<Rightarrow> 'z mem_scheme \<Rightarrow> ptr \<times> 'z mem_scheme" where
  "new_interface i s =
     (next_ptr s, s\<lparr>heap := (heap s)(next_ptr s \<mapsto> i), next_ptr := Suc (next_ptr s)\<rparr>)"

definition release :: "ptr \<Rightarrow> 'z mem_scheme \<Rightarrow> 'z mem_scheme" where
  "release p s = s\<lparr>heap := (heap s)(p := None)\<rparr>"

definition emit :: "event \<Rightarrow> 'z mem_scheme \<Rightarrow> 'z mem_scheme" where
  "emit e s = s\<lparr>trace := e # trace s\<rparr>"

text \<open>\<open>a[i]\<close> for an array of pointers: an uninitialised slot has no value to read.\<close>

definition slot :: "iarray option \<Rightarrow> nat \<Rightarrow> ptr result" where
  "slot a i = bindr (arr_get a i) (\<lambda>x. case x of None \<Rightarrow> Inl Uninit_read | Some p \<Rightarrow> Inr p)"

definition mem_wf :: "'z mem_scheme \<Rightarrow> bool" where
  "mem_wf s \<longleftrightarrow> 0 < next_ptr s \<and> (\<forall>p \<in> dom (heap s). 0 < p \<and> p < next_ptr s)"

lemma deref_eq_Inr: "deref p s = Inr i \<longleftrightarrow> p \<noteq> 0 \<and> heap s p = Some i"
  by (auto simp: deref_def split: option.splits)

lemma deref_store [simp]:
  "deref q (store p i s) = (if q = p \<and> p \<noteq> 0 then Inr i else deref q s)"
  by (simp add: deref_def store_def)

lemma mem_wf_store: "mem_wf s \<Longrightarrow> heap s p \<noteq> None \<Longrightarrow> mem_wf (store p i s)"
  by (auto simp: mem_wf_def store_def)

lemma mem_wf_new: "mem_wf s \<Longrightarrow> mem_wf (snd (new_interface i s))"
  by (auto simp: mem_wf_def new_interface_def intro: less_SucI)

lemma mem_wf_release: "mem_wf s \<Longrightarrow> mem_wf (release p s)"
  by (auto simp: mem_wf_def release_def)

lemma mem_wf_emit [simp]: "mem_wf (emit e s) = mem_wf s"
  by (simp add: mem_wf_def emit_def)

lemma mem_wf_next_free: "mem_wf s \<Longrightarrow> heap s (next_ptr s) = None"
  by (auto simp: mem_wf_def)

lemma heap_emit [simp]: "heap (emit e s) = heap s"
  and next_ptr_emit [simp]: "next_ptr (emit e s) = next_ptr s"
  and trace_emit [simp]: "trace (emit e s) = e # trace s"
  and heap_store [simp]: "heap (store p i s) = (heap s)(p \<mapsto> i)"
  and next_ptr_store [simp]: "next_ptr (store p i s) = next_ptr s"
  and trace_store [simp]: "trace (store p i s) = trace s"
  and heap_release [simp]: "heap (release p s) = (heap s)(p := None)"
  and next_ptr_release [simp]: "next_ptr (release p s) = next_ptr s"
  and trace_release [simp]: "trace (release p s) = trace s"
  by (simp_all add: emit_def store_def release_def)

lemma deref_emit [simp]: "deref p (emit e s) = deref p s"
  by (simp add: deref_def)

lemma slot_Some [simp]: "i < length a \<Longrightarrow> a ! i = Some p \<Longrightarrow> slot (Some a) i = Inr p"
  by (simp add: slot_def)

lemma slot_None [simp]: "slot None i = Inl Null_deref"
  by (simp add: slot_def)

lemma slot_eq_Inr: "slot a i = Inr p \<longleftrightarrow> (\<exists>xs. a = Some xs \<and> i < length xs \<and> xs ! i = Some p)"
  by (auto simp: slot_def bindr_eq_Inr arr_get_eq_Inr split: option.splits)

text \<open>
  \<open>describes a s xs\<close>: the pointers of the array \<open>a\<close> lead, in the memory \<open>s\<close>, to the
  descriptors \<open>xs\<close>. It survives every change to other descriptors.
\<close>

definition describes :: "iarray \<Rightarrow> 'z mem_scheme \<Rightarrow> interface_t list \<Rightarrow> bool" where
  "describes a s xs \<longleftrightarrow> list_all2 (\<lambda>e x. \<exists>p. e = Some p \<and> p \<noteq> 0 \<and> heap s p = Some x) a xs"

lemma describes_length: "describes a s xs \<Longrightarrow> length a = length xs"
  by (simp add: describes_def list_all2_lengthD)

lemma describes_nth:
  "describes a s xs \<Longrightarrow> j < length xs \<Longrightarrow>
   \<exists>p. slot (Some (a @ b)) j = Inr p \<and> p \<noteq> 0 \<and> deref p s = Inr (xs ! j)"
  by (auto simp: describes_def list_all2_conv_all_nth slot_eq_Inr deref_eq_Inr nth_append)

lemma describes_Nil [simp]: "describes [] s []"
  by (simp add: describes_def)

lemma describes_append:
  "length a = length xs \<Longrightarrow>
   describes (a @ b) s (xs @ ys) \<longleftrightarrow> describes a s xs \<and> describes b s ys"
  by (simp add: describes_def list_all2_append)

lemma describes_frame:
  "describes a s xs \<Longrightarrow> (\<And>p. Some p \<in> set a \<Longrightarrow> heap t p = heap s p) \<Longrightarrow> describes a t xs"
  by (auto simp: describes_def list_all2_conv_all_nth) (metis nth_mem)

lemma describes_cong: "heap s = heap t \<Longrightarrow> describes a s xs = describes a t xs"
  by (simp add: describes_def)

lemma describes_heap:
  "describes a s xs \<Longrightarrow> Some p \<in> set a \<Longrightarrow> p \<noteq> 0 \<and> (\<exists>x \<in> set xs. heap s p = Some x)"
  by (auto simp: describes_def list_all2_conv_all_nth in_set_conv_nth) fastforce+

end
