(* ===== verification/Registry_State.thy ===== *)
theory Registry_State
  imports Interface_Types
begin

text \<open>
  The globals of \<open>module/interface.c\<close>, the services of the kernel the module calls, and the
  functions that allocate, free and find descriptors. The registry is an array of descriptor
  pointers with a count and a capacity, all in 32-bit integers.
\<close>

section \<open>Kernel services\<close>

text \<open>
  Code outside the module is a parameter. A service that may answer differently each time gets
  the trace of the calls made so far as its first argument; an answer is then any function of
  the history. \<open>strlen_user\<close> and \<open>strndup_user\<close> read strings of the calling process,
  \<open>memdup_user\<close> blocks; \<open>copy_to_user\<close> writes to it and returns the number of bytes it could
  not write. \<open>sock_recvmsg\<close> answers with its return code, the sender's address, if it stored one, and the bytes
  it wrote to the buffer. Sockets, classes, device regions and entries are known by numbers;
  a creation answers with the number, or with an error. \<open>kthread_stop\<close> answers whether the call
  returns: it waits until the thread's function has ended.
\<close>

record kenv =
  kmem :: "nat \<Rightarrow> bool"
  strlen_user :: "cptr \<Rightarrow> u32"
  strndup_user :: "cptr \<Rightarrow> u32 \<Rightarrow> cptr"
  memdup_user :: "cptr \<Rightarrow> u32 \<Rightarrow> cptr"
  copy_to_user :: "cptr \<Rightarrow> byte list \<Rightarrow> nat"
  proc_create :: "event list \<Rightarrow> byte list \<Rightarrow> nat option"
  proc_mkdir :: "event list \<Rightarrow> nat option"
  netlink_kernel_create :: "event list \<Rightarrow> nat option"
  nlmsg_new :: "event list \<Rightarrow> u32 \<Rightarrow> bool"
  nlmsg_unicast :: "event list \<Rightarrow> nat \<Rightarrow> u32 \<Rightarrow> byte list \<Rightarrow> int"
  sock_create :: "event list \<Rightarrow> int + nat"
  sock_setsockopt :: "event list \<Rightarrow> nat \<Rightarrow> int"
  sock_bind :: "event list \<Rightarrow> nat \<Rightarrow> int"
  sock_listen :: "event list \<Rightarrow> nat \<Rightarrow> int"
  sock_accept :: "event list \<Rightarrow> nat \<Rightarrow> nat \<Rightarrow> int"
  sock_connect :: "event list \<Rightarrow> nat \<Rightarrow> u32 \<Rightarrow> int"
  sock_getname :: "event list \<Rightarrow> nat \<Rightarrow> int"
  sock_sendmsg :: "event list \<Rightarrow> nat \<Rightarrow> byte list \<Rightarrow> int"
  sock_recvmsg :: "event list \<Rightarrow> nat \<Rightarrow> nat \<Rightarrow> int \<times> u32 option \<times> byte list"
  alloc_chrdev_region :: "event list \<Rightarrow> int + nat"
  class_create :: "event list \<Rightarrow> nat option"
  device_create :: "event list \<Rightarrow> nat \<Rightarrow> int \<Rightarrow> bool"
  cdev_add :: "event list \<Rightarrow> nat \<Rightarrow> int"
  kthread_create :: "event list \<Rightarrow> thread \<Rightarrow> bool"
  kthread_stop :: "event list \<Rightarrow> thread \<Rightarrow> bool"
  try_module_get :: "event list \<Rightarrow> bool"

text \<open>
  Documented behaviour of the user-copy functions, as hypotheses: a string in readable memory
  is measured with its terminator and duplicated, a block is duplicated.
\<close>

definition user_strings_copied :: "kenv \<Rightarrow> bool" where
  "user_strings_copied e \<longleftrightarrow> (\<forall>s r. 0 \<notin> set s \<and> length s < 65535 \<longrightarrow>
     strlen_user e (PBlk (cstring s @ r)) = word_of_nat (Suc (length s)) \<and>
     strndup_user e (PBlk (cstring s @ r)) (word_of_nat (Suc (length s))) = PBlk (cstring s))"

definition user_blocks_copied :: "kenv \<Rightarrow> bool" where
  "user_blocks_copied e \<longleftrightarrow> (\<forall>b n. unat n \<le> length b \<longrightarrow>
     memdup_user e (PBlk b) n = PBlk (take (unat n) b))"

definition dup_user :: "kenv \<Rightarrow> cptr \<Rightarrow> cptr" where
  "dup_user e p = strndup_user e p (strlen_user e p)"

lemma dup_user_string:
  "user_strings_copied e \<Longrightarrow> 0 \<notin> set s \<Longrightarrow> length s < 65535 \<Longrightarrow>
   dup_user e (PBlk (cstring s @ r)) = PBlk (cstring s)"
  by (simp add: user_strings_copied_def dup_user_def)

text \<open>
  Starting a kernel thread: \<open>kthread_create\<close> and \<open>wake_up_process\<close>, which is given the error
  pointer when the creation is refused.
\<close>

definition start_thread :: "kenv \<Rightarrow> thread \<Rightarrow> 'z mem_scheme \<Rightarrow> 'z mem_scheme result" where
  "start_thread e th s = (if kthread_create e (trace s) th then Inr (emit (Thread_started th) s)
     else Inl Bad_pointer)"

section \<open>The state\<close>

abbreviation (input) GRADIENT :: u32 where "GRADIENT \<equiv> 10"

record registry = mem +
  ALLOCATED_ID :: u32
  INTERFACE_COUNT :: u32
  INTERFACE_CAPACITY :: u32
  INTERFACE_LIST :: "iarray option"
  KERN_NETLINK :: "nat option"

section \<open>Allocating, freeing and finding descriptors\<close>

definition kzalloc_array :: "(nat \<Rightarrow> bool) \<Rightarrow> nat \<Rightarrow> nat \<Rightarrow> 'a \<Rightarrow> 'a list option" where
  "kzalloc_array ok sz n zero = (if kgrant ok (sz * n) then Some (replicate n zero) else None)"

definition kzalloc_bytes :: "(nat \<Rightarrow> bool) \<Rightarrow> nat \<Rightarrow> cptr" where
  "kzalloc_bytes ok n = (if kgrant ok n then PBlk (replicate n 0) else PNull)"

definition alloc_info :: "(nat \<Rightarrow> bool) \<Rightarrow> u32 \<Rightarrow> u32 \<Rightarrow> info_t result" where
  "alloc_info ok argcv retcv =
     bindr (require (kgrant ok SIZEOF_INFO) Null_deref) (\<lambda>_.
     Inr (info_0\<lparr>arg_info := kzalloc_array ok SIZEOF_ATTR_INFO (unat argcv) attr_info_0,
       ret_info := kzalloc_array ok SIZEOF_ATTR_INFO (unat retcv) attr_info_0\<rparr>))"

definition alloc_interface ::
  "(nat \<Rightarrow> bool) \<Rightarrow> u32 \<Rightarrow> u32 \<Rightarrow> bool \<Rightarrow> bool \<Rightarrow> bool \<Rightarrow> 'z mem_scheme \<Rightarrow>
   (ptr \<times> 'z mem_scheme) result" where
  "alloc_interface ok argcv retcv init_info init_argv init_retv s =
     bindr (require (kgrant ok SIZEOF_INTERFACE) Null_deref) (\<lambda>_.
     bindr (if init_info then bindr (alloc_info ok argcv retcv) (\<lambda>i. Inr (Some i)) else Inr None)
       (\<lambda>infop.
     Inr (new_interface (interface_0\<lparr>if_id := - 1, argc := argcv, retc := retcv,
       arg_flags := kzalloc_bytes ok (unat argcv), ret_flags := kzalloc_bytes ok (unat retcv),
       ctrl := (if kgrant ok SIZEOF_CTRL then Some ctrl_0 else None),
       info := infop,
       argv := (if init_argv then kzalloc_array ok SIZEOF_ATTR_VALUE (unat argcv) attr_value_0
         else None),
       retv := (if init_retv then kzalloc_array ok SIZEOF_ATTR_VALUE (unat retcv) attr_value_0
         else None)\<rparr>) s)))"

definition free_interface :: "ptr \<Rightarrow> 'z mem_scheme \<Rightarrow> 'z mem_scheme result" where
  "free_interface p s = bindr (deref p s) (\<lambda>_. Inr (release p s))"

fun find_from :: "iarray option \<Rightarrow> nat \<Rightarrow> nat \<Rightarrow> u32 \<Rightarrow> 'z mem_scheme \<Rightarrow> ptr result" where
  "find_from interface_list i 0 idv s = Inr 0"
| "find_from interface_list i (Suc n) idv s =
     bindr (slot interface_list i) (\<lambda>p.
     bindr (deref p s) (\<lambda>interface.
     if if_id interface = idv then Inr p else find_from interface_list (Suc i) n idv s))"

definition find_interface :: "iarray option \<Rightarrow> int \<Rightarrow> u32 \<Rightarrow> 'z mem_scheme \<Rightarrow> ptr result" where
  "find_interface interface_list count idv s = find_from interface_list 0 (nat count) idv s"

definition free_interfaces ::
  "iarray option \<Rightarrow> int \<Rightarrow> 'z mem_scheme \<Rightarrow> 'z mem_scheme result" where
  "free_interfaces interfaces count s =
     (if interfaces = None then Inr s else if count = 0 then Inr s else
      for_loop 0 (nat count) (\<lambda>i s. bindr (slot interfaces i) (\<lambda>p. free_interface p s)) s)"

definition read_ctrl :: "ptr \<Rightarrow> 'z mem_scheme \<Rightarrow> ctrl_t result" where
  "read_ctrl p s = bindr (deref p s) (\<lambda>x. case ctrl x of None \<Rightarrow> Inl Null_deref | Some c \<Rightarrow> Inr c)"

definition write_ctrl :: "ptr \<Rightarrow> (ctrl_t \<Rightarrow> ctrl_t) \<Rightarrow> 'z mem_scheme \<Rightarrow> 'z mem_scheme result" where
  "write_ctrl p f s = bindr (deref p s) (\<lambda>x.
     case ctrl x of None \<Rightarrow> Inl Null_deref | Some c \<Rightarrow> Inr (store p (x\<lparr>ctrl := Some (f c)\<rparr>) s))"

section \<open>Looking up a list that describes its interfaces\<close>

text \<open>The position of the first interface with an identifier: what \<open>find_interface\<close> computes.\<close>

fun index_of :: "u32 \<Rightarrow> interface_t list \<Rightarrow> nat option" where
  "index_of idv [] = None"
| "index_of idv (x # xs) = (if if_id x = idv then Some 0 else map_option Suc (index_of idv xs))"

lemma index_of_SomeD:
  "index_of idv xs = Some j \<Longrightarrow> j < length xs \<and> if_id (xs ! j) = idv \<and> (\<forall>k<j. if_id (xs ! k) \<noteq> idv)"
  by (induction xs arbitrary: j)
    (auto simp: nth_Cons split: if_splits nat.splits)

lemma index_of_None_iff: "index_of idv xs = None \<longleftrightarrow> (\<forall>x \<in> set xs. if_id x \<noteq> idv)"
  by (induction xs) auto

lemma find_from_describes:
  "describes a s xs \<Longrightarrow>
   find_from (Some (pre @ a @ b)) (length pre) (length xs) idv s
     = Inr (case index_of idv xs of None \<Rightarrow> 0 | Some j \<Rightarrow> the (a ! j))"
proof (induction xs arbitrary: a pre)
  case (Cons x xs)
  then obtain p a' where a: "a = Some p # a'" "p \<noteq> 0" "heap s p = Some x" "describes a' s xs"
    by (auto simp: describes_def list_all2_Cons2)
  have "slot (Some (pre @ a @ b)) (length pre) = Inr p"
    by (simp add: slot_eq_Inr a)
  moreover have "find_from (Some ((pre @ [Some p]) @ a' @ b)) (length (pre @ [Some p])) (length xs) idv s
      = Inr (case index_of idv xs of None \<Rightarrow> 0 | Some j \<Rightarrow> the (a' ! j))"
    by (rule Cons.IH [OF a(4)])
  ultimately show ?case
    using a by (auto simp: deref_def split: option.splits)
qed simp

lemma find_interface_describes:
  "describes a s xs \<Longrightarrow> nat count = length xs \<Longrightarrow>
   find_interface (Some (a @ b)) count idv s
     = Inr (case index_of idv xs of None \<Rightarrow> 0 | Some j \<Rightarrow> the (a ! j))"
  using find_from_describes [of a s xs "[]" b idv] by (simp add: find_interface_def)

end
