(* ===== verification/Table.thy ===== *)
theory Table
  imports Registry_State
begin

text \<open>
  The contract of a table of interfaces, which the registry and every peer provide: the search
  of \<open>find_interface\<close> agrees with a list of descriptors. The handlers of calls, results and
  device requests rely on nothing else.
\<close>

locale interface_table =
  fixes array :: "'s \<Rightarrow> iarray option"
    and size_of :: "'s \<Rightarrow> int"
    and memory :: "'s \<Rightarrow> 'z mem_scheme"
    and view :: "'s \<Rightarrow> interface_t list"
    and ok :: "'s \<Rightarrow> bool"
  assumes find_hit: "ok s \<Longrightarrow> index_of idv (view s) = Some j \<Longrightarrow>
      \<exists>p. find_interface (array s) (size_of s) idv (memory s) = Inr p \<and> p \<noteq> 0 \<and>
        heap (memory s) p = Some (view s ! j)"
    and find_miss: "ok s \<Longrightarrow> index_of idv (view s) = None \<Longrightarrow>
      find_interface (array s) (size_of s) idv (memory s) = Inr 0"
begin

lemma find_total: "ok s \<Longrightarrow> \<exists>p. find_interface (array s) (size_of s) idv (memory s) = Inr p"
  by (cases "index_of idv (view s)") (use find_hit find_miss in blast)+

lemma find_zero:
  assumes "ok s"
  shows "find_interface (array s) (size_of s) idv (memory s) = Inr 0 \<longleftrightarrow>
    (\<forall>x \<in> set (view s). if_id x \<noteq> idv)"
proof (cases "index_of idv (view s)")
  case None
  then show ?thesis using find_miss [OF assms None] index_of_None_iff by blast
next
  case (Some j)
  then show ?thesis
    using find_hit [OF assms Some] index_of_None_iff [of idv "view s"] by auto
qed

lemma lookup:
  assumes "ok s" and "index_of idv (view s) = Some j"
  obtains p where "find_interface (array s) (size_of s) idv (memory s) = Inr p" "p \<noteq> 0"
    "deref p (memory s) = Inr (view s ! j)" "if_id (view s ! j) = idv" "view s ! j \<in> set (view s)"
  using find_hit [OF assms] index_of_SomeD [OF assms(2)] that
  by (auto simp: deref_def)

end

text \<open>A table whose descriptors can be changed in place, without touching their identifiers.\<close>

locale updatable_table = interface_table +
  fixes put :: "ptr \<Rightarrow> interface_t \<Rightarrow> 's \<Rightarrow> 's"
    and valid :: "interface_t \<Rightarrow> bool"
  assumes put_view: "ok s \<Longrightarrow> distinct (map if_id (view s)) \<Longrightarrow>
      index_of idv (view s) = Some j \<Longrightarrow>
      find_interface (array s) (size_of s) idv (memory s) = Inr p \<Longrightarrow>
      if_id y = idv \<Longrightarrow> valid y \<Longrightarrow> ok (put p y s) \<and> view (put p y s) = (view s)[j := y]"
begin

lemma index_of_update:
  "index_of i xs = Some j \<Longrightarrow> if_id y = i \<Longrightarrow> index_of k (xs[j := y]) = index_of k xs"
  by (induction xs arbitrary: j) (auto split: if_splits)

lemma lookup_put:
  assumes "ok s" "distinct (map if_id (view s))" "index_of idv (view s) = Some j"
    and "find_interface (array s) (size_of s) idv (memory s) = Inr p" and "if_id y = idv" "valid y"
  shows "\<exists>q. find_interface (array (put p y s)) (size_of (put p y s)) idv (memory (put p y s)) = Inr q \<and>
    q \<noteq> 0 \<and> heap (memory (put p y s)) q = Some y"
proof -
  have v: "ok (put p y s)" "view (put p y s) = (view s)[j := y]"
    using put_view [OF assms] by auto
  have "index_of idv (view (put p y s)) = Some j"
    unfolding v(2) index_of_update [OF assms(3,5)] by (rule assms(3))
  from find_hit [OF v(1) this] v(2) index_of_SomeD [OF assms(3)] show ?thesis by auto
qed

end

end
