(* ===== verification/Buffer.thy ===== *)
theory Buffer
  imports Prelude
begin

text \<open>
  \<open>copy_to_buffer\<close> of \<open>module/packet.c\<close> and \<open>lib/src/packet.c\<close>: appending to a block that
  grows by \<open>BUFFER_INC_SIZE\<close>. A buffer is the bytes written so far, the length and the limit
  the code keeps in 32-bit integers, and the size of the block it owns (\<open>None\<close> when the
  allocator refused it). The code grows the block once per call, so a chunk larger than the
  free space plus one increment is written past its end.
\<close>

abbreviation (input) BUFFER_INC_SIZE :: u32 where "BUFFER_INC_SIZE \<equiv> 65536"

record dbuf =
  bdata :: "byte list"
  blen :: u32
  bmax :: u32
  bcap :: "nat option"

definition kalloc :: "(nat \<Rightarrow> bool) \<Rightarrow> nat \<Rightarrow> nat option" where
  "kalloc ok n = (if kgrant ok n then Some n else None)"

definition new_buffer :: "(nat \<Rightarrow> bool) \<Rightarrow> dbuf" where
  "new_buffer ok = \<lparr>bdata = [], blen = 0, bmax = BUFFER_INC_SIZE,
     bcap = kalloc ok (unat BUFFER_INC_SIZE)\<rparr>"

definition mem_write :: "nat option \<Rightarrow> nat \<Rightarrow> nat \<Rightarrow> unit result" where
  "mem_write cap off n = (if n = 0 then Inr () else
     (case cap of None \<Rightarrow> Inl Null_deref
      | Some c \<Rightarrow> require (off + n \<le> c) Out_of_bounds))"

definition copy_to_buffer :: "(nat \<Rightarrow> bool) \<Rightarrow> dbuf \<Rightarrow> cptr \<Rightarrow> u32 \<Rightarrow> dbuf result" where
  "copy_to_buffer ok b src src_length =
     (let b = (if bmax b < blen b + src_length
               then b\<lparr>bmax := bmax b + BUFFER_INC_SIZE,
                      bcap := kalloc ok (unat (bmax b + BUFFER_INC_SIZE))\<rparr>
               else b)
      in bindr (mem_read src (unat src_length)) (\<lambda>x.
         bindr (mem_write (bcap b) (unat (blen b)) (unat src_length)) (\<lambda>_.
         Inr (b\<lparr>bdata := bdata b @ x, blen := blen b + src_length\<rparr>))))"

section \<open>Appending within the limits\<close>

text \<open>
  \<open>holds xs b\<close>: the buffer is well formed and contains \<open>xs\<close>. \<open>roomy ok L\<close>: packets of up to
  \<open>L\<close> bytes fit, that is the allocator grants every block they need and the 32-bit counters
  do not wrap.
\<close>

definition holds :: "byte list \<Rightarrow> dbuf \<Rightarrow> bool" where
  "holds xs b \<longleftrightarrow> bdata b = xs \<and> length xs = unat (blen b) \<and> length xs \<le> unat (bmax b) \<and>
     bcap b = Some (unat (bmax b))"

definition roomy :: "(nat \<Rightarrow> bool) \<Rightarrow> nat \<Rightarrow> bool" where
  "roomy ok L \<longleftrightarrow> (\<forall>n. n \<le> L + unat BUFFER_INC_SIZE \<longrightarrow> ok n) \<and>
     L + unat BUFFER_INC_SIZE < 2 ^ 32"

lemma roomy_mono: "roomy ok L \<Longrightarrow> L' \<le> L \<Longrightarrow> roomy ok L'"
  by (auto simp: roomy_def)

lemma roomy_grants: "roomy ok L \<Longrightarrow> n \<le> L + 65536 \<Longrightarrow> kgrant ok n"
  by (auto simp: roomy_def kgrant_def)

lemma holds_new_buffer: "roomy ok L \<Longrightarrow> holds [] (new_buffer ok)"
  using roomy_grants [of ok L 65536] by (simp add: holds_def new_buffer_def kalloc_def)

lemma holds_data: "holds xs b \<Longrightarrow> bdata b = xs"
  and holds_len: "holds xs b \<Longrightarrow> blen b = word_of_nat (length xs)"
  by (simp_all add: holds_def)

lemma copy_to_buffer_holds:
  assumes "holds xs b" and "mem_read src (unat n) = Inr x" and "unat n \<le> unat BUFFER_INC_SIZE"
    and "length xs + unat n \<le> L" and "roomy ok L"
  shows "post (copy_to_buffer ok b src n) (holds (xs @ x))"
proof -
  have L: "L + 65536 < 2 ^ 32" using assms(5) by (simp add: roomy_def)
  have len: "length xs = unat (blen b)" "length xs \<le> unat (bmax b)" "bcap b = Some (unat (bmax b))"
    using assms(1) by (simp_all add: holds_def)
  have sum: "unat (blen b + n) = length xs + unat n"
    using L assms(4) len by (simp add: unat_word_ariths)
  have x: "length x = unat n" by (rule mem_read_length [OF assms(2)])
  show ?thesis
  proof (cases "bmax b < blen b + n")
    case True
    then have "unat (bmax b) < length xs + unat n"
      using sum by (simp add: word_less_nat_alt)
    moreover from this have grow: "unat (bmax b + 65536) = unat (bmax b) + 65536"
      using L assms(4) by (simp add: unat_word_ariths)
    moreover have "kgrant ok (unat (bmax b) + 65536)"
      by (rule roomy_grants [OF assms(5)]) (use calculation assms(4) in simp)
    ultimately show ?thesis
      using True assms(1-3) len sum x
      by (auto simp: copy_to_buffer_def holds_def mem_write_def kalloc_def)
  next
    case False
    then have "length xs + unat n \<le> unat (bmax b)"
      using sum by (simp add: word_less_nat_alt)
    then show ?thesis
      using False assms(1-2) len sum x
      by (auto simp: copy_to_buffer_def holds_def mem_write_def)
  qed
qed

text \<open>
  The rules for straight-line code and for loops that append: whatever the code that follows
  achieves from every buffer with the appended contents, the whole achieves.
\<close>

lemma copy_u32_holds:
  assumes "holds xs b" and "length xs + 4 \<le> L" and "roomy ok L"
  shows "post (copy_to_buffer ok b (PBlk (u32_bytes w)) 4) (holds (xs @ u32_bytes w))"
  by (rule copy_to_buffer_holds [OF assms(1) _ _ _ assms(3)]) (use assms(2) in simp_all)

lemmas copy_u32 = post_bindr [OF copy_u32_holds]

lemmas may_copy_u32 = post_bindr [OF copy_u32_holds [THEN post_may [THEN iffD2]]]

lemma append_loop:
  fixes f :: "nat \<Rightarrow> dbuf \<Rightarrow> 'e + dbuf"
  assumes "holds xs b"
    and "\<And>j b. j < length ys \<Longrightarrow> holds (xs @ concat (map g (take j ys))) b \<Longrightarrow>
      length (concat (map g (take j ys))) + length (g (ys ! j)) \<le> length (concat (map g ys)) \<Longrightarrow>
      post (f j b) (holds ((xs @ concat (map g (take j ys))) @ g (ys ! j)))"
  shows "post (for_loop 0 (length ys) f b) (holds (xs @ concat (map g ys)))"
proof -
  have "n \<le> length ys \<Longrightarrow> post (for_loop 0 n f b) (holds (xs @ concat (map g (take n ys))))" for n
  proof (induction n)
    case 0
    with assms(1) show ?case by simp
  next
    case (Suc n)
    have split: "take (Suc n) ys = take n ys @ [ys ! n]"
      using Suc.prems by (simp add: take_Suc_conv_app_nth)
    have "map g ys = map g (take (Suc n) ys) @ map g (drop (Suc n) ys)"
      by (metis append_take_drop_id map_append)
    then have le: "length (concat (map g (take n ys))) + length (g (ys ! n))
        \<le> length (concat (map g ys))"
      by (simp add: split)
    have "post (for_loop n 1 f b') (holds (xs @ concat (map g (take (Suc n) ys))))"
      if "holds (xs @ concat (map g (take n ys))) b'" for b'
      using assms(2) [OF _ that le] Suc.prems by (auto simp: split post_def)
    then have "post (bindr (for_loop 0 n f b) (for_loop n 1 f))
        (holds (xs @ concat (map g (take (Suc n) ys))))"
      using Suc by (auto intro: post_bindr)
    with for_loop_append [of 0 n 1 f b] show ?case by simp
  qed
  from this [of "length ys"] show ?thesis by simp
qed

text \<open>An allocator that grants requests of up to 4 MiB, as \<open>kmalloc\<close> does at most.\<close>

definition kmalloc_max :: "nat \<Rightarrow> bool" where
  "kmalloc_max n \<longleftrightarrow> n \<le> 4194304"

lemma roomy_kmalloc_max: "L \<le> 4128768 \<Longrightarrow> roomy kmalloc_max L"
  by (simp add: roomy_def kmalloc_max_def)

section \<open>Appending beyond them\<close>

lemma copy_to_buffer_overflow:
  assumes "holds xs b" and "mem_read src (unat n) = Inr x" and "0 < n"
    and "length xs + unat n < 2 ^ 32"
    and "unat (bmax b) + unat BUFFER_INC_SIZE < length xs + unat n"
    and "kgrant ok (unat (bmax b) + unat BUFFER_INC_SIZE)"
  shows "copy_to_buffer ok b src n = Inl Out_of_bounds"
proof -
  have len: "length xs = unat (blen b)" using assms(1) by (simp add: holds_def)
  have sum: "unat (blen b + n) = length xs + unat n"
    using assms(4) len by (simp add: unat_word_ariths)
  have grow: "unat (bmax b + 65536) = unat (bmax b) + 65536"
    using assms(4,5) by (simp add: unat_word_ariths)
  have "bmax b < blen b + n"
    using sum assms(5) by (simp add: word_less_nat_alt)
  moreover have "unat n \<noteq> 0" using assms(3) by (simp add: word_less_nat_alt)
  ultimately show ?thesis
    using assms(2,5,6) grow len by (simp add: copy_to_buffer_def kalloc_def mem_write_def)
qed

end
