(* ===== verification/Format.thy ===== *)
theory Format
  imports Prelude
begin

text \<open>
  What \<open>sprintf\<close> writes for the conversions the module uses: \<open>%d\<close> in decimal with a minus
  sign, \<open>%s\<close> the characters before the terminator. Text is a list of bytes.
\<close>

definition ascii :: "string \<Rightarrow> byte list" where
  "ascii s = map of_char s"

fun dec_nat :: "nat \<Rightarrow> byte list" where
  "dec_nat n = (if n < 10 then [word_of_nat (48 + n)]
     else dec_nat (n div 10) @ [word_of_nat (48 + n mod 10)])"

declare dec_nat.simps [simp del]

definition dec_int :: "int \<Rightarrow> byte list" where
  "dec_int i = (if i < 0 then 45 # dec_nat (nat (- i)) else dec_nat (nat i))"

text \<open>\<open>%s\<close>: a null pointer prints as \<open>(null)\<close>; anything else must lead to a terminated string.\<close>

definition fmt_s :: "cptr \<Rightarrow> byte list result" where
  "fmt_s p = (if p = PNull then Inr (ascii ''(null)'') else
     bindr (strlen p) (\<lambda>n. mem_read p n))"

definition dec_value :: "byte list \<Rightarrow> nat" where
  "dec_value ds = foldl (\<lambda>v d. 10 * v + (unat d - 48)) 0 ds"

lemma digit_value: "n < 10 \<Longrightarrow> unat (word_of_nat (48 + n) :: byte) = 48 + n"
  by (subst unat_of_nat) simp

lemma dec_value_dec_nat: "dec_value (dec_nat n) = n"
proof (induction n rule: dec_nat.induct)
  case (1 n)
  show ?case
  proof (cases "n < 10")
    case True
    then show ?thesis using digit_value [of n] by (subst dec_nat.simps) (simp add: dec_value_def)
  next
    case False
    then have "dec_value (dec_nat n)
        = 10 * dec_value (dec_nat (n div 10)) + (unat (word_of_nat (48 + n mod 10) :: byte) - 48)"
      by (subst dec_nat.simps) (simp add: dec_value_def)
    also have "\<dots> = 10 * (n div 10) + n mod 10"
      using "1.IH" [OF False] digit_value [of "n mod 10"] by simp
    finally show ?thesis by simp
  qed
qed

lemma dec_nat_inject: "dec_nat m = dec_nat n \<Longrightarrow> m = n"
  by (metis dec_value_dec_nat)

lemma dec_nat_digits: "d \<in> set (dec_nat n) \<Longrightarrow> 48 \<le> unat d \<and> unat d \<le> 57"
proof (induction n rule: dec_nat.induct)
  case (1 n)
  show ?case
  proof (cases "n < 10")
    case True
    with "1.prems" digit_value [of n] show ?thesis by (subst (asm) dec_nat.simps) auto
  next
    case False
    with "1.prems" have "d \<in> set (dec_nat (n div 10)) \<or> d = word_of_nat (48 + n mod 10)"
      by (subst (asm) dec_nat.simps) auto
    then show ?thesis
    proof
      assume "d \<in> set (dec_nat (n div 10))"
      then show ?thesis by (rule "1.IH" [OF False])
    qed (use digit_value [of "n mod 10"] in simp)
  qed
qed

lemma dec_int_inject: "dec_int i = dec_int j \<Longrightarrow> i = j"
proof -
  have "dec_nat n \<noteq> 45 # xs" for n xs
    using dec_nat_digits [of 45 n] by auto
  moreover assume "dec_int i = dec_int j"
  ultimately show ?thesis
    by (auto simp: dec_int_def split: if_splits dest: dec_nat_inject)
      (metis nat_eq_iff2 neg_0_le_iff_le nat_int)+
qed

lemma length_dec_nat: "n < 10 ^ Suc k \<Longrightarrow> length (dec_nat n) \<le> Suc k"
proof (induction k arbitrary: n)
  case 0
  then show ?case by (subst dec_nat.simps) simp
next
  case (Suc k)
  then have "n div 10 < 10 ^ Suc k" by (simp add: less_mult_imp_div_less mult.commute)
  from Suc.IH [OF this] show ?case by (subst dec_nat.simps) simp
qed

end
