(* ===== verification/Procfs.thy ===== *)
theory Procfs
  imports Table Buffer Format
begin

text \<open>
  \<open>module/proc.c\<close>: one procfs entry per registering process, shared by its interfaces, and the
  text a read of the entry returns.
\<close>

section \<open>Entries\<close>

text \<open>The first interface registered by the process, if there is one: its entry.\<close>

fun entry_of_pid :: "nat \<Rightarrow> nat \<Rightarrow> int \<Rightarrow> 'z registry_scheme \<Rightarrow> nat option option result" where
  "entry_of_pid i 0 pid s = Inr None"
| "entry_of_pid i (Suc n) pid s =
     bindr (slot (INTERFACE_LIST s) i) (\<lambda>p.
     bindr (read_ctrl p s) (\<lambda>c.
     if bind_pid c = pid then Inr (Some (proc_entry c)) else entry_of_pid (Suc i) n pid s))"

definition add_interface_to_proc ::
  "kenv \<Rightarrow> ptr \<Rightarrow> 'z registry_scheme \<Rightarrow> (int \<times> 'z registry_scheme) result" where
  "add_interface_to_proc e income s =
     bindr (read_ctrl income s) (\<lambda>c.
     bindr (entry_of_pid 0 (unat (INTERFACE_COUNT s)) (bind_pid c) s) (\<lambda>found.
     case found of
       Some entry \<Rightarrow> bindr (write_ctrl income (\<lambda>c. c\<lparr>proc_entry := entry\<rparr>) s) (\<lambda>s. Inr (0, s))
     | None \<Rightarrow>
         (let tmp = dec_int (bind_pid c) in
          case proc_create e (trace s) tmp of
            None \<Rightarrow> Inr (- 1, s)
          | Some new_entry \<Rightarrow>
              bindr (write_ctrl income (\<lambda>c. c\<lparr>proc_entry := Some new_entry\<rparr>)
                (emit (Proc_created tmp new_entry) s)) (\<lambda>s. Inr (0, s)))))"

text \<open>
  \<open>fint_procfs\<close> removes the entry of every interface, then the directory, whose entry is
  \<open>home\<close>; removing a null entry does nothing.
\<close>

definition remove_entry_of :: "nat \<Rightarrow> 'z registry_scheme \<Rightarrow> 'z registry_scheme result" where
  "remove_entry_of i s =
     bindr (slot (INTERFACE_LIST s) i) (\<lambda>p.
     bindr (read_ctrl p s) (\<lambda>c.
     case proc_entry c of None \<Rightarrow> Inr s | Some en \<Rightarrow> Inr (emit (Proc_removed en) s)))"

definition fint_procfs :: "nat option \<Rightarrow> 'z registry_scheme \<Rightarrow> (int \<times> 'z registry_scheme) result" where
  "fint_procfs home s =
     bindr (for_loop 0 (unat (INTERFACE_COUNT s)) remove_entry_of s) (\<lambda>s.
     Inr (0, case home of None \<Rightarrow> s | Some en \<Rightarrow> emit (Proc_removed en) s))"

section \<open>Reading an entry\<close>

text \<open>
  \<open>sprintf\<close> into the local array \<open>tmp\<close> of 1280 bytes: a text that does not fit, with its
  terminator, is written past it.
\<close>

definition sprintf_tmp :: "byte list \<Rightarrow> cptr result" where
  "sprintf_tmp x = bindr (require (length x + 1 \<le> 1280) Out_of_bounds) (\<lambda>_. Inr (PBlk (cstring x)))"

definition copy_text :: "(nat \<Rightarrow> bool) \<Rightarrow> dbuf \<Rightarrow> cptr \<Rightarrow> dbuf result" where
  "copy_text ok b tmp = bindr (strlen tmp) (\<lambda>n. copy_to_buffer ok b tmp (word_of_nat n))"

text \<open>The formats: tabs and line feeds are written out, because a literal cannot contain them.\<close>

definition attr_text :: "string \<Rightarrow> nat \<Rightarrow> byte \<Rightarrow> byte list \<Rightarrow> byte list \<Rightarrow> byte list" where
  "attr_text what i flag name description =
     ascii [CHR 0x09, CHR 0x09] @ ascii what @ dec_nat i @ ascii '':'' @
     ascii [CHR 0x0A, CHR 0x09, CHR 0x09, CHR 0x09] @ ascii ''flag: '' @ dec_nat (unat flag) @
     ascii [CHR 0x0A, CHR 0x09, CHR 0x09, CHR 0x09] @ ascii ''name: '' @ name @
     ascii [CHR '' '', CHR 0x0A, CHR 0x09, CHR 0x09, CHR 0x09] @ ascii ''description: '' @
     description @ ascii [CHR 0x0A]"

definition header_text :: "u32 \<Rightarrow> byte list \<Rightarrow> byte list \<Rightarrow> byte list" where
  "header_text idv name description = ascii ''interface:'' @
     ascii [CHR 0x0A, CHR 0x09] @ ascii ''id: '' @ dec_int (sint idv) @
     ascii [CHR 0x0A, CHR 0x09] @ ascii ''name: '' @ name @
     ascii [CHR 0x0A, CHR 0x09] @ ascii ''description: '' @ description @ ascii [CHR 0x0A]"

definition section_text :: "string \<Rightarrow> byte list" where
  "section_text what = ascii [CHR 0x09] @ ascii what @ ascii [CHR 0x0A]"

definition format_attr ::
  "(nat \<Rightarrow> bool) \<Rightarrow> string \<Rightarrow> attr_info list option \<Rightarrow> cptr \<Rightarrow> nat \<Rightarrow> dbuf \<Rightarrow> dbuf result" where
  "format_attr ok what infos flags i b =
     bindr (arr_get infos i) (\<lambda>a.
     bindr (mem_block flags) (\<lambda>f.
     bindr (arr_get (Some f) i) (\<lambda>flag.
     bindr (fmt_s (attr_name a)) (\<lambda>name.
     bindr (fmt_s (attr_description a)) (\<lambda>description.
     bindr (sprintf_tmp (attr_text what i flag name description)) (\<lambda>tmp.
     copy_text ok b tmp))))))"

definition format_interface ::
  "(nat \<Rightarrow> bool) \<Rightarrow> dbuf \<Rightarrow> interface_t \<Rightarrow> (int \<times> dbuf) result" where
  "format_interface ok dest interface =
     (case info interface of None \<Rightarrow> Inl Null_deref | Some inform \<Rightarrow>
     bindr (fmt_s (info_name inform)) (\<lambda>name.
     bindr (fmt_s (info_description inform)) (\<lambda>description.
     bindr (sprintf_tmp (header_text (if_id interface) name description)) (\<lambda>tmp.
     bindr (copy_text ok dest tmp) (\<lambda>dest.
     bindr (copy_text ok dest (PBlk (cstring (section_text ''arguments:'')))) (\<lambda>dest.
     bindr (for_loop 0 (unat (argc interface))
        (format_attr ok ''arg'' (arg_info inform) (arg_flags interface)) dest) (\<lambda>dest.
     bindr (copy_text ok dest (PBlk (cstring (section_text ''return_values:'')))) (\<lambda>dest.
     bindr (for_loop 0 (unat (retc interface))
        (format_attr ok ''ret'' (ret_info inform) (ret_flags interface)) dest) (\<lambda>dest.
     Inr (0, dest))))))))))"

definition format_registered ::
  "kenv \<Rightarrow> nat \<Rightarrow> 'z registry_scheme \<Rightarrow> nat \<Rightarrow> dbuf \<Rightarrow> dbuf result" where
  "format_registered e entry s i dest =
     bindr (slot (INTERFACE_LIST s) i) (\<lambda>p.
     bindr (read_ctrl p s) (\<lambda>c.
     if proc_entry c = Some entry then
       bindr (deref p s) (\<lambda>x. bindr (format_interface (kmem e) dest x) (\<lambda>(_, dest). Inr dest))
     else Inr dest))"

text \<open>
  \<open>proc_read\<close> of the file with procfs entry \<open>entry\<close>, at offset \<open>ppos\<close>, into a user buffer of
  \<open>count\<close> bytes: the value returned, the new offset and what reached the user.
\<close>

definition proc_read ::
  "kenv \<Rightarrow> nat \<Rightarrow> cptr \<Rightarrow> nat \<Rightarrow> int \<Rightarrow> 'z registry_scheme \<Rightarrow> (int \<times> int \<times> byte list) result" where
  "proc_read e entry u_buf count ppos s =
     (if 0 < ppos then Inr (0, ppos, []) else
     bindr (for_loop 0 (unat (INTERFACE_COUNT s)) (format_registered e entry s) (new_buffer (kmem e)))
       (\<lambda>dest.
     if count < unat (blen dest) then Inr (- 1, ppos, []) else
     if copy_to_user e u_buf (bdata dest) \<noteq> 0 then Inr (- 14, ppos, []) else
     Inr (int (unat (blen dest)), int (unat (blen dest)), bdata dest)))"

end
