(* ===== verification/Codec.thy ===== *)
theory Codec
  imports Prelude
begin

text \<open>
  The contract between whoever writes an item into a packet and whoever reads it back: the
  locale \<open>codec\<close> for an encoder and a decoder that agree on the well-formed items whatever
  bytes follow, and \<open>canonical_codec\<close> for a decoder that accepts nothing but encodings. The
  packet formats are item codecs repeated by a count, so what holds of the repeated loop
  \<open>rd_list\<close> is proved here once.
\<close>

locale codec =
  fixes enc :: "'a \<Rightarrow> byte list"
    and dec :: "byte list \<Rightarrow> ('a \<times> byte list) result"
    and wf :: "'a \<Rightarrow> bool"
  assumes dec_enc: "wf x \<Longrightarrow> dec (enc x @ r) = Inr (x, r)"
begin

definition enc_list :: "'a list \<Rightarrow> byte list" where
  "enc_list xs = concat (map enc xs)"

lemma enc_list_simps [simp]:
  "enc_list [] = []" "enc_list (x # xs) = enc x @ enc_list xs"
  "enc_list (xs @ ys) = enc_list xs @ enc_list ys"
  by (simp_all add: enc_list_def)

lemma rd_list_enc:
  "list_all wf xs \<Longrightarrow> rd_list (length xs) dec (enc_list xs @ r) = Inr (xs, r)"
  by (induction xs) (auto simp: enc_list_def dec_enc)

lemma rd_list_enc_n:
  "list_all wf xs \<Longrightarrow> n = length xs \<Longrightarrow> p = enc_list xs @ r \<Longrightarrow> rd_list n dec p = Inr (xs, r)"
  by (simp add: rd_list_enc)

lemma enc_unique: "wf x \<Longrightarrow> wf y \<Longrightarrow> enc x @ r = enc y @ r' \<Longrightarrow> x = y \<and> r = r'"
  by (metis Inr_inject dec_enc prod.inject)

lemma enc_list_unique:
  "list_all wf xs \<Longrightarrow> list_all wf ys \<Longrightarrow> length xs = length ys \<Longrightarrow>
   enc_list xs @ r = enc_list ys @ r' \<Longrightarrow> xs = ys \<and> r = r'"
  by (metis Inr_inject rd_list_enc prod.inject)

lemma enc_list_shorter:
  assumes "list_all wf xs" "list_all wf ys" "length xs < length ys" "enc_list xs = enc_list ys @ r"
  shows "\<exists>y \<in> set ys. enc y = []"
proof -
  let ?n = "length xs"
  have "enc_list xs @ [] = enc_list (take ?n ys) @ (enc_list (drop ?n ys) @ r)"
    by (metis append.assoc append_Nil2 append_take_drop_id assms(4) enc_list_simps(3))
  moreover have "list_all wf (take ?n ys)"
    using assms(2) by (auto simp: list_all_iff dest: in_set_takeD)
  ultimately have "xs = take ?n ys \<and> [] = enc_list (drop ?n ys) @ r"
    using enc_list_unique [OF assms(1), of "take ?n ys"] assms(3) by simp
  moreover obtain y zs where y: "drop ?n ys = y # zs"
    using assms(3) by (metis drop_eq_Nil linorder_not_less neq_Nil_conv)
  ultimately have "enc y = []" by simp
  moreover have "y \<in> set ys" using y by (metis in_set_dropD list.set_intros(1))
  ultimately show ?thesis by blast
qed

end

locale canonical_codec = codec +
  assumes enc_dec: "dec p = Inr (x, r) \<Longrightarrow> p = enc x @ r \<and> wf x"
begin

lemma rd_list_canonical:
  "rd_list n dec p = Inr (xs, r) \<Longrightarrow> p = enc_list xs @ r \<and> list_all wf xs \<and> length xs = n"
proof (induction n arbitrary: p xs)
  case 0
  then show ?case by (simp add: enc_list_def)
next
  case (Suc n)
  then obtain x q ys where *: "dec p = Inr (x, q)" "rd_list n dec q = Inr (ys, r)" "xs = x # ys"
    by (auto simp: bindr_eq_Inr)
  from Suc.IH [OF *(2)] enc_dec [OF *(1)] *(3) show ?case by (simp add: enc_list_def)
qed

lemma dec_iff: "dec p = Inr (x, r) \<longleftrightarrow> p = enc x @ r \<and> wf x"
  using enc_dec dec_enc by blast

lemma rd_list_iff:
  "rd_list n dec p = Inr (xs, r) \<longleftrightarrow> p = enc_list xs @ r \<and> list_all wf xs \<and> length xs = n"
  using rd_list_canonical rd_list_enc by blast

lemma dec_shortens: "dec p = Inr (x, r) \<Longrightarrow> length r = length p - length (enc x)"
  by (drule enc_dec) simp

end

interpretation u32_codec: canonical_codec u32_bytes rd_u32 "\<lambda>_. True"
  by unfold_locales (simp_all add: rd_u32_eq_Inr)

end
