(* ===== verification/Packet_Interfaces.thy ===== *)
theory Packet_Interfaces
  imports Buffer Codec Interface_Types
begin

text \<open>
  The advertisement packets of \<open>module/packet.c\<close>: \<open>count||(id||argc||arg_flags||retc||ret_flags)...\<close>.
  The writer walks a list of descriptor pointers in its heap; the reader allocates a descriptor
  per entry in its own.
\<close>

abbreviation (input) MAX_INTERFACES :: u32 where "MAX_INTERFACES \<equiv> 256"
abbreviation (input) EINVALIDPACKETLENGTH :: int where "EINVALIDPACKETLENGTH \<equiv> 20001"
abbreviation (input) EINVALIDINTERFACECOUNT :: int where "EINVALIDINTERFACECOUNT \<equiv> 20002"

section \<open>The functions\<close>

definition serialize_entry ::
  "(nat \<Rightarrow> bool) \<Rightarrow> iarray option \<Rightarrow> 'z mem_scheme \<Rightarrow> nat \<Rightarrow> dbuf \<Rightarrow> dbuf result" where
  "serialize_entry ok interface_list s i b =
     bindr (slot interface_list i) (\<lambda>p.
     if p = 0 then Inr b else
     bindr (deref p s) (\<lambda>interface.
     bindr (copy_to_buffer ok b (PBlk (u32_bytes (if_id interface))) 4) (\<lambda>b.
     if arg_flags interface = PNull then Inr b else
     bindr (copy_to_buffer ok b (PBlk (u32_bytes (argc interface))) 4) (\<lambda>b.
     bindr (copy_to_buffer ok b (arg_flags interface) (argc interface)) (\<lambda>b.
     if ret_flags interface = PNull then Inr b else
     bindr (copy_to_buffer ok b (PBlk (u32_bytes (retc interface))) 4) (\<lambda>b.
     copy_to_buffer ok b (ret_flags interface) (retc interface)))))))"

definition serialize_interfaces_packet ::
  "(nat \<Rightarrow> bool) \<Rightarrow> iarray option \<Rightarrow> u32 \<Rightarrow> 'z mem_scheme \<Rightarrow> (cptr \<times> u32) result" where
  "serialize_interfaces_packet ok interface_list count s =
     bindr (copy_to_buffer ok (new_buffer ok) (PBlk (u32_bytes count)) 4) (\<lambda>b.
     bindr (for_loop 0 (unat count) (serialize_entry ok interface_list s) b) (\<lambda>b.
     Inr (if kgrant ok (unat (blen b)) then PBlk (bdata b) else PNull, blen b)))"

definition rd_flags :: "(nat \<Rightarrow> bool) \<Rightarrow> byte list \<Rightarrow> (u32 \<times> byte list \<times> byte list) result" where
  "rd_flags ok packet =
     bindr (rd_u32 packet) (\<lambda>(count, packet).
     bindr (require (kgrant ok (unat count)) Null_deref) (\<lambda>_.
     bindr (rd_mem (unat count) packet) (\<lambda>(flags, packet).
     Inr (count, flags, packet))))"

definition rd_interface :: "(nat \<Rightarrow> bool) \<Rightarrow> byte list \<Rightarrow> (interface_t \<times> byte list) result" where
  "rd_interface ok packet =
     bindr (require (kgrant ok SIZEOF_INTERFACE) Null_deref) (\<lambda>_.
     bindr (rd_u32 packet) (\<lambda>(idv, packet).
     bindr (rd_flags ok packet) (\<lambda>(argcv, args, packet).
     bindr (rd_flags ok packet) (\<lambda>(retcv, rets, packet).
     Inr (interface_0\<lparr>if_id := idv, argc := argcv, arg_flags := PBlk args,
       retc := retcv, ret_flags := PBlk rets\<rparr>, packet)))))"

definition rd_entry ::
  "(nat \<Rightarrow> bool) \<Rightarrow> byte list \<times> 'z mem_scheme \<Rightarrow> (ptr option \<times> byte list \<times> 'z mem_scheme) result"
where
  "rd_entry ok = (\<lambda>(packet, s).
     bindr (rd_interface ok packet) (\<lambda>(interface, packet).
     let (p, s) = new_interface interface s in Inr (Some p, packet, s)))"

text \<open>
  The descriptor that has been parsed is stored in the list: it is at the first store, and not
  before, that a refused allocation of the list is dereferenced.
\<close>

definition rd_stored_entry ::
  "(nat \<Rightarrow> bool) \<Rightarrow> u32 \<Rightarrow> byte list \<times> 'z mem_scheme \<Rightarrow>
   (ptr option \<times> byte list \<times> 'z mem_scheme) result" where
  "rd_stored_entry ok count ps =
     bindr (rd_entry ok ps) (\<lambda>x.
     bindr (require (kgrant ok (unat count * SIZEOF_PTR)) Null_deref) (\<lambda>_. Inr x))"

definition unserialize_interfaces_packet ::
  "(nat \<Rightarrow> bool) \<Rightarrow> byte list \<Rightarrow> u32 \<Rightarrow> 'z mem_scheme \<Rightarrow>
   ((int + iarray \<times> u32) \<times> 'z mem_scheme) result" where
  "unserialize_interfaces_packet ok packet packet_length s =
     (if packet_length < 4 then Inr (Inl (- EINVALIDPACKETLENGTH), s) else
      bindr (rd_u32 packet) (\<lambda>(count, packet).
      if MAX_INTERFACES < count then Inr (Inl (- EINVALIDINTERFACECOUNT), s) else
      bindr (rd_list (unat count) (rd_stored_entry ok count) (packet, s)) (\<lambda>(interface_list, _, s).
      Inr (Inr (interface_list, count), s))))"

lemma rd_stored_entries:
  "rd_list (unat count) (rd_stored_entry ok count) ps =
     (if kgrant ok (unat count * SIZEOF_PTR) then rd_list (unat count) (rd_entry ok) ps
      else bindr (rd_entry ok ps) (\<lambda>_. Inl Null_deref))"
proof (cases "kgrant ok (unat count * SIZEOF_PTR)")
  case True
  then have "rd_stored_entry ok count qs = rd_entry ok qs" for qs :: "byte list \<times> 'a mem_scheme"
    by (cases "rd_entry ok qs") (simp_all add: rd_stored_entry_def)
  then have "rd_stored_entry ok count = (rd_entry ok :: byte list \<times> 'a mem_scheme \<Rightarrow> _)" by blast
  then show ?thesis using True by simp
next
  case False
  then obtain m where m: "unat count = Suc m" by (cases "unat count") (simp_all add: kgrant_def)
  show ?thesis using False m
    by (cases "rd_entry ok ps") (simp_all add: rd_stored_entry_def split: prod.splits)
qed

text \<open>The reader with the allocation of the list decided beforehand.\<close>

lemma unserialize_interfaces_alt:
  "unserialize_interfaces_packet ok packet packet_length s =
     (if packet_length < 4 then Inr (Inl (- EINVALIDPACKETLENGTH), s) else
      bindr (rd_u32 packet) (\<lambda>(count, packet).
      if MAX_INTERFACES < count then Inr (Inl (- EINVALIDINTERFACECOUNT), s) else
      if kgrant ok (unat count * SIZEOF_PTR)
      then bindr (rd_list (unat count) (rd_entry ok) (packet, s)) (\<lambda>(interface_list, _, s).
        Inr (Inr (interface_list, count), s))
      else bindr (rd_entry ok (packet, s)) (\<lambda>_. Inl Null_deref)))"
proof -
  have "bindr (bindr m (\<lambda>_. Inl f)) g = bindr m (\<lambda>_. Inl f)" for m :: "'x result" and f
    and g :: "'y \<Rightarrow> 'z result" by (cases m) simp_all
  then show ?thesis
    by (auto simp: unserialize_interfaces_packet_def rd_stored_entries fun_eq_iff
        intro!: arg_cong2 [of _ _ _ _ bindr])
qed

section \<open>The descriptor codec\<close>

definition flag_bytes :: "cptr \<Rightarrow> u32 \<Rightarrow> byte list" where
  "flag_bytes p n = (case mem_read p (unat n) of Inl _ \<Rightarrow> [] | Inr x \<Rightarrow> x)"

definition enc_interface :: "interface_t \<Rightarrow> byte list" where
  "enc_interface x = u32_bytes (if_id x) @ u32_bytes (argc x) @ flag_bytes (arg_flags x) (argc x)
     @ u32_bytes (retc x) @ flag_bytes (ret_flags x) (retc x)"

text \<open>
  What a peer learns of a descriptor: its identifier, its counts and its flags. Names, values
  and the control block stay null.
\<close>

definition advert :: "interface_t \<Rightarrow> interface_t" where
  "advert x = interface_0\<lparr>if_id := if_id x, argc := argc x,
     arg_flags := PBlk (flag_bytes (arg_flags x) (argc x)), retc := retc x,
     ret_flags := PBlk (flag_bytes (ret_flags x) (retc x))\<rparr>"

definition flags_readable :: "cptr \<Rightarrow> u32 \<Rightarrow> bool" where
  "flags_readable p n \<longleftrightarrow> p \<noteq> PNull \<and> mem_read p (unat n) = Inr (flag_bytes p n)"

definition interface_readable :: "interface_t \<Rightarrow> bool" where
  "interface_readable x \<longleftrightarrow> flags_readable (arg_flags x) (argc x) \<and> flags_readable (ret_flags x) (retc x)"

definition advert_owned :: "(nat \<Rightarrow> bool) \<Rightarrow> interface_t \<Rightarrow> bool" where
  "advert_owned ok x \<longleftrightarrow> kgrant ok SIZEOF_INTERFACE \<and> x = advert x \<and>
     length (flag_bytes (arg_flags x) (argc x)) = unat (argc x) \<and> kgrant ok (unat (argc x)) \<and>
     length (flag_bytes (ret_flags x) (retc x)) = unat (retc x) \<and> kgrant ok (unat (retc x))"

lemma flag_bytes_PBlk [simp]: "unat n \<le> length x \<Longrightarrow> flag_bytes (PBlk x) n = take (unat n) x"
  by (simp add: flag_bytes_def)

lemma length_flag_bytes: "flags_readable p n \<Longrightarrow> length (flag_bytes p n) = unat n"
  by (auto simp: flags_readable_def dest: mem_read_length)

lemma advert_simps [simp]:
  "if_id (advert x) = if_id x" "argc (advert x) = argc x" "retc (advert x) = retc x"
  by (simp_all add: advert_def)

lemma flag_bytes_advert [simp]:
  "interface_readable x \<Longrightarrow> flag_bytes (arg_flags (advert x)) (argc x) = flag_bytes (arg_flags x) (argc x)"
  "interface_readable x \<Longrightarrow> flag_bytes (ret_flags (advert x)) (retc x) = flag_bytes (ret_flags x) (retc x)"
  by (simp_all add: interface_readable_def advert_def length_flag_bytes)

lemma enc_interface_advert [simp]: "interface_readable x \<Longrightarrow> enc_interface (advert x) = enc_interface x"
  by (simp add: enc_interface_def)

lemma advert_advert: "interface_readable x \<Longrightarrow> advert (advert x) = advert x"
  by (simp add: advert_def [of "advert x"]) (simp add: advert_def)

lemma advert_owned_advert:
  "interface_readable x \<Longrightarrow> kgrant ok SIZEOF_INTERFACE \<Longrightarrow> kgrant ok (unat (argc x)) \<Longrightarrow>
   kgrant ok (unat (retc x)) \<Longrightarrow> advert_owned ok (advert x)"
  by (simp add: advert_owned_def advert_advert)
    (simp add: interface_readable_def length_flag_bytes)

lemma rd_flags_eq_Inr:
  "rd_flags ok p = Inr (n, x, r) \<longleftrightarrow>
     p = u32_bytes n @ x @ r \<and> length x = unat n \<and> kgrant ok (unat n)"
  by (auto simp: rd_flags_def bindr_eq_Inr rd_u32_eq_Inr require_eq_Inr rd_mem_eq_Inr)

interpretation interface_codec: canonical_codec enc_interface "rd_interface ok" "advert_owned ok" for ok
proof unfold_locales
  fix x r assume x: "advert_owned ok x"
  let ?a = "flag_bytes (arg_flags x) (argc x)" and ?r = "flag_bytes (ret_flags x) (retc x)"
  have "rd_flags ok (u32_bytes (argc x) @ ?a @ u32_bytes (retc x) @ ?r @ r)
      = Inr (argc x, ?a, u32_bytes (retc x) @ ?r @ r)"
    "rd_flags ok (u32_bytes (retc x) @ ?r @ r) = Inr (retc x, ?r, r)"
    using x by (simp_all add: rd_flags_eq_Inr advert_owned_def)
  then have "rd_interface ok (enc_interface x @ r) = Inr (advert x, r)"
    using x by (simp add: rd_interface_def enc_interface_def advert_owned_def advert_def)
  with x show "rd_interface ok (enc_interface x @ r) = Inr (x, r)"
    by (simp add: advert_owned_def)
next
  fix p x r assume "rd_interface ok p = Inr (x, r)"
  then obtain idv m args q n rets where g: "kgrant ok SIZEOF_INTERFACE" "p = u32_bytes idv @ q"
    and *: "\<exists>q'. rd_flags ok q = Inr (m, args, q') \<and> rd_flags ok q' = Inr (n, rets, r)"
    and x: "x = interface_0\<lparr>if_id := idv, argc := m, arg_flags := PBlk args,
       retc := n, ret_flags := PBlk rets\<rparr>"
    by (auto simp: rd_interface_def bindr_eq_Inr require_eq_Inr rd_u32_eq_Inr)
  with * show "p = enc_interface x @ r \<and> advert_owned ok x"
    by (auto simp: rd_flags_eq_Inr enc_interface_def advert_owned_def advert_def)
qed

section \<open>Descriptors in the heap\<close>

text \<open>
  Reading a packet allocates its descriptors one after the other;
  \<open>new_interfaces\<close> is what it does to the memory.
\<close>

fun new_interfaces :: "interface_t list \<Rightarrow> 'z mem_scheme \<Rightarrow> iarray \<times> 'z mem_scheme" where
  "new_interfaces [] s = ([], s)"
| "new_interfaces (x # xs) s =
     (let (p, s) = new_interface x s; (ps, s) = new_interfaces xs s in (Some p # ps, s))"

lemma rd_entries:
  "rd_list n (rd_entry ok) (p, s) = bindr (rd_list n (rd_interface ok) p) (\<lambda>(xs, r).
     let (a, s') = new_interfaces xs s in Inr (a, r, s'))"
proof (induction n arbitrary: p s)
  case (Suc n)
  show ?case
  proof (cases "rd_interface ok p")
    case (Inr y)
    obtain x q where y: "y = (x, q)" by (cases y)
    obtain t s' where t: "new_interface x s = (t, s')" by (cases "new_interface x s")
    show ?thesis
      using Inr t Suc.IH [of q s']
      by (cases "rd_list n (rd_interface ok) q") (auto simp: y rd_entry_def split: prod.splits)
  qed (simp add: rd_entry_def)
qed simp

lemma new_interfaces_frame:
  "new_interfaces xs s = (a, s') \<Longrightarrow> mem_wf s \<Longrightarrow>
   mem_wf s' \<and> trace s' = trace s \<and> next_ptr s \<le> next_ptr s' \<and>
   mem.more s' = mem.more s \<and> (\<forall>p < next_ptr s. heap s' p = heap s p)"
proof (induction xs arbitrary: s a s')
  case (Cons x xs)
  obtain p s1 where 1: "new_interface x s = (p, s1)" by (cases "new_interface x s")
  obtain b s2 where 2: "new_interfaces xs s1 = (b, s2)" by (cases "new_interfaces xs s1")
  have "mem_wf s1" using mem_wf_new [OF Cons.prems(2), of x] 1 by simp
  from Cons.IH [OF 2 this] Cons.prems 1 2 show ?case
    by (auto simp: new_interface_def split: prod.splits)
qed simp

lemma new_interfaces_describes:
  "new_interfaces xs s = (a, s') \<Longrightarrow> mem_wf s \<Longrightarrow> describes a s' xs"
proof (induction xs arbitrary: s a s')
  case (Cons x xs)
  obtain p s1 where 1: "new_interface x s = (p, s1)" by (cases "new_interface x s")
  obtain b s2 where 2: "new_interfaces xs s1 = (b, s2)" by (cases "new_interfaces xs s1")
  have s1: "mem_wf s1" using mem_wf_new [OF Cons.prems(2), of x] 1 by simp
  from 1 have "p = next_ptr s" "next_ptr s1 = Suc p" "heap s1 p = Some x"
    by (auto simp: new_interface_def)
  with new_interfaces_frame [OF 2 s1] Cons.prems(2) have "p \<noteq> 0" "heap s2 p = Some x"
    by (auto simp: mem_wf_def)
  with Cons.IH [OF 2 s1] Cons.prems 1 2 show ?case by (auto simp: describes_def)
qed (simp add: describes_def)

section \<open>Advertisements\<close>

definition interface_sendable :: "interface_t \<Rightarrow> bool" where
  "interface_sendable x \<longleftrightarrow> interface_readable x \<and>
     unat (argc x) \<le> unat BUFFER_INC_SIZE \<and> unat (retc x) \<le> unat BUFFER_INC_SIZE"

definition advert_bytes :: "interface_t list \<Rightarrow> byte list" where
  "advert_bytes xs = u32_bytes (word_of_nat (length xs)) @ interface_codec.enc_list xs"

definition adverts_fit :: "(nat \<Rightarrow> bool) \<Rightarrow> interface_t list \<Rightarrow> bool" where
  "adverts_fit ok xs \<longleftrightarrow> list_all interface_sendable xs \<and> length xs < 2 ^ 32 \<and>
     (\<exists>L. roomy ok L \<and> length (advert_bytes xs) \<le> L)"

lemma serialize_entry_holds:
  assumes "holds ys b" "interface_sendable x" "length ys + length (enc_interface x) \<le> L" "roomy ok L"
    and "slot list j = Inr p" "p \<noteq> 0" "deref p s = Inr x"
  shows "post (serialize_entry ok list s j b) (holds (ys @ enc_interface x))"
proof -
  have f: "flags_readable (arg_flags x) (argc x)" "flags_readable (ret_flags x) (retc x)"
    "unat (argc x) \<le> unat BUFFER_INC_SIZE" "unat (retc x) \<le> unat BUFFER_INC_SIZE"
    using assms(2) by (simp_all add: interface_sendable_def interface_readable_def)
  have rd: "mem_read (arg_flags x) (unat (argc x)) = Inr (flag_bytes (arg_flags x) (argc x))"
    "mem_read (ret_flags x) (unat (retc x)) = Inr (flag_bytes (ret_flags x) (retc x))"
    and nn: "arg_flags x \<noteq> PNull" "ret_flags x \<noteq> PNull"
    using f by (simp_all add: flags_readable_def)
  note sz = assms(3) [unfolded enc_interface_def, simplified] length_flag_bytes [OF f(1)]
    length_flag_bytes [OF f(2)]
  have "post (bindr (copy_to_buffer ok b (PBlk (u32_bytes (if_id x))) 4) (\<lambda>b.
     bindr (copy_to_buffer ok b (PBlk (u32_bytes (argc x))) 4) (\<lambda>b.
     bindr (copy_to_buffer ok b (arg_flags x) (argc x)) (\<lambda>b.
     bindr (copy_to_buffer ok b (PBlk (u32_bytes (retc x))) 4) (\<lambda>b.
     copy_to_buffer ok b (ret_flags x) (retc x))))))
     (holds (ys @ enc_interface x))"
    apply (rule copy_u32 [OF assms(1) _ assms(4)], use sz in simp)
    apply (rule copy_u32 [OF _ _ assms(4)], assumption, use sz in simp)
    apply (rule post_bindr, rule copy_to_buffer_holds [OF _ rd(1) f(3) _ assms(4)], assumption,
        use sz in simp)
    apply (rule copy_u32 [OF _ _ assms(4)], assumption, use sz in simp)
    apply (rule post_mono, rule copy_to_buffer_holds [OF _ rd(2) f(4) _ assms(4)], assumption,
        use sz in simp)
    apply (simp add: enc_interface_def)
    done
  then show ?thesis using assms(5-7) nn by (simp add: serialize_entry_def)
qed

lemma serialize_interfaces_ok:
  assumes "describes a s xs" and "adverts_fit ok xs"
  shows "serialize_interfaces_packet ok (Some (a @ b)) (word_of_nat (length xs)) s
    = Inr (PBlk (advert_bytes xs), word_of_nat (length (advert_bytes xs)))"
proof -
  obtain L where L: "roomy ok L" "length (advert_bytes xs) \<le> L"
    using assms(2) by (auto simp: adverts_fit_def)
  let ?n = "word_of_nat (length xs) :: u32"
  have n: "unat ?n = length xs" using assms(2) by (simp add: adverts_fit_def unat_of_nat_u32)
  have u: "unat (word_of_nat (length (advert_bytes xs)) :: u32) = length (advert_bytes xs)"
    using L by (simp add: roomy_def unat_of_nat_u32)
  have grant: "kgrant ok (length (advert_bytes xs))"
    by (rule roomy_grants [OF L(1)]) (use L(2) in simp)
  have loop: "post (for_loop 0 (unat ?n) (serialize_entry ok (Some (a @ b)) s) d)
      (holds (advert_bytes xs))" if d: "holds ([] @ u32_bytes ?n) d" for d
  proof -
    have "post (for_loop 0 (length xs) (serialize_entry ok (Some (a @ b)) s) d)
        (holds (([] @ u32_bytes ?n) @ concat (map enc_interface xs)))"
    proof (rule append_loop [OF d])
      fix j d assume j: "j < length xs"
        and d: "holds (([] @ u32_bytes ?n) @ concat (map enc_interface (take j xs))) d"
        and le: "length (concat (map enc_interface (take j xs))) + length (enc_interface (xs ! j))
          \<le> length (concat (map enc_interface xs))"
      from describes_nth [OF assms(1) j] obtain p where
        p: "slot (Some (a @ b)) j = Inr p" "p \<noteq> 0" "deref p s = Inr (xs ! j)" by blast
      have "interface_sendable (xs ! j)"
        using assms(2) j by (simp add: adverts_fit_def list_all_length)
      from serialize_entry_holds [OF d this _ L(1) p] L(2) le
      show "post (serialize_entry ok (Some (a @ b)) s j d) (holds ((([] @ u32_bytes ?n) @
          concat (map enc_interface (take j xs))) @ enc_interface (xs ! j)))"
        by (simp add: advert_bytes_def interface_codec.enc_list_def)
    qed
    then show ?thesis by (simp add: n advert_bytes_def interface_codec.enc_list_def)
  qed
  have b0: "holds [] (new_buffer ok)" by (rule holds_new_buffer [OF L(1)])
  show ?thesis unfolding serialize_interfaces_packet_def
    apply (rule post_eqD, rule copy_u32 [OF b0 _ L(1)], use L(2) in \<open>simp add: advert_bytes_def\<close>)
    apply (rule post_bindr [OF loop], assumption)
    apply (simp add: holds_data holds_len u grant)
    done
qed

lemma unserialize_interfaces_ok:
  assumes "list_all (advert_owned ok) xs" and "length xs \<le> unat MAX_INTERFACES"
    and "kgrant ok (length xs * SIZEOF_PTR)" and "4 \<le> n" and "mem_wf s"
  shows "\<exists>a s'. unserialize_interfaces_packet ok (advert_bytes xs @ rest) n s
      = Inr (Inr (a, word_of_nat (length xs)), s') \<and>
    new_interfaces xs s = (a, s') \<and> describes a s' xs"
proof -
  obtain a s' where a: "new_interfaces xs s = (a, s')" by (cases "new_interfaces xs s")
  have n: "unat (word_of_nat (length xs) :: u32) = length xs"
    using assms(2) by (simp add: unat_of_nat_u32)
  have "rd_list (length xs) (rd_entry ok) (interface_codec.enc_list xs @ rest, s) = Inr (a, rest, s')"
    using a assms(1) by (simp add: rd_entries interface_codec.rd_list_enc)
  moreover have "\<not> 256 < (word_of_nat (length xs) :: u32)" "\<not> n < 4"
    using assms(2,4) n by (simp_all add: word_less_nat_alt word_le_nat_alt)
  ultimately show ?thesis
    using a assms(3) new_interfaces_describes [OF a assms(5)]
    by (simp add: unserialize_interfaces_alt advert_bytes_def n)
qed

definition adverts_granted :: "(nat \<Rightarrow> bool) \<Rightarrow> interface_t list \<Rightarrow> bool" where
  "adverts_granted ok xs \<longleftrightarrow> kgrant ok SIZEOF_INTERFACE \<and> kgrant ok (length xs * SIZEOF_PTR) \<and>
     list_all (\<lambda>x. kgrant ok (unat (argc x)) \<and> kgrant ok (unat (retc x))) xs"

lemma adverts_owned:
  "adverts_granted ok xs \<Longrightarrow> list_all interface_readable xs \<Longrightarrow>
   list_all (advert_owned ok) (map advert xs)"
  by (auto simp: adverts_granted_def list_all_iff advert_owned_advert)

lemma advert_bytes_adverts:
  "list_all interface_readable xs \<Longrightarrow> advert_bytes (map advert xs) = advert_bytes xs"
proof -
  assume *: "list_all interface_readable xs"
  then have "interface_codec.enc_list (map advert xs) = interface_codec.enc_list xs"
    by (induction xs) simp_all
  then show ?thesis by (simp add: advert_bytes_def)
qed

text \<open>
  Exactness: if a packet that begins with the advertisement of a list is accepted, what is
  allocated are the descriptors of this list, whatever the allocator grants.
\<close>

lemma unserialize_advert_inv:
  assumes u: "unserialize_interfaces_packet ok (advert_bytes xs @ rest) n s = Inr (Inr (a, c), t)"
    and xs: "list_all interface_readable xs" "length xs < 2 ^ 32" and wf: "mem_wf s"
  shows "describes a t (map advert xs)"
proof -
  let ?all = "\<lambda>_ :: nat. True"
  have c: "c = word_of_nat (length xs)"
    using u by (auto simp: unserialize_interfaces_alt advert_bytes_def bindr_eq_Inr split: if_splits)
  then have n: "unat c = length xs" using xs(2) by (simp add: unat_of_nat_u32)
  obtain q where "rd_list (length xs) (rd_entry ok) (interface_codec.enc_list xs @ rest, s) = Inr (a, q, t)"
    using u c n by (auto simp: unserialize_interfaces_alt advert_bytes_def bindr_eq_Inr split: if_splits)
  then obtain ys where ys: "rd_list (length xs) (rd_interface ok) (interface_codec.enc_list xs @ rest) = Inr (ys, q)"
      "new_interfaces ys s = (a, t)"
    by (cases "rd_list (length xs) (rd_interface ok) (interface_codec.enc_list xs @ rest)")
      (auto simp: rd_entries split: prod.splits)
  have e: "interface_codec.enc_list xs @ rest = interface_codec.enc_list ys @ q" "list_all (advert_owned ok) ys"
      "length ys = length xs"
    using ys(1) by (simp_all add: interface_codec.rd_list_iff)
  have "interface_codec.enc_list (map advert xs) = interface_codec.enc_list xs"
    using xs(1) by (induction xs) simp_all
  moreover have "list_all (advert_owned ?all) ys"
    using e(2) by (auto simp: list_all_iff advert_owned_def kgrant_def)
  moreover have "list_all (advert_owned ?all) (map advert xs)"
    using xs(1) by (auto simp: list_all_iff kgrant_def intro: advert_owned_advert)
  ultimately have "ys = map advert xs"
    using interface_codec.enc_list_unique [of ?all "map advert xs" ys rest q] e(1,3) by simp
  then show ?thesis using new_interfaces_describes [OF ys(2) wf] by simp
qed

text \<open>C6: What a node advertises is what its peers learn: the packet written from a list of
  descriptors in the sender's memory, read back in the receiver's, allocates one descriptor per
  entry, in order, with the identifier, the counts and the flags of the sender's, and leaves
  every descriptor the receiver had as it was.\<close>

theorem advert_roundtrip:
  assumes "describes a s xs" and "adverts_fit ok xs" and "length xs \<le> unat MAX_INTERFACES"
    and "adverts_granted ok xs" and "mem_wf t" and "4 \<le> n"
  shows "\<exists>packet b t'. serialize_interfaces_packet ok (Some a) (word_of_nat (length xs)) s
        = Inr (PBlk packet, word_of_nat (length packet)) \<and>
      unserialize_interfaces_packet ok (packet @ rest) n t
        = Inr (Inr (b, word_of_nat (length xs)), t') \<and>
      describes b t' (map advert xs) \<and> (\<forall>p \<in> dom (heap t). heap t' p = heap t p)"
proof -
  have r: "list_all interface_readable xs"
    using assms(2) by (auto simp: adverts_fit_def list_all_iff interface_sendable_def)
  have "kgrant ok (length (map advert xs) * SIZEOF_PTR)" "length (map advert xs) \<le> unat MAX_INTERFACES"
    using assms(3,4) by (simp_all add: adverts_granted_def)
  from unserialize_interfaces_ok [OF adverts_owned [OF assms(4) r] this(2,1) assms(6,5), of rest]
  obtain b t' where
    u: "unserialize_interfaces_packet ok (advert_bytes (map advert xs) @ rest) n t
        = Inr (Inr (b, word_of_nat (length xs)), t')"
    and n: "new_interfaces (map advert xs) t = (b, t')" and d: "describes b t' (map advert xs)"
    by auto
  have "\<forall>p \<in> dom (heap t). heap t' p = heap t p"
    using new_interfaces_frame [OF n assms(5)] assms(5) by (auto simp: mem_wf_def)
  moreover have "serialize_interfaces_packet ok (Some a) (word_of_nat (length xs)) s
      = Inr (PBlk (advert_bytes xs), word_of_nat (length (advert_bytes xs)))"
    using serialize_interfaces_ok [OF assms(1,2), of "[]"] by simp
  ultimately show ?thesis using u d by (auto simp: advert_bytes_adverts [OF r])
qed

text \<open>A node with more than 256 interfaces still advertises them all, and no peer accepts the
  packet: the reader answers with the invalid-count error and changes nothing.\<close>

theorem advert_too_many_rejected:
  assumes "describes a s xs" and "adverts_fit ok xs" and "unat MAX_INTERFACES < length xs"
    and "4 \<le> n"
  shows "\<exists>packet. serialize_interfaces_packet ok (Some a) (word_of_nat (length xs)) s
        = Inr (PBlk packet, word_of_nat (length packet)) \<and>
      unserialize_interfaces_packet ok (packet @ rest) n t
        = Inr (Inl (- EINVALIDINTERFACECOUNT), t)"
proof -
  have "unat (word_of_nat (length xs) :: u32) = length xs"
    using assms(2) by (simp add: adverts_fit_def unat_of_nat_u32)
  then have "256 < (word_of_nat (length xs) :: u32)" "\<not> n < 4"
    using assms(3,4) by (simp_all add: word_less_nat_alt word_le_nat_alt)
  then have "unserialize_interfaces_packet ok (advert_bytes xs @ rest) n t
      = Inr (Inl (- EINVALIDINTERFACECOUNT), t)"
    by (simp add: unserialize_interfaces_alt advert_bytes_def)
  then show ?thesis using serialize_interfaces_ok [OF assms(1,2), of "[]"] by auto
qed

section \<open>Examples\<close>

definition small_interface :: "u32 \<Rightarrow> interface_t" where
  "small_interface i = interface_0\<lparr>if_id := i, argc := 1, arg_flags := PBlk [1], retc := 0,
     ret_flags := PBlk []\<rparr>"

definition small_heap :: mem where
  "small_heap = \<lparr>heap = (\<lambda>p. if p = 1 then Some (small_interface 5) else None), next_ptr = 2,
     trace = []\<rparr>"

lemma mem_wf_small: "mem_wf small_heap"
  by (auto simp: mem_wf_def small_heap_def split: if_splits)

lemma small_interface_enc: "length (enc_interface (small_interface i)) = 13"
  by (simp add: enc_interface_def small_interface_def flag_bytes_def interface_0_def)

lemma small_interface_sendable: "interface_sendable (small_interface i)"
  by (simp add: interface_sendable_def interface_readable_def flags_readable_def small_interface_def
      interface_0_def)

lemma small_describes: "describes (replicate n (Some 1)) small_heap (replicate n (small_interface 5))"
  by (auto simp: describes_def list_all2_conv_all_nth small_heap_def)

lemma enc_list_small:
  "length (interface_codec.enc_list (replicate n (small_interface i))) = 13 * n"
  by (induction n) (simp_all add: small_interface_enc)

lemma adverts_fit_small: "n \<le> 300 \<Longrightarrow> adverts_fit kmalloc_max (replicate n (small_interface i))"
  using enc_list_small [of n i] by (auto simp: adverts_fit_def list_all_iff small_interface_sendable advert_bytes_def
      intro!: exI [of _ 4000] roomy_kmalloc_max)

theorem advert_roundtrip_witness:
  "\<exists>packet b t'. serialize_interfaces_packet kmalloc_max (Some (replicate 2 (Some 1)))
        (word_of_nat (length (replicate 2 (small_interface 5)))) small_heap
      = Inr (PBlk packet, word_of_nat (length packet)) \<and>
    unserialize_interfaces_packet kmalloc_max (packet @ [0]) 30 small_heap
      = Inr (Inr (b, word_of_nat (length (replicate 2 (small_interface 5)))), t') \<and>
    describes b t' (map advert (replicate 2 (small_interface 5))) \<and>
    (\<forall>p \<in> dom (heap small_heap). heap t' p = heap small_heap p)"
  by (rule advert_roundtrip [OF small_describes adverts_fit_small _ _ mem_wf_small])
    (simp_all add: adverts_granted_def kgrant_def kmalloc_max_def small_interface_def interface_0_def
      list_all_iff)

theorem advert_too_many_rejected_witness:
  "\<exists>packet. serialize_interfaces_packet kmalloc_max (Some (replicate 257 (Some 1)))
        (word_of_nat (length (replicate 257 (small_interface 5)))) small_heap
      = Inr (PBlk packet, word_of_nat (length packet)) \<and>
    unserialize_interfaces_packet kmalloc_max (packet @ []) 4000 small_heap
      = Inr (Inl (- EINVALIDINTERFACECOUNT), small_heap)"
  by (rule advert_too_many_rejected [OF small_describes adverts_fit_small]) simp_all

end
