(* ===== verification/Registry.thy ===== *)
theory Registry
  imports Procfs Packet_Interfaces
begin

text \<open>
  Registering and removing interfaces: \<open>register_interface\<close>, \<open>remove_interface\<close> and
  \<open>init_interfaces\<close> of \<open>module/interface.c\<close>. The descriptor a process passes is a value, since
  the module reads it in place; \<open>pid\<close> is the process that calls.
\<close>

section \<open>The functions\<close>

definition slot_write :: "iarray option \<Rightarrow> nat \<Rightarrow> ptr \<Rightarrow> iarray result" where
  "slot_write a i p = (case a of None \<Rightarrow> Inl Null_deref
     | Some xs \<Rightarrow> if i < length xs then Inr (xs[i := Some p]) else Inl Out_of_bounds)"

definition krealloc_slots :: "(nat \<Rightarrow> bool) \<Rightarrow> iarray option \<Rightarrow> nat \<Rightarrow> iarray option" where
  "krealloc_slots ok a n =
     (let old = (case a of None \<Rightarrow> [] | Some xs \<Rightarrow> xs) in
      if kgrant ok (SIZEOF_PTR * n) then Some (take n old @ replicate (n - length old) None) else None)"

definition copy_user_attr ::
  "kenv \<Rightarrow> attr_info list option \<Rightarrow> attr_info list option \<Rightarrow> nat \<Rightarrow> attr_info result" where
  "copy_user_attr e dst src i =
     bindr (arr_get src i) (\<lambda>a.
     bindr (arr_get dst i) (\<lambda>_.
     Inr \<lparr>attr_name = dup_user e (attr_name a), attr_description = dup_user e (attr_description a)\<rparr>))"

definition copy_user_info ::
  "kenv \<Rightarrow> interface_t \<Rightarrow> ptr \<Rightarrow> 'z mem_scheme \<Rightarrow> 'z mem_scheme result" where
  "copy_user_info e u p s =
     bindr (deref p s) (\<lambda>x.
     case (info x, info u) of
       (Some i, Some ui) \<Rightarrow>
         bindr (for_collect 0 (unat (argc x)) (copy_user_attr e (arg_info i) (arg_info ui))) (\<lambda>args.
         bindr (for_collect 0 (unat (retc x)) (copy_user_attr e (ret_info i) (ret_info ui))) (\<lambda>rets.
         Inr (store p (x\<lparr>info := Some \<lparr>info_name = dup_user e (info_name ui),
            info_description = dup_user e (info_description ui),
            arg_info = Some args, ret_info = Some rets\<rparr>\<rparr>) s)))
     | _ \<Rightarrow> Inl Null_deref)"

definition append_interface ::
  "(nat \<Rightarrow> bool) \<Rightarrow> ptr \<Rightarrow> 'z registry_scheme \<Rightarrow> 'z registry_scheme result" where
  "append_interface ok p s =
     (let s = (if INTERFACE_CAPACITY s < INTERFACE_COUNT s + 1
               then s\<lparr>INTERFACE_CAPACITY := INTERFACE_CAPACITY s + GRADIENT,
                      INTERFACE_LIST := krealloc_slots ok (INTERFACE_LIST s)
                        (unat (INTERFACE_CAPACITY s + GRADIENT))\<rparr>
               else s)
      in bindr (slot_write (INTERFACE_LIST s) (unat (INTERFACE_COUNT s)) p) (\<lambda>a.
         Inr (s\<lparr>INTERFACE_LIST := Some a, INTERFACE_COUNT := INTERFACE_COUNT s + 1\<rparr>)))"

definition register_interface ::
  "kenv \<Rightarrow> int \<Rightarrow> interface_t \<Rightarrow> 'z registry_scheme \<Rightarrow> (u32 \<times> 'z registry_scheme) result" where
  "register_interface e pid u_interface s =
     bindr (alloc_interface (kmem e) (argc u_interface) (retc u_interface) True False False s)
       (\<lambda>(p, s).
     bindr (write_ctrl p (\<lambda>c. c\<lparr>bind_pid := pid\<rparr>) s) (\<lambda>s.
     bindr (add_interface_to_proc e p s) (\<lambda>(_, s).
     bindr (copy_user_info e u_interface p s) (\<lambda>s.
     bindr (deref p s) (\<lambda>x.
     let idv = ALLOCATED_ID s;
         s = store p (x\<lparr>if_id := idv\<rparr>) (s\<lparr>ALLOCATED_ID := idv + 1\<rparr>)
     in bindr (append_interface (kmem e) p s) (\<lambda>s. Inr (idv, s)))))))"

fun find_index ::
  "iarray option \<Rightarrow> nat \<Rightarrow> nat \<Rightarrow> u32 \<Rightarrow> 'z mem_scheme \<Rightarrow> (nat \<times> ptr) option result" where
  "find_index interface_list i 0 idv s = Inr None"
| "find_index interface_list i (Suc n) idv s =
     bindr (slot interface_list i) (\<lambda>p.
     bindr (deref p s) (\<lambda>interface.
     if if_id interface = idv then Inr (Some (i, p))
     else find_index interface_list (Suc i) n idv s))"

definition shift_slot :: "nat \<Rightarrow> iarray option \<Rightarrow> iarray option result" where
  "shift_slot i a =
     bindr (slot a (unat (word_of_nat i - 1 :: u32))) (\<lambda>q.
     bindr (slot_write a i q) (\<lambda>a. Inr (Some a)))"

definition remove_interface ::
  "u32 \<Rightarrow> 'z registry_scheme \<Rightarrow> (u32 \<times> 'z registry_scheme) result" where
  "remove_interface idv s =
     bindr (find_index (INTERFACE_LIST s) 0 (unat (INTERFACE_COUNT s)) idv s) (\<lambda>found.
     case found of None \<Rightarrow> Inr (- 1, s)
     | Some (i, interface) \<Rightarrow>
         bindr (for_loop i (unat (INTERFACE_COUNT s - 1) - i) shift_slot (INTERFACE_LIST s)) (\<lambda>a.
         let s = s\<lparr>INTERFACE_LIST := a, INTERFACE_COUNT := INTERFACE_COUNT s - 1\<rparr> in
         bindr (free_interface interface s) (\<lambda>s. Inr (idv, s))))"

definition init_interfaces :: "(nat \<Rightarrow> bool) \<Rightarrow> 'z registry_scheme \<Rightarrow> 'z registry_scheme" where
  "init_interfaces ok s =
     s\<lparr>INTERFACE_LIST := kzalloc_array ok SIZEOF_PTR (unat (INTERFACE_CAPACITY s)) (Some 0)\<rparr>"

section \<open>The registry as a list\<close>

text \<open>
  The abstract registry is the list of descriptors in the order of the array. \<open>registry_ok\<close> is
  what every operation keeps: the array has as many slots as the capacity says, the first
  \<open>INTERFACE_COUNT\<close> of them lead to live descriptors, and each of these is complete.
\<close>

definition slots_of :: "'z registry_scheme \<Rightarrow> iarray" where
  "slots_of s = (case INTERFACE_LIST s of None \<Rightarrow> [] | Some a \<Rightarrow> a)"

definition live_slots :: "'z registry_scheme \<Rightarrow> iarray" where
  "live_slots s = take (unat (INTERFACE_COUNT s)) (slots_of s)"

definition interfaces_of :: "'z registry_scheme \<Rightarrow> interface_t list" where
  "interfaces_of s = map (\<lambda>e. the (heap s (the e))) (live_slots s)"

definition attr_array_ok :: "attr_info list option \<Rightarrow> u32 \<Rightarrow> bool" where
  "attr_array_ok a n \<longleftrightarrow> (case a of None \<Rightarrow> False | Some xs \<Rightarrow> length xs = unat n)"

definition flags_ok :: "cptr \<Rightarrow> u32 \<Rightarrow> bool" where
  "flags_ok p n \<longleftrightarrow> (case p of PBlk b \<Rightarrow> length b = unat n | _ \<Rightarrow> False)"

definition descriptor_ok :: "interface_t \<Rightarrow> bool" where
  "descriptor_ok x \<longleftrightarrow> ctrl x \<noteq> None \<and> flags_ok (arg_flags x) (argc x) \<and>
     flags_ok (ret_flags x) (retc x) \<and>
     (case info x of None \<Rightarrow> False
      | Some i \<Rightarrow> attr_array_ok (arg_info i) (argc x) \<and> attr_array_ok (ret_info i) (retc x))"

definition registry_ok :: "'z registry_scheme \<Rightarrow> bool" where
  "registry_ok s \<longleftrightarrow> mem_wf s \<and> length (slots_of s) = unat (INTERFACE_CAPACITY s) \<and>
     unat (INTERFACE_COUNT s) \<le> unat (INTERFACE_CAPACITY s) \<and>
     describes (live_slots s) s (interfaces_of s) \<and> list_all descriptor_ok (interfaces_of s)"

lemma registry_ok_describes:
  "registry_ok s \<Longrightarrow> describes (live_slots s) s (interfaces_of s)"
  by (simp add: registry_ok_def)

lemma registry_ok_emit: "registry_ok (emit ev s) = registry_ok s"
  by (simp add: registry_ok_def slots_of_def live_slots_def interfaces_of_def mem_wf_def describes_def emit_def)

lemma length_live_slots: "registry_ok s \<Longrightarrow> length (live_slots s) = unat (INTERFACE_COUNT s)"
  by (simp add: registry_ok_def live_slots_def)

lemma length_interfaces_of: "registry_ok s \<Longrightarrow> length (interfaces_of s) = unat (INTERFACE_COUNT s)"
  by (simp add: interfaces_of_def length_live_slots)

lemma registry_list:
  assumes "registry_ok s" and "INTERFACE_LIST s \<noteq> None"
  shows "INTERFACE_LIST s = Some (live_slots s @ drop (unat (INTERFACE_COUNT s)) (slots_of s))"
  using assms(2) by (auto simp: live_slots_def slots_of_def)

lemma registry_empty:
  "registry_ok s \<Longrightarrow> INTERFACE_LIST s = None \<Longrightarrow> INTERFACE_COUNT s = 0 \<and> INTERFACE_CAPACITY s = 0"
  by (auto simp: registry_ok_def slots_of_def unat_eq_0_u32)

text \<open>The registry's search is the list's, whatever the descriptors are.\<close>

lemma find_registered:
  assumes "registry_ok s" and "unat (INTERFACE_COUNT s) < 2 ^ 31"
  shows "find_interface (INTERFACE_LIST s) (sint (INTERFACE_COUNT s)) idv s
    = Inr (case index_of idv (interfaces_of s) of None \<Rightarrow> 0 | Some j \<Rightarrow> the (live_slots s ! j))"
proof (cases "INTERFACE_LIST s = None")
  case True
  then have "INTERFACE_COUNT s = 0" using registry_empty [OF assms(1)] by simp
  then show ?thesis
    using length_interfaces_of [OF assms(1)] by (simp add: find_interface_def)
next
  case False
  have "nat (sint (INTERFACE_COUNT s)) = length (interfaces_of s)"
    using assms by (simp add: length_interfaces_of sint_small_u32)
  then show ?thesis
    using find_interface_describes [OF registry_ok_describes [OF assms(1)]]
      registry_list [OF assms(1) False] by simp
qed

section \<open>The registry as a table\<close>

definition table_ok :: "'z registry_scheme \<Rightarrow> bool" where
  "table_ok s \<longleftrightarrow> registry_ok s \<and> unat (INTERFACE_COUNT s) < 2 ^ 31"

lemma live_slots_store [simp]: "live_slots (store p y s) = live_slots s"
  by (simp add: live_slots_def slots_of_def store_def)

lemma distinct_ids_slots:
  assumes "registry_ok s" and "distinct (map if_id (interfaces_of s))"
  shows "distinct (live_slots s)"
  using assms(2) by (auto simp: interfaces_of_def comp_def distinct_map dest: inj_onD intro: inj_onI)

lemma interfaces_of_store:
  assumes ok: "registry_ok s" and d: "distinct (map if_id (interfaces_of s))"
    and j: "j < length (interfaces_of s)" and p: "live_slots s ! j = Some p"
  shows "interfaces_of (store p y s) = (interfaces_of s)[j := y]"
proof (rule nth_equalityI)
  fix k assume "k < length (interfaces_of (store p y s))"
  then have k: "k < length (live_slots s)" by (simp add: interfaces_of_def)
  obtain q where q: "live_slots s ! k = Some q"
    using registry_ok_describes [OF ok] k by (auto simp: describes_def list_all2_conv_all_nth)
  have "k = j \<longleftrightarrow> q = p"
    using nth_eq_iff_index_eq [OF distinct_ids_slots [OF ok d] k, of j] j p q
    by (auto simp: interfaces_of_def)
  then show "interfaces_of (store p y s) ! k = (interfaces_of s)[j := y] ! k"
    using k j q p by (auto simp: interfaces_of_def nth_list_update)
qed (simp add: interfaces_of_def)

lemma registry_ok_store:
  assumes ok: "registry_ok s" and d: "distinct (map if_id (interfaces_of s))"
    and j: "j < length (interfaces_of s)" and p: "live_slots s ! j = Some p" and y: "descriptor_ok y"
  shows "registry_ok (store p y s)"
proof -
  have live: "q \<noteq> 0 \<and> (\<exists>x. heap s q = Some x)" if "Some q \<in> set (live_slots s)" for q
    using describes_heap [OF registry_ok_describes [OF ok] that] by auto
  have "Some p \<in> set (live_slots s)"
    using p j nth_mem [of j "live_slots s"] by (simp add: interfaces_of_def)
  then have "mem_wf (store p y s)" using ok live [of p] by (auto simp: registry_ok_def intro: mem_wf_store)
  moreover have "describes (live_slots s) (store p y s) (interfaces_of (store p y s))"
    using registry_ok_describes [OF ok] live
    by (fastforce simp: describes_def list_all2_conv_all_nth interfaces_of_def in_set_conv_nth)
  moreover have "list_all descriptor_ok ((interfaces_of s)[j := y])"
    using ok y set_update_subset_insert [of "interfaces_of s" j y]
    by (auto simp: registry_ok_def list_all_iff)
  ultimately show ?thesis
    using ok by (simp add: registry_ok_def interfaces_of_store [OF ok d j p])
      (simp add: slots_of_def store_def)
qed

interpretation registry_table: updatable_table INTERFACE_LIST "\<lambda>s. sint (INTERFACE_COUNT s)"
  "\<lambda>s. s" interfaces_of table_ok store descriptor_ok
proof unfold_locales
  fix s :: "'a registry_scheme" and idv j
  assume ok: "table_ok s" and j: "index_of idv (interfaces_of s) = Some j"
  have "j < length (interfaces_of s)" using index_of_SomeD [OF j] by simp
  then show "\<exists>p. find_interface (INTERFACE_LIST s) (sint (INTERFACE_COUNT s)) idv s = Inr p \<and>
      p \<noteq> 0 \<and> heap s p = Some (interfaces_of s ! j)"
    using ok registry_ok_describes [of s] find_registered [of s idv] j
    by (fastforce simp: table_ok_def describes_def list_all2_conv_all_nth)
next
  fix s :: "'a registry_scheme" and idv
  assume "table_ok s" and "index_of idv (interfaces_of s) = None"
  then show "find_interface (INTERFACE_LIST s) (sint (INTERFACE_COUNT s)) idv s = Inr 0"
    using find_registered [of s idv] by (simp add: table_ok_def)
next
  fix s :: "'a registry_scheme" and idv j p y
  assume ok: "table_ok s" and d: "distinct (map if_id (interfaces_of s))"
    and j: "index_of idv (interfaces_of s) = Some j"
    and p: "find_interface (INTERFACE_LIST s) (sint (INTERFACE_COUNT s)) idv s = Inr p"
    and y: "if_id y = idv" "descriptor_ok y"
  have jl: "j < length (interfaces_of s)" using index_of_SomeD [OF j] by simp
  obtain q where q: "live_slots s ! j = Some q"
    using registry_ok_describes [of s] ok jl
    by (auto simp: table_ok_def describes_def list_all2_conv_all_nth)
  have "q = p" using find_registered [of s idv] ok j p q by (simp add: table_ok_def)
  then show "table_ok (store p y s) \<and> interfaces_of (store p y s) = (interfaces_of s)[j := y]"
    using ok registry_ok_store [OF _ d jl _ y(2)] interfaces_of_store [OF _ d jl] q
    by (simp add: table_ok_def) (simp add: store_def)
qed

section \<open>Registering\<close>

text \<open>
  The state while one descriptor is built: only the fresh address \<open>next_ptr s\<close> differs from
  \<open>s\<close>, and calls to procfs are on the trace.
\<close>

definition drafted :: "'z registry_scheme \<Rightarrow> interface_t \<Rightarrow> event list \<Rightarrow> 'z registry_scheme" where
  "drafted s x tr =
     s\<lparr>heap := (heap s)(next_ptr s \<mapsto> x), next_ptr := Suc (next_ptr s), trace := tr\<rparr>"

lemma drafted_simps [simp]:
  "heap (drafted s x tr) = (heap s)(next_ptr s \<mapsto> x)"
  "next_ptr (drafted s x tr) = Suc (next_ptr s)"
  "trace (drafted s x tr) = tr"
  "INTERFACE_LIST (drafted s x tr) = INTERFACE_LIST s"
  "INTERFACE_COUNT (drafted s x tr) = INTERFACE_COUNT s"
  "INTERFACE_CAPACITY (drafted s x tr) = INTERFACE_CAPACITY s"
  "ALLOCATED_ID (drafted s x tr) = ALLOCATED_ID s"
  "store (next_ptr s) y (drafted s x tr) = drafted s y tr"
  "emit e (drafted s x tr) = drafted s x (e # tr)"
  by (simp_all add: drafted_def store_def emit_def)

lemma new_interface_drafted: "new_interface x s = (next_ptr s, drafted s x (trace s))"
  by (simp add: new_interface_def drafted_def)

lemma deref_drafted [simp]: "mem_wf s \<Longrightarrow> deref (next_ptr s) (drafted s x tr) = Inr x"
  by (auto simp: deref_def mem_wf_def)

lemma describes_drafted:
  assumes "registry_ok s"
  shows "describes (live_slots s) (drafted s x tr) (interfaces_of s)"
proof (rule describes_frame [OF registry_ok_describes [OF assms]])
  fix p assume "Some p \<in> set (live_slots s)"
  then obtain y where "heap s p = Some y"
    using describes_heap [OF registry_ok_describes [OF assms]] by blast
  moreover have "heap s (next_ptr s) = None"
    using assms by (simp add: registry_ok_def mem_wf_next_free)
  ultimately show "heap (drafted s x tr) p = heap s p" by auto
qed

text \<open>Memory for every request of one registration is granted up to \<open>n\<close> bytes.\<close>

definition kmem_upto :: "kenv \<Rightarrow> nat \<Rightarrow> bool" where
  "kmem_upto e n \<longleftrightarrow> (\<forall>k \<le> n. kmem e k)"

lemma kmem_upto_kgrant: "kmem_upto e n \<Longrightarrow> k \<le> n \<Longrightarrow> kgrant (kmem e) k"
  by (simp add: kmem_upto_def kgrant_def)

definition register_bytes :: "interface_t \<Rightarrow> 'z registry_scheme \<Rightarrow> nat" where
  "register_bytes u s = 64 + 16 * unat (argc u) + 16 * unat (retc u) +
     8 * (unat (INTERFACE_CAPACITY s) + 10)"

definition blank_interface :: "u32 \<Rightarrow> u32 \<Rightarrow> interface_t" where
  "blank_interface n m = interface_0\<lparr>if_id := - 1, argc := n, retc := m,
     arg_flags := PBlk (replicate (unat n) 0), ret_flags := PBlk (replicate (unat m) 0),
     ctrl := Some ctrl_0,
     info := Some (info_0\<lparr>arg_info := Some (replicate (unat n) attr_info_0),
       ret_info := Some (replicate (unat m) attr_info_0)\<rparr>)\<rparr>"

lemma alloc_interface_blank:
  assumes "kmem_upto e n" and "64 + 16 * unat a + 16 * unat r \<le> n"
  shows "alloc_interface (kmem e) a r True False False s
    = Inr (next_ptr s, drafted s (blank_interface a r) (trace s))"
  using assms
  by (simp add: alloc_interface_def alloc_info_def kmem_upto_kgrant kzalloc_array_def
      kzalloc_bytes_def blank_interface_def new_interface_drafted interface_0_def)

text \<open>The procfs entry of a new interface: that of the process's first interface, or a new one.\<close>

definition entry_owner :: "int \<Rightarrow> interface_t list \<Rightarrow> interface_t option" where
  "entry_owner pid xs = find (\<lambda>y. bind_pid (the (ctrl y)) = pid) xs"

definition entry_for :: "kenv \<Rightarrow> int \<Rightarrow> 'z registry_scheme \<Rightarrow> nat option" where
  "entry_for e pid s = (case entry_owner pid (interfaces_of s) of
     Some y \<Rightarrow> proc_entry (the (ctrl y)) | None \<Rightarrow> proc_create e (trace s) (dec_int pid))"

lemma entry_of_pid_describes:
  "describes a t xs \<Longrightarrow> list_all descriptor_ok xs \<Longrightarrow> INTERFACE_LIST t = Some (pre @ a @ b) \<Longrightarrow>
   entry_of_pid (length pre) (length xs) pid t
     = Inr (map_option (\<lambda>y. proc_entry (the (ctrl y))) (entry_owner pid xs))"
proof (induction xs arbitrary: a pre)
  case (Cons x xs)
  then obtain p a' where a: "a = Some p # a'" "p \<noteq> 0" "heap t p = Some x" "describes a' t xs"
    by (auto simp: describes_def list_all2_Cons2)
  obtain c where c: "ctrl x = Some c" using Cons.prems(2) by (auto simp: descriptor_ok_def)
  have s: "slot (INTERFACE_LIST t) (length pre) = Inr p"
    using Cons.prems(3) by (simp add: slot_eq_Inr a)
  have r: "read_ctrl p t = Inr c" using a c by (simp add: read_ctrl_def deref_def)
  have "entry_of_pid (length (pre @ [Some p])) (length xs) pid t
      = Inr (map_option (\<lambda>y. proc_entry (the (ctrl y))) (entry_owner pid xs))"
    by (rule Cons.IH [OF a(4)]) (use Cons.prems a in auto)
  then show ?case by (simp add: s r c entry_owner_def)
qed (simp add: entry_owner_def)

lemma entry_of_pid_registry:
  assumes ok: "registry_ok s"
  shows "entry_of_pid 0 (unat (INTERFACE_COUNT s)) pid (drafted s x tr)
    = Inr (map_option (\<lambda>y. proc_entry (the (ctrl y))) (entry_owner pid (interfaces_of s)))"
proof (cases "INTERFACE_LIST s = None")
  case True
  then have "INTERFACE_COUNT s = 0" using registry_empty [OF ok] by simp
  then show ?thesis using length_interfaces_of [OF ok] by (simp add: entry_owner_def)
next
  case False
  show ?thesis
    using entry_of_pid_describes [OF describes_drafted [OF ok], where pre = "[]"] registry_list [OF ok False]
      ok
    by (simp add: length_interfaces_of registry_ok_def)
qed

text \<open>
  What a registration leaves in the registry. The flags the process set are not copied: the
  flag arrays of the descriptor stay zero.
\<close>

definition user_descriptor_ok :: "interface_t \<Rightarrow> bool" where
  "user_descriptor_ok u \<longleftrightarrow> (case info u of None \<Rightarrow> False
     | Some i \<Rightarrow> attr_array_ok (arg_info i) (argc u) \<and> attr_array_ok (ret_info i) (retc u))"

definition copied_attr :: "kenv \<Rightarrow> attr_info \<Rightarrow> attr_info" where
  "copied_attr e a =
     \<lparr>attr_name = dup_user e (attr_name a), attr_description = dup_user e (attr_description a)\<rparr>"

definition copied_info :: "kenv \<Rightarrow> info_t \<Rightarrow> info_t" where
  "copied_info e i = \<lparr>info_name = dup_user e (info_name i),
     info_description = dup_user e (info_description i),
     arg_info = map_option (map (copied_attr e)) (arg_info i),
     ret_info = map_option (map (copied_attr e)) (ret_info i)\<rparr>"

definition registered :: "kenv \<Rightarrow> int \<Rightarrow> interface_t \<Rightarrow> 'z registry_scheme \<Rightarrow> interface_t" where
  "registered e pid u s = (blank_interface (argc u) (retc u))\<lparr>if_id := ALLOCATED_ID s,
     ctrl := Some (ctrl_0\<lparr>bind_pid := pid, proc_entry := entry_for e pid s\<rparr>),
     info := map_option (copied_info e) (info u)\<rparr>"

lemma copy_user_attrs:
  assumes "length xs = n" and "length ys = n"
  shows "for_collect 0 n (copy_user_attr e (Some ys) (Some xs)) = Inr (map (copied_attr e) xs)"
proof -
  have "for_collect 0 n (copy_user_attr e (Some ys) (Some xs))
      = Inr (map (\<lambda>j. copied_attr e (xs ! j)) [0..<0 + n])"
    by (rule for_collect_map) (use assms in \<open>simp add: copy_user_attr_def copied_attr_def\<close>)
  also have "map (\<lambda>j. copied_attr e (xs ! j)) [0..<0 + n] = map (copied_attr e) xs"
    using assms by (intro nth_equalityI) simp_all
  finally show ?thesis .
qed

lemma copy_user_info_drafted:
  assumes "mem_wf s" and "user_descriptor_ok u"
    and "info x = info (blank_interface (argc u) (retc u))" and "argc x = argc u" and "retc x = retc u"
  shows "copy_user_info e u (next_ptr s) (drafted s x tr)
    = Inr (drafted s (x\<lparr>info := map_option (copied_info e) (info u)\<rparr>) tr)"
proof -
  obtain ui xs ys where u: "info u = Some ui" "arg_info ui = Some xs" "length xs = unat (argc u)"
      "ret_info ui = Some ys" "length ys = unat (retc u)"
    using assms(2) by (auto simp: user_descriptor_ok_def attr_array_ok_def split: option.splits)
  then show ?thesis
    using assms copy_user_attrs [OF u(3), of "replicate (unat (argc u)) attr_info_0" e]
      copy_user_attrs [OF u(5), of "replicate (unat (retc u)) attr_info_0" e]
    by (simp add: copy_user_info_def blank_interface_def copied_info_def info_0_def)
qed

lemma add_to_proc_drafted:
  assumes ok: "registry_ok s" and c: "ctrl x = Some c"
  shows "\<exists>r tr. add_interface_to_proc e (next_ptr s) (drafted s x (trace s)) = Inr (r,
    drafted s (x\<lparr>ctrl := Some (c\<lparr>proc_entry :=
      (if entry_owner (bind_pid c) (interfaces_of s) = None \<and>
          proc_create e (trace s) (dec_int (bind_pid c)) = None
       then proc_entry c else entry_for e (bind_pid c) s)\<rparr>)\<rparr>) tr)"
proof -
  have wf: "mem_wf s" using ok by (simp add: registry_ok_def)
  show ?thesis
    using wf c
    by (auto simp: add_interface_to_proc_def read_ctrl_def write_ctrl_def entry_for_def
        entry_of_pid_registry [OF ok] split: option.splits)
      (metis old.unit.exhaust interface_t.surjective interface_t.update_convs(6) ctrl_t.surjective
        ctrl_t.update_convs(6))
qed

lemma unat_add_u32: "unat (a :: u32) + unat b < 2 ^ 32 \<Longrightarrow> unat (a + b) = unat a + unat b"
  by (simp add: unat_word_ariths)

lemma append_interface_slots:
  assumes len: "length (slots_of s) = unat (INTERFACE_CAPACITY s)"
    and le: "unat (INTERFACE_COUNT s) \<le> unat (INTERFACE_CAPACITY s)"
    and small: "unat (INTERFACE_COUNT s) < 2 ^ 31"
    and mem: "kgrant ok (8 * (unat (INTERFACE_CAPACITY s) + 10))"
  shows "\<exists>a c. append_interface ok p s = Inr (s\<lparr>INTERFACE_LIST := Some a,
      INTERFACE_CAPACITY := c, INTERFACE_COUNT := INTERFACE_COUNT s + 1\<rparr>) \<and>
    length a = unat c \<and> unat (INTERFACE_COUNT s) < unat c \<and>
    take (unat (INTERFACE_COUNT s)) a = live_slots s \<and> a ! unat (INTERFACE_COUNT s) = Some p"
proof (cases "INTERFACE_CAPACITY s < INTERFACE_COUNT s + 1")
  case True
  have c1: "unat (INTERFACE_COUNT s + 1) = unat (INTERFACE_COUNT s) + 1"
    using small by (simp add: unat_add_u32)
  have eq: "unat (INTERFACE_CAPACITY s) = unat (INTERFACE_COUNT s)"
    using True le c1 by (simp add: word_less_nat_alt)
  have cap: "unat (INTERFACE_CAPACITY s + 10) = unat (INTERFACE_CAPACITY s) + 10"
    using small eq by (simp add: unat_add_u32)
  have "krealloc_slots ok (INTERFACE_LIST s) (unat (INTERFACE_CAPACITY s + 10))
      = Some (slots_of s @ replicate 10 None)"
    using len mem cap by (auto simp: krealloc_slots_def slots_of_def split: option.splits)
  then have "append_interface ok p s = Inr (s\<lparr>
      INTERFACE_LIST := Some ((slots_of s @ replicate 10 None)[unat (INTERFACE_COUNT s) := Some p]),
      INTERFACE_CAPACITY := INTERFACE_CAPACITY s + 10, INTERFACE_COUNT := INTERFACE_COUNT s + 1\<rparr>)"
    using True len eq by (simp add: append_interface_def slot_write_def)
  moreover have "take (unat (INTERFACE_COUNT s)) (slots_of s @ replicate 10 None) = live_slots s"
    using len eq by (simp add: live_slots_def)
  ultimately show ?thesis
    using len eq cap by (intro exI conjI) (assumption, simp_all add: nth_append)
next
  case False
  have c1: "unat (INTERFACE_COUNT s + 1) = unat (INTERFACE_COUNT s) + 1"
    using small by (simp add: unat_add_u32)
  have lt: "unat (INTERFACE_COUNT s) < unat (INTERFACE_CAPACITY s)"
    using False c1 by (simp add: word_less_nat_alt)
  obtain a where a: "INTERFACE_LIST s = Some a" "length a = unat (INTERFACE_CAPACITY s)"
    using lt len by (auto simp: slots_of_def split: option.splits)
  show ?thesis
    using False lt a
    by (auto simp: append_interface_def Let_def slots_of_def live_slots_def slot_write_def
        intro!: exI [where x = "INTERFACE_CAPACITY s"])
qed

lemma descriptor_ok_registered:
  "user_descriptor_ok u \<Longrightarrow> descriptor_ok (registered e pid u s)"
  by (auto simp: user_descriptor_ok_def descriptor_ok_def registered_def blank_interface_def
      flags_ok_def attr_array_ok_def copied_info_def split: option.splits)

lemma registered_draft:
  assumes ok: "registry_ok s" and u: "user_descriptor_ok u" and mem: "kmem_upto e (register_bytes u s)"
  shows "\<exists>tr. register_interface e pid u s =
    bindr (append_interface (kmem e) (next_ptr s)
      ((drafted s (registered e pid u s) tr)\<lparr>ALLOCATED_ID := ALLOCATED_ID s + 1\<rparr>))
    (\<lambda>t. Inr (ALLOCATED_ID s, t))"
proof -
  have wf: "mem_wf s" using ok by (simp add: registry_ok_def)
  let ?x = "(blank_interface (argc u) (retc u))\<lparr>ctrl := Some (ctrl_0\<lparr>bind_pid := pid\<rparr>)\<rparr>"
  let ?y = "(blank_interface (argc u) (retc u))\<lparr>ctrl := Some (ctrl_0\<lparr>bind_pid := pid, proc_entry := entry_for e pid s\<rparr>)\<rparr>"
  let ?z = "?y\<lparr>info := map_option (copied_info e) (info u)\<rparr>"
  have a: "alloc_interface (kmem e) (argc u) (retc u) True False False s
      = Inr (next_ptr s, drafted s (blank_interface (argc u) (retc u)) (trace s))"
    by (rule alloc_interface_blank [OF mem]) (simp add: register_bytes_def)
  have b: "write_ctrl (next_ptr s) (\<lambda>c. c\<lparr>bind_pid := pid\<rparr>)
      (drafted s (blank_interface (argc u) (retc u)) (trace s)) = Inr (drafted s ?x (trace s))"
    by (simp add: write_ctrl_def wf blank_interface_def)
  obtain r tr where c: "add_interface_to_proc e (next_ptr s) (drafted s ?x (trace s))
      = Inr (r, drafted s ?y tr)"
    using add_to_proc_drafted [OF ok, of ?x "ctrl_0\<lparr>bind_pid := pid\<rparr>" e]
    by (auto simp: entry_for_def ctrl_0_def split: if_splits)
  have d: "copy_user_info e u (next_ptr s) (drafted s ?y tr) = Inr (drafted s ?z tr)"
    by (rule copy_user_info_drafted [OF wf u]) (simp_all add: blank_interface_def)
  have e: "?z\<lparr>if_id := i\<rparr> = registered e pid u s" if "i = ALLOCATED_ID s" for i
    using that by (simp add: registered_def blank_interface_def)
  have st: "store (next_ptr s) y (t\<lparr>ALLOCATED_ID := i\<rparr>) = (store (next_ptr s) y t)\<lparr>ALLOCATED_ID := i\<rparr>"
    for y i and t :: "'a registry_scheme" by (simp add: store_def)
  show ?thesis
    by (rule exI [where x = tr])
      (simp add: register_interface_def a b c d wf st Let_def e [OF refl])
qed

lemma registry_ok_appended:
  assumes ok: "registry_ok s" and x: "descriptor_ok x"
    and a: "length a = unat c" "unat (INTERFACE_COUNT s) < unat c"
      "take (unat (INTERFACE_COUNT s)) a = live_slots s" "a ! unat (INTERFACE_COUNT s) = Some (next_ptr s)"
    and t: "heap t = (heap s)(next_ptr s \<mapsto> x)" "next_ptr t = Suc (next_ptr s)"
      "INTERFACE_LIST t = Some a" "INTERFACE_CAPACITY t = c"
      "unat (INTERFACE_COUNT t) = Suc (unat (INTERFACE_COUNT s))"
  shows "registry_ok t \<and> interfaces_of t = interfaces_of s @ [x] \<and>
    live_slots t = live_slots s @ [Some (next_ptr s)]"
proof -
  have slots: "live_slots t = live_slots s @ [Some (next_ptr s)]"
    using a t by (simp add: live_slots_def slots_of_def take_Suc_conv_app_nth)
  have old: "describes (live_slots s) t (interfaces_of s)"
    using describes_drafted [OF ok, of x "trace s"] t(1) describes_cong [of t "drafted s x (trace s)"]
    by simp
  have wf: "mem_wf s" using ok by (simp add: registry_ok_def)
  have new: "describes (live_slots t) t (interfaces_of s @ [x])"
    using old wf t(1) by (simp add: slots describes_append [OF describes_length [OF old]])
      (simp add: describes_def mem_wf_def)
  have same: "interfaces_of t = interfaces_of s @ [x]"
    using new by (auto simp: interfaces_of_def describes_def list_all2_conv_all_nth
        intro!: nth_equalityI)
  have "mem_wf t"
    using wf t(1,2) by (auto simp: mem_wf_def intro: less_SucI)
  then show ?thesis
    using new same ok x a(1,2) t slots by (simp add: registry_ok_def slots_of_def)
qed

lemma register_run:
  assumes "registry_ok s" and "user_descriptor_ok u" and "kmem_upto e (register_bytes u s)"
    and "unat (INTERFACE_COUNT s) < 2 ^ 31"
  shows "\<exists>t. register_interface e pid u s = Inr (ALLOCATED_ID s, t) \<and> registry_ok t \<and>
    interfaces_of t = interfaces_of s @ [registered e pid u s] \<and>
    ALLOCATED_ID t = ALLOCATED_ID s + 1 \<and> live_slots t = live_slots s @ [Some (next_ptr s)] \<and>
    heap t = (heap s)(next_ptr s \<mapsto> registered e pid u s) \<and> registry.more t = registry.more s \<and>
    KERN_NETLINK t = KERN_NETLINK s"
proof -
  obtain tr where r: "register_interface e pid u s =
    bindr (append_interface (kmem e) (next_ptr s)
      ((drafted s (registered e pid u s) tr)\<lparr>ALLOCATED_ID := ALLOCATED_ID s + 1\<rparr>))
    (\<lambda>t. Inr (ALLOCATED_ID s, t))"
    using registered_draft [OF assms(1-3)] by blast
  let ?d = "(drafted s (registered e pid u s) tr)\<lparr>ALLOCATED_ID := ALLOCATED_ID s + 1\<rparr>"
  have f: "slots_of ?d = slots_of s" "live_slots ?d = live_slots s"
    by (simp_all add: slots_of_def live_slots_def)
  obtain a c where a: "append_interface (kmem e) (next_ptr s) ?d = Inr (?d\<lparr>INTERFACE_LIST := Some a,
      INTERFACE_CAPACITY := c, INTERFACE_COUNT := INTERFACE_COUNT s + 1\<rparr>)"
    "length a = unat c" "unat (INTERFACE_COUNT s) < unat c"
    "take (unat (INTERFACE_COUNT s)) a = live_slots s" "a ! unat (INTERFACE_COUNT s) = Some (next_ptr s)"
    using append_interface_slots [of ?d "kmem e" "next_ptr s"] assms
      kmem_upto_kgrant [OF assms(3), of "8 * (unat (INTERFACE_CAPACITY s) + 10)"]
    by (auto simp: f registry_ok_def register_bytes_def)
  let ?t = "?d\<lparr>INTERFACE_LIST := Some a, INTERFACE_CAPACITY := c,
      INTERFACE_COUNT := INTERFACE_COUNT s + 1\<rparr>"
  have "registry_ok ?t \<and> interfaces_of ?t = interfaces_of s @ [registered e pid u s] \<and>
      live_slots ?t = live_slots s @ [Some (next_ptr s)]"
    by (rule registry_ok_appended [OF assms(1) descriptor_ok_registered [OF assms(2)] a(2-5)])
      (use assms(4) in \<open>simp_all add: unat_add_u32\<close>)
  moreover have "registry.more ?t = registry.more s" by (cases s) (simp add: drafted_def)
  moreover have "KERN_NETLINK ?t = KERN_NETLINK s" by (simp add: drafted_def)
  ultimately show ?thesis using r a(1) by simp
qed

lemma register_appends:
  assumes "registry_ok s" and "user_descriptor_ok u" and "kmem_upto e (register_bytes u s)"
    and "unat (INTERFACE_COUNT s) < 2 ^ 31"
  shows "\<exists>t. register_interface e pid u s = Inr (ALLOCATED_ID s, t) \<and> registry_ok t \<and>
    interfaces_of t = interfaces_of s @ [registered e pid u s] \<and>
    ALLOCATED_ID t = ALLOCATED_ID s + 1"
  using register_run [OF assms] by blast

text \<open>
  C8: a registration appends the process's descriptor under the next identifier and keeps the
  registry well-formed. The names are the process's, copied; the flag arrays are zero whatever
  the process asked for.
\<close>

theorem register_interface_appends:
  assumes "registry_ok s" and "user_descriptor_ok u" and "kmem_upto e (register_bytes u s)"
    and "unat (INTERFACE_COUNT s) < 2 ^ 31"
  shows "\<exists>t. register_interface e pid u s = Inr (ALLOCATED_ID s, t) \<and> registry_ok t \<and>
    interfaces_of t = interfaces_of s @ [registered e pid u s] \<and>
    ALLOCATED_ID t = ALLOCATED_ID s + 1"
  by (rule register_appends [OF assms])

section \<open>Removing\<close>

lemma find_index_describes:
  "describes a s xs \<Longrightarrow> find_index (Some (pre @ a @ b)) (length pre) (length xs) idv s
     = Inr (map_option (\<lambda>j. (length pre + j, the (a ! j))) (index_of idv xs))"
proof (induction xs arbitrary: a pre)
  case (Cons x xs)
  then obtain p a' where a: "a = Some p # a'" "p \<noteq> 0" "heap s p = Some x" "describes a' s xs"
    by (auto simp: describes_def list_all2_Cons2)
  have sl: "slot (Some (pre @ a @ b)) (length pre) = Inr p"
    by (simp add: slot_eq_Inr a)
  have "find_index (Some ((pre @ [Some p]) @ a' @ b)) (length (pre @ [Some p])) (length xs) idv s
      = Inr (map_option (\<lambda>j. (length (pre @ [Some p]) + j, the (a' ! j))) (index_of idv xs))"
    by (rule Cons.IH [OF a(4)])
  then show ?case
    using sl a by (simp add: deref_def option.map_comp comp_def)
qed simp

lemma find_index_registry:
  assumes ok: "registry_ok s"
  shows "find_index (INTERFACE_LIST s) 0 (unat (INTERFACE_COUNT s)) idv s
    = Inr (map_option (\<lambda>j. (j, the (live_slots s ! j))) (index_of idv (interfaces_of s)))"
proof (cases "INTERFACE_LIST s = None")
  case True
  then have "INTERFACE_COUNT s = 0" using registry_empty [OF ok] by simp
  then show ?thesis using length_interfaces_of [OF ok] by simp
next
  case False
  then show ?thesis
    using find_index_describes [OF registry_ok_describes [OF ok], where pre = "[]"]
      registry_list [OF ok False] by (simp add: length_interfaces_of [OF ok])
qed

text \<open>The loop copies slot \<open>i - 1\<close> over every slot from \<open>i\<close> on.\<close>

lemma shift_slots:
  "0 < i \<Longrightarrow> i + m \<le> length a \<Longrightarrow> i + m < 2 ^ 32 \<Longrightarrow> a ! (i - 1) = Some q \<Longrightarrow>
   for_loop i m shift_slot (Some a) = Inr (Some (take i a @ replicate m (Some q) @ drop (i + m) a))"
proof (induction m arbitrary: i a)
  case (Suc m)
  have w: "unat (word_of_nat i - 1 :: u32) = i - 1"
    using Suc.prems(1,3) by (simp add: unat_sub word_le_nat_alt unat_of_nat_u32)
  have "shift_slot i (Some a) = Inr (Some (a[i := Some q]))"
    using Suc.prems by (simp add: shift_slot_def w slot_write_def)
  moreover have "for_loop (Suc i) m shift_slot (Some (a[i := Some q]))
      = Inr (Some (take (Suc i) (a[i := Some q]) @ replicate m (Some q) @ drop (Suc i + m) (a[i := Some q])))"
    by (rule Suc.IH) (use Suc.prems in auto)
  ultimately show ?case
    using Suc.prems by (simp add: take_Suc_conv_app_nth)
qed simp

lemma shift_first_faults:
  assumes "length a < 2 ^ 32" and "0 < m"
  shows "for_loop 0 m shift_slot (Some a) = Inl Out_of_bounds"
proof -
  have "unat (- 1 :: u32) = 4294967295"
    by (simp add: unsigned_minus_1_eq_mask mask_eq_exp_minus_1)
  then have "shift_slot 0 (Some a) = Inl Out_of_bounds"
    using assms(1) by (simp add: shift_slot_def slot_def)
  then show ?thesis using assms(2) by (cases m) simp_all
qed

text \<open>What is left after the interface at position \<open>i\<close> is removed.\<close>

definition shifted_out :: "nat \<Rightarrow> 'a list \<Rightarrow> 'a list" where
  "shifted_out i xs = take i xs @ replicate (length xs - 1 - i) (xs ! (i - 1))"

lemma shifted_out_last: "xs \<noteq> [] \<Longrightarrow> shifted_out (length xs - 1) xs = butlast xs"
  by (simp add: shifted_out_def butlast_conv_take)

lemma shifted_out_props:
  assumes "i < length xs" and "i = 0 \<longrightarrow> length xs = 1"
  shows "length (shifted_out i xs) = length xs - 1" and "set (shifted_out i xs) \<subseteq> set (take i xs)"
proof -
  show "length (shifted_out i xs) = length xs - 1"
    using assms by (auto simp: shifted_out_def)
  have "xs ! (i - 1) \<in> set (take i xs)" if "i \<noteq> 0"
    using that assms(1) by (auto simp: in_set_conv_nth intro!: exI [of _ "i - 1"])
  then show "set (shifted_out i xs) \<subseteq> set (take i xs)"
    using assms(2) by (auto simp: shifted_out_def)
qed

lemma describes_shifted:
  assumes "describes a s xs" and "i < length xs"
  shows "describes (shifted_out i a) s (shifted_out i xs)"
proof -
  have len: "length a = length xs" by (rule describes_length [OF assms(1)])
  have "list_all2 R (take i a) (take i xs)" "R (a ! (i - 1)) (xs ! (i - 1))"
    if "list_all2 R a xs" for R
    using that assms(2) by (auto simp: list_all2_conv_all_nth)
  then show ?thesis
    using assms(1) len by (auto simp: describes_def shifted_out_def intro!: list_all2_appendI)
      (auto simp: list_all2_conv_all_nth)
qed

lemma describes_unique: "describes a s xs \<Longrightarrow> xs = map (\<lambda>e. the (heap s (the e))) a"
  by (auto simp: describes_def list_all2_conv_all_nth intro!: nth_equalityI)

text \<open>The pointer of the first interface with an identifier is none of those before it.\<close>

lemma found_pointer:
  assumes d: "describes a s xs" and i: "index_of idv xs = Some i"
  obtains p where "a ! i = Some p" "heap s p = Some (xs ! i)" "p \<noteq> 0" "Some p \<notin> set (take i a)"
proof -
  have f: "i < length xs" "if_id (xs ! i) = idv" "\<forall>k<i. if_id (xs ! k) \<noteq> idv"
    using index_of_SomeD [OF i] by auto
  obtain p where p: "a ! i = Some p" "heap s p = Some (xs ! i)" "p \<noteq> 0"
    using d f(1) by (auto simp: describes_def list_all2_conv_all_nth)
  have "Some p \<notin> set (take i a)"
  proof
    assume "Some p \<in> set (take i a)"
    then obtain k where k: "k < i" "k < length a" "a ! k = Some p"
      by (auto simp: in_set_conv_nth)
    then have "heap s p = Some (xs ! k)"
      using d by (auto simp: describes_def list_all2_conv_all_nth)
    then show False using p(2) f(2,3) k(1) by auto
  qed
  with p that show thesis by blast
qed

lemma shifted_array:
  assumes ok: "registry_ok s" and i: "i < unat (INTERFACE_COUNT s)"
    and first: "i = 0 \<longrightarrow> INTERFACE_COUNT s = 1"
  shows "\<exists>a. for_loop i (unat (INTERFACE_COUNT s - 1) - i) shift_slot (INTERFACE_LIST s) = Inr (Some a) \<and>
    length a = length (slots_of s) \<and>
    take (unat (INTERFACE_COUNT s) - 1) a = shifted_out i (live_slots s)"
proof -
  let ?n = "unat (INTERFACE_COUNT s)" and ?l = "live_slots s"
  obtain a where a: "INTERFACE_LIST s = Some a" "slots_of s = a"
    using ok i by (cases "INTERFACE_LIST s") (auto simp: registry_ok_def slots_of_def)
  have le: "?n \<le> length a" and n1: "unat (INTERFACE_COUNT s - 1) = ?n - 1"
    using ok a i by (auto simp: registry_ok_def unat_minus_one unat_eq_0_u32 [symmetric])
  have l: "take ?n a = ?l" by (simp add: live_slots_def a(2))
  show ?thesis
  proof (cases "i = 0")
    case True
    then show ?thesis using first a le n1 by (simp add: shifted_out_def live_slots_def)
  next
    case False
    obtain q where l1: "?l ! (i - 1) = Some q"
      using registry_ok_describes [OF ok] i
      by (auto simp: describes_def list_all2_conv_all_nth length_live_slots [OF ok]
          dest!: spec [where x = "i - 1"])
    then have q: "a ! (i - 1) = Some q" "?l ! (i - 1) = Some q"
      using i nth_take [of "i - 1" ?n a] l by auto
    have "for_loop i (?n - 1 - i) shift_slot (Some a) = Inr (Some (take i a @
        replicate (?n - 1 - i) (Some q) @ drop (i + (?n - 1 - i)) a))"
      by (rule shift_slots) (use False i le q unat_u32_less [of "INTERFACE_COUNT s"] in auto)
    moreover have "take (?n - 1) (take i a @ replicate (?n - 1 - i) (Some q) @ drop (?n - 1) a)
        = shifted_out i ?l"
      using i le q(2) length_live_slots [OF ok]
      by (cases "i = ?n - 1") (auto simp: shifted_out_def min_def live_slots_def a(2))
    ultimately show ?thesis using i le a n1 by (auto simp: min_def)
  qed
qed

lemma remove_interface_run:
  assumes ok: "registry_ok s" and i: "index_of idv (interfaces_of s) = Some i"
    and first: "i = 0 \<longrightarrow> length (interfaces_of s) = 1"
  shows "\<exists>t. remove_interface idv s = Inr (idv, t) \<and> registry_ok t \<and>
    interfaces_of t = shifted_out i (interfaces_of s) \<and> ALLOCATED_ID t = ALLOCATED_ID s \<and>
    set (live_slots t) \<subseteq> set (live_slots s) \<and> registry.more t = registry.more s \<and>
    (\<exists>p. Some p \<in> set (live_slots s) \<and> heap t = (heap s)(p := None))"
proof -
  let ?n = "unat (INTERFACE_COUNT s)" and ?xs = "interfaces_of s"
  have n: "i < ?n" using index_of_SomeD [OF i] by (simp add: length_interfaces_of [OF ok])
  have n1: "unat (INTERFACE_COUNT s - 1) = ?n - 1"
    using n by (simp add: unat_minus_one unat_eq_0_u32 [symmetric])
  have one: "i = 0 \<longrightarrow> INTERFACE_COUNT s = 1"
    using first by (simp add: length_interfaces_of [OF ok] word_unat_eq_iff)
  obtain p where p: "live_slots s ! i = Some p" "heap s p = Some (?xs ! i)" "p \<noteq> 0"
      "Some p \<notin> set (take i (live_slots s))"
    using found_pointer [OF registry_ok_describes [OF ok] i] by metis
  obtain a where a: "for_loop i (unat (INTERFACE_COUNT s - 1) - i) shift_slot (INTERFACE_LIST s)
      = Inr (Some a)" "length a = length (slots_of s)" "take (?n - 1) a = shifted_out i (live_slots s)"
    using shifted_array [OF ok n one] by blast
  let ?t = "release p (s\<lparr>INTERFACE_LIST := Some a, INTERFACE_COUNT := INTERFACE_COUNT s - 1\<rparr>)"
  have run: "remove_interface idv s = Inr (idv, ?t)"
    using p by (simp add: remove_interface_def find_index_registry [OF ok] i a(1) Let_def
        free_interface_def deref_def)
  have slots: "live_slots ?t = shifted_out i (live_slots s)"
    using a(3) n1 by (simp add: live_slots_def slots_of_def release_def)
  have "set (shifted_out i (live_slots s)) \<subseteq> set (take i (live_slots s))"
    by (rule shifted_out_props(2)) (use n one in \<open>auto simp: length_live_slots [OF ok]\<close>)
  then have notin: "Some p \<notin> set (shifted_out i (live_slots s))" using p(4) by blast
  have old: "describes (shifted_out i (live_slots s)) s (shifted_out i ?xs)"
    by (rule describes_shifted [OF registry_ok_describes [OF ok]])
      (simp add: length_interfaces_of [OF ok] n)
  have d: "describes (live_slots ?t) ?t (shifted_out i ?xs)"
    unfolding slots by (rule describes_frame [OF old]) (use notin in \<open>auto simp: release_def\<close>)
  have eq: "interfaces_of ?t = shifted_out i ?xs"
    using describes_unique [OF d] by (simp add: interfaces_of_def)
  have "set (shifted_out i ?xs) \<subseteq> set (take i ?xs)"
    by (rule shifted_out_props(2)) (use n first in \<open>auto simp: length_interfaces_of [OF ok]\<close>)
  then have "set (shifted_out i ?xs) \<subseteq> set ?xs" using set_take_subset by fast
  then have "list_all descriptor_ok (shifted_out i ?xs)"
    using ok by (auto simp: registry_ok_def list_all_iff)
  moreover have "mem_wf ?t" using ok by (simp add: registry_ok_def mem_wf_def release_def)
  moreover have "length (slots_of ?t) = unat (INTERFACE_CAPACITY ?t)"
    and "unat (INTERFACE_COUNT ?t) \<le> unat (INTERFACE_CAPACITY ?t)"
    using ok a(2) n1 by (auto simp: registry_ok_def slots_of_def release_def)
  ultimately have "registry_ok ?t" unfolding registry_ok_def eq using d by blast
  moreover have "set (live_slots ?t) \<subseteq> set (live_slots s)"
    unfolding slots using \<open>set (shifted_out i (live_slots s)) \<subseteq> _\<close> set_take_subset by fast
  moreover have "Some p \<in> set (live_slots s)" using p(1) n nth_mem [of i "live_slots s"] by (simp add: length_live_slots [OF ok])
  moreover have "registry.more ?t = registry.more s" by (cases s) (simp add: release_def)
  ultimately show ?thesis using run eq by (intro exI [of _ ?t]) (auto simp: release_def)
qed

lemma remove_interface_found:
  assumes ok: "registry_ok s" and i: "index_of idv (interfaces_of s) = Some i"
    and first: "i = 0 \<longrightarrow> length (interfaces_of s) = 1"
  shows "\<exists>t. remove_interface idv s = Inr (idv, t) \<and> registry_ok t \<and>
    interfaces_of t = shifted_out i (interfaces_of s) \<and> ALLOCATED_ID t = ALLOCATED_ID s"
  using remove_interface_run [OF assms] by blast

lemma remove_interface_unknown:
  "registry_ok s \<Longrightarrow> index_of idv (interfaces_of s) = None \<Longrightarrow>
   remove_interface idv s = Inr (- 1, s)"
  by (simp add: remove_interface_def find_index_registry)

lemma remove_first:
  assumes "registry_ok s" and "index_of idv (interfaces_of s) = Some 0"
    and "1 < length (interfaces_of s)"
  shows "remove_interface idv s = Inl Out_of_bounds"
proof -
  have n: "1 < unat (INTERFACE_COUNT s)" using assms(3) by (simp add: length_interfaces_of [OF assms(1)])
  obtain a where a: "INTERFACE_LIST s = Some a" "length a = unat (INTERFACE_CAPACITY s)"
    using assms(1) n by (cases "INTERFACE_LIST s") (auto simp: registry_ok_def slots_of_def)
  have "0 < unat (INTERFACE_COUNT s - 1)"
    using n by (subst unat_minus_one) (auto simp: unat_eq_0_u32 [symmetric])
  then have "for_loop 0 (unat (INTERFACE_COUNT s - 1)) shift_slot (INTERFACE_LIST s) = Inl Out_of_bounds"
    unfolding a(1) by (intro shift_first_faults) (use a(2) unat_u32_less in auto)
  then show ?thesis by (simp add: remove_interface_def find_index_registry [OF assms(1)] assms(2))
qed

text \<open>
  C32: removing the first of several interfaces reads the array at index \<open>0 - 1\<close>, which is
  4294967295 in \<open>uint32_t\<close>: out of bounds.
\<close>

theorem remove_first_faults:
  assumes "registry_ok s" and "index_of idv (interfaces_of s) = Some 0"
    and "1 < length (interfaces_of s)"
  shows "remove_interface idv s = Inl Out_of_bounds"
  by (rule remove_first [OF assms])

text \<open>
  C31: removing an interface that is not the first truncates the list behind it: what follows
  the removed interface is replaced by copies of the one before it. The registry stays
  well-formed, and no slot leads to the freed descriptor.
\<close>

theorem remove_interface_shifts:
  assumes "registry_ok s" and "index_of idv (interfaces_of s) = Some (Suc i)"
  shows "\<exists>t. remove_interface idv s = Inr (idv, t) \<and> registry_ok t \<and> interfaces_of t =
    take (Suc i) (interfaces_of s) @
    replicate (length (interfaces_of s) - 2 - i) (interfaces_of s ! i)"
  using remove_interface_found [OF assms] by (auto simp: shifted_out_def)

text \<open>Identifiers in use are below the next one, and no two interfaces share one.\<close>

definition ids_fresh :: "'z registry_scheme \<Rightarrow> bool" where
  "ids_fresh s \<longleftrightarrow> distinct (map if_id (interfaces_of s)) \<and>
     (\<forall>x \<in> set (interfaces_of s). unat (if_id x) < unat (ALLOCATED_ID s))"

lemma index_of_append_fresh:
  "\<forall>x \<in> set xs. if_id x \<noteq> if_id y \<Longrightarrow> index_of (if_id y) (xs @ [y]) = Some (length xs)"
  by (induction xs) auto

lemma if_id_registered [simp]: "if_id (registered e pid u s) = ALLOCATED_ID s"
  by (simp add: registered_def)

text \<open>
  C30: removing the interface registered last is the inverse of registering it: the removal
  finds it under the identifier returned, and the list is what it was.
\<close>

theorem register_then_remove:
  assumes "registry_ok s" and "ids_fresh s" and "user_descriptor_ok u"
    and "kmem_upto e (register_bytes u s)" and "unat (INTERFACE_COUNT s) < 2 ^ 31"
    and "register_interface e pid u s = Inr (idv, t)"
  shows "\<exists>r. remove_interface idv t = Inr (idv, r) \<and> registry_ok r \<and>
    interfaces_of r = interfaces_of s"
proof -
  have t: "idv = ALLOCATED_ID s" "registry_ok t"
    "interfaces_of t = interfaces_of s @ [registered e pid u s]"
    using register_appends [OF assms(1,3-5), of pid] assms(6) by auto
  have "\<forall>x \<in> set (interfaces_of s). if_id x \<noteq> if_id (registered e pid u s)"
    using assms(2) by (auto simp: ids_fresh_def)
  then have i: "index_of idv (interfaces_of t) = Some (length (interfaces_of s))"
    unfolding t(1,3) using index_of_append_fresh by fastforce
  show ?thesis
    using remove_interface_found [OF t(2) i] t(3) shifted_out_last [of "interfaces_of t"] by auto
qed

section \<open>Examples\<close>

text \<open>A kernel whose services all succeed, and two registries.\<close>

definition kind_kernel :: kenv where
  "kind_kernel = \<lparr>kmem = kmalloc_max, strlen_user = (\<lambda>p. case p of PBlk b \<Rightarrow>
       word_of_nat (length (takeWhile (\<lambda>c. c \<noteq> 0) b) + 1) | _ \<Rightarrow> 0),
     strndup_user = (\<lambda>p n. PBlk (str_bytes p)),
     memdup_user = (\<lambda>p n. case p of PBlk b \<Rightarrow> PBlk (take (unat n) b) | _ \<Rightarrow> PErr (- 14)),
     copy_to_user = (\<lambda>p b. 0), proc_create = (\<lambda>tr s. Some (length tr)),
     proc_mkdir = (\<lambda>tr. Some (length tr)), netlink_kernel_create = (\<lambda>tr. Some (length tr)),
     nlmsg_new = (\<lambda>tr n. True), nlmsg_unicast = (\<lambda>tr k port b. 0),
     sock_create = (\<lambda>tr. Inr (length tr)), sock_setsockopt = (\<lambda>tr k. 0), sock_bind = (\<lambda>tr k. 0),
     sock_listen = (\<lambda>tr k. 0), sock_accept = (\<lambda>tr k c. 0), sock_connect = (\<lambda>tr k a. 0),
     sock_getname = (\<lambda>tr k. 0), sock_sendmsg = (\<lambda>tr k b. int (length b)),
     sock_recvmsg = (\<lambda>tr k n. (0, None, [])), alloc_chrdev_region = (\<lambda>tr. Inr (length tr)),
     class_create = (\<lambda>tr. Some (length tr)), device_create = (\<lambda>tr c n. True),
     cdev_add = (\<lambda>tr c. 0), kthread_create = (\<lambda>tr th. True),
     kthread_stop = (\<lambda>tr th. True), try_module_get = (\<lambda>tr. True)\<rparr>"

definition empty_registry :: registry where
  "empty_registry = \<lparr>heap = Map.empty, next_ptr = 1, trace = [], ALLOCATED_ID = 1,
     INTERFACE_COUNT = 0, INTERFACE_CAPACITY = 0, INTERFACE_LIST = None, KERN_NETLINK = Some 0\<rparr>"

definition stored_interface :: "u32 \<Rightarrow> interface_t" where
  "stored_interface i = (blank_interface 1 0)\<lparr>if_id := i\<rparr>"

definition three_registry :: registry where
  "three_registry = \<lparr>heap = [1 \<mapsto> stored_interface 1, 2 \<mapsto> stored_interface 2,
       3 \<mapsto> stored_interface 3], next_ptr = 4, trace = [], ALLOCATED_ID = 4, INTERFACE_COUNT = 3,
     INTERFACE_CAPACITY = 3, INTERFACE_LIST = Some [Some 1, Some 2, Some 3], KERN_NETLINK = Some 0\<rparr>"

definition user_descriptor :: interface_t where
  "user_descriptor = (blank_interface 1 0)\<lparr>arg_flags := PBlk [1]\<rparr>"

lemma kind_kernel_mem: "n \<le> 4194304 \<Longrightarrow> kmem_upto kind_kernel n"
  by (simp add: kmem_upto_def kind_kernel_def kmalloc_max_def)

lemma kind_kernel_copies: "user_strings_copied kind_kernel"
proof -
  have "length (takeWhile (\<lambda>c. c \<noteq> 0) (cstring s @ r)) = length s" if "0 \<notin> set s" for s r :: "byte list"
    using that by (auto simp: cstring_def takeWhile_append)
  then show ?thesis by (simp add: user_strings_copied_def kind_kernel_def)
qed

lemma empty_registry_ok: "registry_ok empty_registry"
  by (simp add: registry_ok_def empty_registry_def mem_wf_def slots_of_def live_slots_def
      interfaces_of_def)

lemma three_interfaces:
  "interfaces_of three_registry = [stored_interface 1, stored_interface 2, stored_interface 3]"
  by (simp add: interfaces_of_def three_registry_def live_slots_def slots_of_def)

lemma three_registry_ok: "registry_ok three_registry"
  by (simp add: registry_ok_def three_interfaces descriptor_ok_def stored_interface_def
      blank_interface_def flags_ok_def attr_array_ok_def info_0_def)
    (auto simp: three_registry_def mem_wf_def slots_of_def live_slots_def describes_def
      stored_interface_def blank_interface_def info_0_def)

lemma user_descriptor_ok: "user_descriptor_ok user_descriptor"
  by (simp add: user_descriptor_ok_def user_descriptor_def blank_interface_def attr_array_ok_def
      info_0_def)

lemma empty_register_bytes: "register_bytes user_descriptor empty_registry \<le> 4194304"
  by (simp add: register_bytes_def user_descriptor_def blank_interface_def empty_registry_def)

theorem register_interface_appends_witness:
  "\<exists>t. register_interface kind_kernel 42 user_descriptor empty_registry
      = Inr (ALLOCATED_ID empty_registry, t) \<and> registry_ok t \<and>
    interfaces_of t = interfaces_of empty_registry @
      [registered kind_kernel 42 user_descriptor empty_registry] \<and>
    ALLOCATED_ID t = ALLOCATED_ID empty_registry + 1"
  by (rule register_interface_appends [OF empty_registry_ok user_descriptor_ok
      kind_kernel_mem [OF empty_register_bytes]]) (simp add: empty_registry_def)

theorem remove_first_faults_witness: "remove_interface 1 three_registry = Inl Out_of_bounds"
  by (rule remove_first_faults [OF three_registry_ok])
    (simp_all add: three_interfaces stored_interface_def)

theorem remove_interface_shifts_witness:
  "\<exists>t. remove_interface 2 three_registry = Inr (2, t) \<and> registry_ok t \<and> interfaces_of t =
    take (Suc 0) (interfaces_of three_registry) @
    replicate (length (interfaces_of three_registry) - 2 - 0) (interfaces_of three_registry ! 0)"
  by (rule remove_interface_shifts [OF three_registry_ok])
    (simp add: three_interfaces stored_interface_def)

theorem register_then_remove_witness:
  "\<exists>idv t r. register_interface kind_kernel 42 user_descriptor empty_registry = Inr (idv, t) \<and>
    remove_interface idv t = Inr (idv, r) \<and> registry_ok r \<and>
    interfaces_of r = interfaces_of empty_registry"
proof -
  have c: "unat (INTERFACE_COUNT empty_registry) < 2 ^ 31" by (simp add: empty_registry_def)
  have f: "ids_fresh empty_registry"
    by (simp add: ids_fresh_def interfaces_of_def live_slots_def slots_of_def empty_registry_def)
  note m = kind_kernel_mem [OF empty_register_bytes]
  obtain t where t: "register_interface kind_kernel 42 user_descriptor empty_registry
      = Inr (ALLOCATED_ID empty_registry, t)"
    using register_appends [OF empty_registry_ok user_descriptor_ok m c] by blast
  from register_then_remove [OF empty_registry_ok f user_descriptor_ok m c t] t
  show ?thesis by blast
qed

end
