(* ===== verification/Sockets.thy ===== *)
theory Sockets
  imports Registry
begin

text \<open>
  \<open>module/util/socket.c\<close>: sending and receiving on a kernel socket. Both functions do nothing
  and return 0 when the socket has no \<open>sk\<close>. The length is a C \<open>int\<close> that becomes the
  \<open>size_t\<close> of the I/O vector, so a negative one is huge.
\<close>

definition size_of_int :: "int \<Rightarrow> nat" where
  "size_of_int n = nat (n mod 2 ^ 64)"

definition sock_sendto ::
  "kenv \<Rightarrow> socket_t option \<Rightarrow> u32 option \<Rightarrow> cptr \<Rightarrow> int \<Rightarrow> 'z mem_scheme \<Rightarrow>
   (int \<times> 'z mem_scheme) result" where
  "sock_sendto e sock address buf n s = (case sock of None \<Rightarrow> Inl Null_deref | Some k \<Rightarrow>
     if sk_null k then Inr (0, s) else
     bindr (mem_read buf (size_of_int n)) (\<lambda>x.
     Inr (sock_sendmsg e (trace s) (sock_no k) x, emit (Sock_sent (sock_no k) address x) s)))"

text \<open>
  \<open>sock_recvfrom\<close> on a buffer: the return code, the sender's address and the buffer
  afterwards, whose first bytes the kernel overwrote. A buffer the kernel would write past is
  out of bounds.
\<close>

definition overlay :: "byte list \<Rightarrow> byte list \<Rightarrow> byte list result" where
  "overlay x b = (if length x \<le> length b then Inr (x @ drop (length x) b) else Inl Out_of_bounds)"

definition sock_recvfrom ::
  "kenv \<Rightarrow> socket_t option \<Rightarrow> cptr \<Rightarrow> int \<Rightarrow> 'z mem_scheme \<Rightarrow>
   (int \<times> u32 option \<times> cptr \<times> 'z mem_scheme) result" where
  "sock_recvfrom e sock buf n s = (case sock of None \<Rightarrow> Inl Null_deref | Some k \<Rightarrow>
     if sk_null k then Inr (0, None, buf, s) else
     (let (r, sender, x) = sock_recvmsg e (trace s) (sock_no k) (size_of_int n);
          s = emit (Sock_received (sock_no k) (size_of_int n)) s in
      if x = [] then Inr (r, sender, buf, s) else
      bindr (mem_block buf) (\<lambda>b.
      bindr (overlay x b) (\<lambda>b.
      Inr (r, sender, PBlk b, s)))))"

lemma size_of_int_nat [simp]: "n < 2 ^ 64 \<Longrightarrow> size_of_int (int n) = n"
  by (simp add: size_of_int_def nat_mod_distrib)

lemma size_of_int_4 [simp]: "size_of_int 4 = 4"
  by (simp add: size_of_int_def)

lemma size_of_sint [simp]: "unat (w :: u32) < 2 ^ 31 \<Longrightarrow> size_of_int (sint w) = unat w"
  using size_of_int_nat [of "unat w"] unat_u32_less [of w]
  by (simp only: sint_small_u32) simp

lemma sock_sendto_open:
  "\<not> sk_null k \<Longrightarrow> mem_read buf (size_of_int n) = Inr x \<Longrightarrow>
   sock_sendto e (Some k) address buf n s =
     Inr (sock_sendmsg e (trace s) (sock_no k) x, emit (Sock_sent (sock_no k) address x) s)"
  by (simp add: sock_sendto_def)

end
