(* ===== verification/Packet_Rpc.thy ===== *)
theory Packet_Rpc
  imports Buffer Codec Interface_Types
begin

text \<open>
  The call packets of \<open>module/packet.c\<close>: \<open>id||argc||arg0.len||arg0.value...\<close>. A packet is
  the memory from the packet pointer to the end of its block; the length a caller passes
  besides it is an argument of its own. Packets carry arguments to an interface and results
  back.
\<close>

section \<open>The functions\<close>

definition serialize_rpc_packet ::
  "(nat \<Rightarrow> bool) \<Rightarrow> u32 \<Rightarrow> u32 \<Rightarrow> attr_value list option \<Rightarrow> (byte list \<times> u32) result" where
  "serialize_rpc_packet ok idv count values =
     bindr (copy_to_buffer ok (new_buffer ok) (PBlk (u32_bytes idv)) 4) (\<lambda>b.
     bindr (copy_to_buffer ok b (PBlk (u32_bytes count)) 4) (\<lambda>b.
     bindr (for_loop 0 (unat count) (\<lambda>i b.
         bindr (arr_get values i) (\<lambda>attrv.
         bindr (copy_to_buffer ok b (PBlk (u32_bytes (len attrv))) 4) (\<lambda>b.
         if len attrv \<noteq> 0 then copy_to_buffer ok b (addr attrv) (len attrv) else Inr b))) b) (\<lambda>b.
     Inr (bdata b, blen b))))"

definition rd_attr :: "(nat \<Rightarrow> bool) \<Rightarrow> byte list \<Rightarrow> (attr_value \<times> byte list) result" where
  "rd_attr ok packet =
     bindr (rd_u32 packet) (\<lambda>(n, packet).
     if n \<noteq> 0 then
       bindr (require (kgrant ok (unat n)) Null_deref) (\<lambda>_.
       bindr (rd_mem (unat n) packet) (\<lambda>(x, packet).
       Inr (\<lparr>len = n, addr = PBlk x\<rparr>, packet)))
     else Inr (\<lparr>len = n, addr = PNull\<rparr>, packet))"

definition unserialize_rpc_packet ::
  "(nat \<Rightarrow> bool) \<Rightarrow> byte list \<Rightarrow> u32 \<Rightarrow> (attr_value list \<times> u32) result" where
  "unserialize_rpc_packet ok packet packet_length =
     bindr (rd_u32 (drop 4 packet)) (\<lambda>(attrc, packet).
     bindr (require (attrc = 0 \<or> kgrant ok (unat attrc * SIZEOF_ATTR_VALUE)) Null_deref) (\<lambda>_.
     bindr (rd_list (unat attrc) (rd_attr ok) packet) (\<lambda>(attrv, _).
     Inr (attrv, attrc))))"

definition interface_id :: "byte list \<Rightarrow> u32 result" where
  "interface_id packet = bindr (rd_u32 packet) (\<lambda>(x, _). Inr x)"

section \<open>The value codec\<close>

text \<open>
  The bytes a value contributes to a packet, and the value the reader rebuilds from them:
  the same length with a copy of the bytes, and no block at all for an empty value.
\<close>

definition attr_readable :: "attr_value \<Rightarrow> bool" where
  "attr_readable v \<longleftrightarrow> mem_read (addr v) (unat (len v)) \<in> range Inr"

definition attr_bytes :: "attr_value \<Rightarrow> byte list" where
  "attr_bytes v = (case mem_read (addr v) (unat (len v)) of Inl _ \<Rightarrow> [] | Inr x \<Rightarrow> x)"

definition enc_attr :: "attr_value \<Rightarrow> byte list" where
  "enc_attr v = u32_bytes (len v) @ attr_bytes v"

definition attr_copy :: "attr_value \<Rightarrow> attr_value" where
  "attr_copy v = \<lparr>len = len v, addr = (if len v = 0 then PNull else PBlk (attr_bytes v))\<rparr>"

definition attr_owned :: "(nat \<Rightarrow> bool) \<Rightarrow> attr_value \<Rightarrow> bool" where
  "attr_owned ok v \<longleftrightarrow> (if len v = 0 then addr v = PNull
     else kgrant ok (unat (len v)) \<and> (\<exists>x. addr v = PBlk x \<and> length x = unat (len v)))"

lemma attr_readable_iff: "attr_readable v \<longleftrightarrow> mem_read (addr v) (unat (len v)) = Inr (attr_bytes v)"
  by (auto simp: attr_readable_def attr_bytes_def)

lemma attr_bytes_empty [simp]: "len v = 0 \<Longrightarrow> attr_bytes v = []"
  by (simp add: attr_bytes_def)

lemma length_attr_bytes: "attr_readable v \<Longrightarrow> length (attr_bytes v) = unat (len v)"
  by (auto simp: attr_readable_iff dest: mem_read_length)

lemma len_attr_copy [simp]: "len (attr_copy v) = len v"
  by (simp add: attr_copy_def)

declare unat_eq_0_u32 [simp]

lemma attr_bytes_copy [simp]: "attr_readable v \<Longrightarrow> attr_bytes (attr_copy v) = attr_bytes v"
  by (auto simp: attr_copy_def attr_bytes_def [of "\<lparr>len = _, addr = _\<rparr>"] length_attr_bytes)

lemma enc_attr_copy [simp]: "attr_readable v \<Longrightarrow> enc_attr (attr_copy v) = enc_attr v"
  by (simp add: enc_attr_def)

lemma attr_owned_copy:
  "attr_readable v \<Longrightarrow> kgrant ok (unat (len v)) \<Longrightarrow> attr_owned ok (attr_copy v)"
  by (auto simp: attr_owned_def attr_copy_def length_attr_bytes)

lemma attr_owned_bytes:
  "attr_owned ok v \<Longrightarrow> addr v = (if len v = 0 then PNull else PBlk (attr_bytes v))
     \<and> length (attr_bytes v) = unat (len v)"
  by (auto simp: attr_owned_def attr_bytes_def split: if_splits)

lemma attr_owned_readable: "attr_owned ok v \<Longrightarrow> attr_readable v"
  by (auto simp: attr_owned_def attr_readable_def split: if_splits)

interpretation attr_codec: canonical_codec enc_attr "rd_attr ok" "attr_owned ok" for ok
proof unfold_locales
  fix v r assume v: "attr_owned ok v"
  have "rd_attr ok (enc_attr v @ r) = Inr (\<lparr>len = len v, addr = addr v\<rparr>, r)"
    using v attr_owned_bytes [OF v] by (auto simp: rd_attr_def enc_attr_def attr_owned_def)
  then show "rd_attr ok (enc_attr v @ r) = Inr (v, r)" by simp
next
  fix p v r assume *: "rd_attr ok p = Inr (v, r)"
  then obtain n q where n: "p = u32_bytes n @ q"
    and v: "if n \<noteq> 0 then kgrant ok (unat n) \<and>
        (\<exists>x. rd_mem (unat n) q = Inr (x, r) \<and> v = \<lparr>len = n, addr = PBlk x\<rparr>)
      else v = \<lparr>len = n, addr = PNull\<rparr> \<and> q = r"
    by (auto simp: rd_attr_def bindr_eq_Inr rd_u32_eq_Inr require_eq_Inr split: if_splits)
  then show "p = enc_attr v @ r \<and> attr_owned ok v"
    by (auto simp: enc_attr_def attr_bytes_def attr_owned_def rd_mem_eq_Inr split: if_splits)
qed

section \<open>Packets\<close>

definition rpc_bytes :: "u32 \<Rightarrow> u32 \<Rightarrow> attr_value list \<Rightarrow> byte list" where
  "rpc_bytes idv count vs = u32_bytes idv @ u32_bytes count @ attr_codec.enc_list vs"

lemma enc_list_attr_copy [simp]:
  "list_all attr_readable vs \<Longrightarrow> attr_codec.enc_list (map attr_copy vs) = attr_codec.enc_list vs"
  by (induction vs) (simp_all add: attr_codec.enc_list_def)

lemma rpc_bytes_copy [simp]:
  "list_all attr_readable vs \<Longrightarrow> rpc_bytes i n (map attr_copy vs) = rpc_bytes i n vs"
  by (simp add: rpc_bytes_def)

text \<open>
  A value is sendable when its bytes can be read and are at most one buffer increment long;
  a packet fits when its length is within the room the allocator and the counters leave.
\<close>

definition attr_sendable :: "attr_value \<Rightarrow> bool" where
  "attr_sendable v \<longleftrightarrow> attr_readable v \<and> unat (len v) \<le> unat BUFFER_INC_SIZE"

definition rpc_fits :: "(nat \<Rightarrow> bool) \<Rightarrow> attr_value list \<Rightarrow> bool" where
  "rpc_fits ok vs \<longleftrightarrow> list_all attr_sendable vs \<and> length vs < 2 ^ 32 \<and>
     (\<exists>L. roomy ok L \<and> 8 + length (attr_codec.enc_list vs) \<le> L)"

lemma serialize_item:
  assumes "holds xs b" "attr_sendable v" "length xs + length (enc_attr v) \<le> L" "roomy ok L"
  shows "post (bindr (copy_to_buffer ok b (PBlk (u32_bytes (len v))) 4) (\<lambda>b.
      if len v \<noteq> 0 then copy_to_buffer ok b (addr v) (len v) else Inr b))
    (holds (xs @ enc_attr v))"
proof (rule copy_u32 [OF assms(1) _ assms(4)])
  have rd: "mem_read (addr v) (unat (len v)) = Inr (attr_bytes v)"
    and le: "unat (len v) \<le> unat BUFFER_INC_SIZE"
    using assms(2) by (simp_all add: attr_sendable_def attr_readable_iff)
  have ln: "length (attr_bytes v) = unat (len v)" by (rule mem_read_length [OF rd])
  show "length xs + 4 \<le> L" using assms(3) by (simp add: enc_attr_def)
  fix b' assume b': "holds (xs @ u32_bytes (len v)) b'"
  have "post (copy_to_buffer ok b' (addr v) (len v)) (holds ((xs @ u32_bytes (len v)) @ attr_bytes v))"
    by (rule copy_to_buffer_holds [OF b' rd le _ assms(4)])
      (use assms(3) ln in \<open>simp add: enc_attr_def\<close>)
  with b' show "post (if len v \<noteq> 0 then copy_to_buffer ok b' (addr v) (len v) else Inr b')
      (holds (xs @ enc_attr v))"
    by (auto simp: enc_attr_def)
qed

lemma serialize_rpc_ok:
  assumes "rpc_fits ok vs" and "unat count = length vs"
  shows "serialize_rpc_packet ok idv count (Some vs) =
    Inr (rpc_bytes idv count vs, word_of_nat (length (rpc_bytes idv count vs)))"
proof -
  obtain L where L: "roomy ok L" "8 + length (attr_codec.enc_list vs) \<le> L"
    using assms(1) by (auto simp: rpc_fits_def)
  let ?f = "\<lambda>i b. bindr (arr_get (Some vs) i) (\<lambda>v.
      bindr (copy_to_buffer ok b (PBlk (u32_bytes (len v))) 4) (\<lambda>b.
      if len v \<noteq> 0 then copy_to_buffer ok b (addr v) (len v) else Inr b))"
  have loop: "post (for_loop 0 (unat count) ?f b) (holds (rpc_bytes idv count vs))"
    if b: "holds (u32_bytes idv @ u32_bytes count) b" for b
  proof -
    have "post (for_loop 0 (length vs) ?f b)
        (holds ((u32_bytes idv @ u32_bytes count) @ concat (map enc_attr vs)))"
    proof (rule append_loop [OF b])
      fix j b assume j: "j < length vs"
        and b: "holds ((u32_bytes idv @ u32_bytes count) @ concat (map enc_attr (take j vs))) b"
        and le: "length (concat (map enc_attr (take j vs))) + length (enc_attr (vs ! j))
          \<le> length (concat (map enc_attr vs))"
      have "attr_sendable (vs ! j)"
        using assms(1) j by (simp add: rpc_fits_def list_all_length)
      from serialize_item [OF b this _ L(1)] L(2) le j
      show "post (?f j b) (holds (((u32_bytes idv @ u32_bytes count) @
          concat (map enc_attr (take j vs))) @ enc_attr (vs ! j)))"
        by (simp add: attr_codec.enc_list_def)
    qed
    then show ?thesis by (simp add: assms(2) rpc_bytes_def attr_codec.enc_list_def)
  qed
  have b0: "holds [] (new_buffer ok)" by (rule holds_new_buffer [OF L(1)])
  show ?thesis unfolding serialize_rpc_packet_def
    apply (rule post_eqD, rule copy_u32 [OF b0 _ L(1)], use L(2) in simp)
    apply (rule copy_u32 [OF _ _ L(1)], assumption, use L(2) in simp)
    apply (rule post_bindr [OF loop], simp)
    apply (simp add: holds_data holds_len)
    done
qed

section \<open>Reading packets back\<close>

definition attrs_granted :: "(nat \<Rightarrow> bool) \<Rightarrow> attr_value list \<Rightarrow> bool" where
  "attrs_granted ok vs \<longleftrightarrow> kgrant ok (length vs * SIZEOF_ATTR_VALUE) \<and>
     list_all (\<lambda>v. kgrant ok (unat (len v))) vs"

lemma unserialize_rpc_ok:
  assumes "list_all (attr_owned ok) vs" and "unat count = length vs"
    and "kgrant ok (length vs * SIZEOF_ATTR_VALUE)"
  shows "unserialize_rpc_packet ok (rpc_bytes idv count vs @ r) n = Inr (vs, count)"
proof -
  have "drop 4 (rpc_bytes idv count vs @ r) = u32_bytes count @ attr_codec.enc_list vs @ r"
    by (simp add: rpc_bytes_def)
  then show ?thesis
    using assms by (simp add: unserialize_rpc_packet_def attr_codec.rd_list_enc)
qed

lemma unserialize_rpc_inv:
  assumes "unserialize_rpc_packet ok p n = Inr (vs, count)"
  shows "\<exists>idv r. p = rpc_bytes idv count vs @ r \<and> list_all (attr_owned ok) vs \<and>
    unat count = length vs"
proof -
  from assms obtain q r where *: "drop 4 p = u32_bytes count @ q"
    "rd_list (unat count) (rd_attr ok) q = Inr (vs, r)"
    by (auto simp: unserialize_rpc_packet_def bindr_eq_Inr rd_u32_eq_Inr)
  from * have q: "q = attr_codec.enc_list vs @ r" "list_all (attr_owned ok) vs"
    "length vs = unat count"
    by (simp_all add: attr_codec.rd_list_iff)
  have "4 \<le> length p" using arg_cong [OF *(1), of length] by simp
  then obtain idv where "take 4 p = u32_bytes idv"
    using u32_bytes_exists by blast
  then have "p = rpc_bytes idv count vs @ r"
    by (metis *(1) append.assoc append_take_drop_id q(1) rpc_bytes_def)
  with q show ?thesis by auto
qed

lemma unserialize_rpc_granted:
  "unserialize_rpc_packet ok p n = Inr (vs, count) \<Longrightarrow> kgrant ok (length vs * SIZEOF_ATTR_VALUE)"
  by (auto simp: unserialize_rpc_packet_def bindr_eq_Inr require_eq_Inr attr_codec.rd_list_iff kgrant_def)

lemma rpc_bytes_unique:
  assumes "rpc_bytes i c vs @ r = rpc_bytes i' c' vs' @ r'"
    and "list_all (attr_owned ok) vs" "list_all (attr_owned ok) vs'"
    and "unat c = length vs" "unat c' = length vs'"
  shows "i = i' \<and> c = c' \<and> vs = vs' \<and> r = r'"
proof -
  let ?q = "\<lambda>c vs r. u32_bytes c @ attr_codec.enc_list vs @ r"
  have "u32_bytes i @ ?q c vs r = u32_bytes i' @ ?q c' vs' r'"
    using assms(1) by (simp add: rpc_bytes_def)
  then have "i = i'" and *: "?q c vs r = ?q c' vs' r'"
    using u32_codec.enc_unique by blast+
  from * have "c = c'" and **: "attr_codec.enc_list vs @ r = attr_codec.enc_list vs' @ r'"
    using u32_codec.enc_unique by blast+
  have "length vs = length vs'" using assms(4,5) \<open>c = c'\<close> by simp
  from attr_codec.enc_list_unique [OF assms(2,3) this **] \<open>i = i'\<close> \<open>c = c'\<close> show ?thesis
    by simp
qed

lemma interface_id_rpc_bytes [simp]: "interface_id (rpc_bytes i c vs @ r) = Inr i"
  by (simp add: interface_id_def rpc_bytes_def)

lemma interface_id_rpc_bytes_exact [simp]: "interface_id (rpc_bytes i c vs) = Inr i"
  using interface_id_rpc_bytes [of i c vs "[]"] by simp

lemma attr_copies_owned:
  "list_all attr_readable vs \<Longrightarrow> attrs_granted ok vs \<Longrightarrow> list_all (attr_owned ok) (map attr_copy vs)"
  by (auto simp: list_all_iff attrs_granted_def attr_owned_copy)

lemma rpc_fits_readable: "rpc_fits ok vs \<Longrightarrow> list_all attr_readable vs"
  by (auto simp: rpc_fits_def list_all_iff attr_sendable_def)

text \<open>C4: A call packet read back gives the identifier, the count and a copy of every value:
  for values of at most one buffer increment each, in a packet the allocator has room for,
  \<open>serialize_rpc_packet\<close> returns the packet with its exact length, \<open>interface_id\<close> finds the
  identifier at its start, and \<open>unserialize_rpc_packet\<close> rebuilds the values, whatever memory
  follows the packet and whatever length it is told.\<close>

theorem rpc_roundtrip:
  assumes "rpc_fits ok vs" and "attrs_granted ok vs" and "unat count = length vs"
  shows "\<exists>packet. serialize_rpc_packet ok idv count (Some vs)
        = Inr (packet, word_of_nat (length packet)) \<and>
      interface_id (packet @ rest) = Inr idv \<and>
      unserialize_rpc_packet ok (packet @ rest) n = Inr (map attr_copy vs, count)"
proof -
  have r: "list_all attr_readable vs" by (rule rpc_fits_readable [OF assms(1)])
  have "unserialize_rpc_packet ok (rpc_bytes idv count (map attr_copy vs) @ rest) n
      = Inr (map attr_copy vs, count)"
    by (rule unserialize_rpc_ok [OF attr_copies_owned [OF r assms(2)]])
      (use assms in \<open>simp_all add: attrs_granted_def\<close>)
  then show ?thesis
    using serialize_rpc_ok [OF assms(1,3)] r by auto
qed

text \<open>C5: The reader accepts the encodings and nothing else: \<open>unserialize_rpc_packet\<close> returns
  a list of values exactly when the memory at the packet pointer starts with some identifier,
  the number of the values and, for each in order, its length and its bytes, each value owns a
  block of exactly its length (none when it is empty), and the array of the values is granted.
  For values within the writer's bounds (one buffer increment each, in a packet there is room
  for) these bytes are what \<open>serialize_rpc_packet\<close> writes.\<close>

theorem rpc_accepts_only_encodings:
  "unserialize_rpc_packet ok packet n = Inr (vs, count) \<longleftrightarrow>
    (\<exists>idv bytes rest. packet = bytes @ rest \<and>
      bytes = u32_bytes idv @ u32_bytes count @ concat (map (\<lambda>v. u32_bytes (len v) @ attr_bytes v) vs) \<and>
      (rpc_fits ok vs \<longrightarrow>
        serialize_rpc_packet ok idv count (Some vs) = Inr (bytes, word_of_nat (length bytes)))) \<and>
    list_all (attr_owned ok) vs \<and> unat count = length vs \<and>
    kgrant ok (length vs * SIZEOF_ATTR_VALUE)"
proof
  have enc: "u32_bytes i @ u32_bytes c @ concat (map (\<lambda>v. u32_bytes (len v) @ attr_bytes v) vs)
      = rpc_bytes i c vs" for i c
  proof -
    have "map (\<lambda>v. u32_bytes (len v) @ attr_bytes v) vs = map enc_attr vs" by (simp add: enc_attr_def)
    then show ?thesis by (simp only: rpc_bytes_def attr_codec.enc_list_def)
  qed
  {
    assume u: "unserialize_rpc_packet ok packet n = Inr (vs, count)"
    from unserialize_rpc_inv [OF u] show "(\<exists>idv bytes rest. packet = bytes @ rest \<and>
        bytes = u32_bytes idv @ u32_bytes count @ concat (map (\<lambda>v. u32_bytes (len v) @ attr_bytes v) vs) \<and>
        (rpc_fits ok vs \<longrightarrow>
          serialize_rpc_packet ok idv count (Some vs) = Inr (bytes, word_of_nat (length bytes)))) \<and>
      list_all (attr_owned ok) vs \<and> unat count = length vs \<and> kgrant ok (length vs * SIZEOF_ATTR_VALUE)"
      unfolding enc using serialize_rpc_ok unserialize_rpc_granted [OF u] by metis
  next
    assume *: "(\<exists>idv bytes rest. packet = bytes @ rest \<and>
        bytes = u32_bytes idv @ u32_bytes count @ concat (map (\<lambda>v. u32_bytes (len v) @ attr_bytes v) vs) \<and>
        (rpc_fits ok vs \<longrightarrow>
          serialize_rpc_packet ok idv count (Some vs) = Inr (bytes, word_of_nat (length bytes)))) \<and>
      list_all (attr_owned ok) vs \<and> unat count = length vs \<and> kgrant ok (length vs * SIZEOF_ATTR_VALUE)"
    then show "unserialize_rpc_packet ok packet n = Inr (vs, count)"
      unfolding enc using unserialize_rpc_ok by blast
  }
qed

text \<open>A truncated packet is never accepted, and never reported either: the reader does not
  look at the length it is given, and on every proper prefix of a packet it runs into a fault,
  a read past the end of the block.\<close>

theorem rpc_truncated_faults:
  assumes "rpc_fits ok vs" and "attrs_granted ok vs" and "unat count = length vs"
    and "serialize_rpc_packet ok idv count (Some vs) = Inr (packet, m)" and "k < length packet"
  shows "\<exists>f. unserialize_rpc_packet ok (take k packet) n = Inl f"
proof (cases "unserialize_rpc_packet ok (take k packet) n")
  case (Inr res)
  obtain vs' c where "res = (vs', c)" by (cases res)
  have r: "list_all attr_readable vs" by (rule rpc_fits_readable [OF assms(1)])
  have p: "packet = rpc_bytes idv count (map attr_copy vs)"
    using serialize_rpc_ok [OF assms(1,3)] assms(4) r by simp
  from Inr \<open>res = (vs', c)\<close> unserialize_rpc_inv obtain i q where
    *: "take k packet = rpc_bytes i c vs' @ q" "list_all (attr_owned ok) vs'" "unat c = length vs'"
    by blast
  from *(1) have "rpc_bytes idv count (map attr_copy vs) @ [] = rpc_bytes i c vs' @ (q @ drop k packet)"
    by (metis append.assoc append_Nil2 append_take_drop_id p)
  from rpc_bytes_unique [OF this attr_copies_owned [OF r assms(2)] *(2) _ *(3)] assms(3,5)
  show ?thesis by simp
qed simp

text \<open>C37: The buffer grows by one increment per call only: a first value of more than 131060
  bytes is copied past the end of the block.\<close>

theorem rpc_large_value_overflows:
  assumes "attr_readable v" and "131060 < unat (len v)" and "unat (len v) < 2 ^ 32 - 12"
    and "kgrant ok 65536" and "kgrant ok 131072" and "0 < count"
  shows "serialize_rpc_packet ok idv count (Some (v # vs)) = Inl Out_of_bounds"
proof -
  have ok: "roomy (\<lambda>n. True) 12" by (simp add: roomy_def)
  define b where "b = \<lparr>bdata = u32_bytes idv @ u32_bytes count @ u32_bytes (len v), blen = 12,
     bmax = 65536, bcap = Some 65536\<rparr>"
  have nz: "len v \<noteq> 0" using assms(2) by auto
  have "copy_to_buffer ok b (addr v) (len v) = Inl Out_of_bounds"
    by (rule copy_to_buffer_overflow [where xs = "bdata b"])
      (use assms nz in \<open>simp_all add: b_def holds_def attr_readable_iff word_gt_0 word_less_nat_alt\<close>)
  moreover have "unat count = Suc (unat count - 1)"
    using assms(6) by (simp add: word_less_nat_alt)
  then obtain m where "unat count = Suc m" by blast
  moreover have "new_buffer ok = \<lparr>bdata = [], blen = 0, bmax = 65536, bcap = Some 65536\<rparr>"
    using assms(4) by (simp add: new_buffer_def kalloc_def)
  ultimately show ?thesis
    using nz by (simp add: serialize_rpc_packet_def copy_to_buffer_def [of ok _ "PBlk _"]
      mem_write_def b_def del: copy_to_buffer_def)
qed

section \<open>Examples\<close>

text \<open>Two values, one of them empty, with the allocator \<open>kmalloc_max\<close>.\<close>

definition two_values :: "attr_value list" where
  "two_values = [\<lparr>len = 3, addr = PBlk [1, 2, 3, 4]\<rparr>, \<lparr>len = 0, addr = PUninit\<rparr>]"

lemma rpc_fits_two_values: "rpc_fits kmalloc_max two_values"
  by (auto simp: rpc_fits_def two_values_def attr_sendable_def attr_readable_def enc_attr_def
      attr_codec.enc_list_def attr_bytes_def intro!: exI [of _ 64] roomy_kmalloc_max)

lemma attrs_granted_two_values: "attrs_granted kmalloc_max two_values"
  by (simp add: attrs_granted_def two_values_def kgrant_def kmalloc_max_def)

lemma length_two_values: "unat (2 :: u32) = length two_values"
  by (simp add: two_values_def)

lemma two_values_packet: "serialize_rpc_packet kmalloc_max 7 2 (Some two_values)
  = Inr ([7,0,0,0, 2,0,0,0, 3,0,0,0, 1,2,3, 0,0,0,0], 19)"
  by (simp add: serialize_rpc_ok [OF rpc_fits_two_values length_two_values])
    (simp add: rpc_bytes_def two_values_def enc_attr_def attr_codec.enc_list_def attr_bytes_def
      u32_bytes_def drop_bit_eq_div)

theorem rpc_roundtrip_witness:
  "\<exists>packet. serialize_rpc_packet kmalloc_max 7 2 (Some two_values)
      = Inr (packet, word_of_nat (length packet)) \<and>
    interface_id (packet @ [9]) = Inr 7 \<and>
    unserialize_rpc_packet kmalloc_max (packet @ [9]) 19 = Inr (map attr_copy two_values, 2)"
  by (rule rpc_roundtrip [OF rpc_fits_two_values attrs_granted_two_values length_two_values])

theorem rpc_truncated_faults_witness:
  "\<exists>f. unserialize_rpc_packet kmalloc_max
     (take 10 [7,0,0,0, 2,0,0,0, 3,0,0,0, 1,2,3, 0,0,0,0]) 19 = Inl f"
  by (rule rpc_truncated_faults [OF rpc_fits_two_values attrs_granted_two_values length_two_values
      two_values_packet]) simp

theorem rpc_accepts_only_encodings_witness:
  "\<exists>idv bytes rest. [7,0,0,0, 1,0,0,0, 2,0,0,0, 5,6, 99] = bytes @ rest \<and>
    serialize_rpc_packet kmalloc_max idv 1 (Some [\<lparr>len = 2, addr = PBlk [5, 6]\<rparr>])
      = Inr (bytes, word_of_nat (length bytes))"
proof -
  let ?vs = "[\<lparr>len = 2, addr = PBlk [5, 6]\<rparr>]"
  have u: "unserialize_rpc_packet kmalloc_max [7,0,0,0, 1,0,0,0, 2,0,0,0, 5,6, 99] 15 = Inr (?vs, 1)"
    by (simp add: unserialize_rpc_packet_def rd_attr_def bytes_u32_def rd_mem_def kgrant_def
        kmalloc_max_def)
  have "rpc_fits kmalloc_max ?vs"
    by (auto simp: rpc_fits_def attr_sendable_def attr_readable_def enc_attr_def
        attr_codec.enc_list_def attr_bytes_def intro!: exI [of _ 64] roomy_kmalloc_max)
  with u [unfolded rpc_accepts_only_encodings] show ?thesis by blast
qed

theorem rpc_large_value_overflows_witness:
  "serialize_rpc_packet kmalloc_max 7 1 (Some [\<lparr>len = 131061, addr = PBlk (replicate 131061 0)\<rparr>])
    = Inl Out_of_bounds"
  by (rule rpc_large_value_overflows) (simp_all add: attr_readable_def kgrant_def kmalloc_max_def)

end
