(* ===== verification/Packet_Info.thy ===== *)
theory Packet_Info
  imports Buffer Codec Interface_Types
begin

text \<open>
  The description packets of \<open>module/packet.c\<close>: \<open>id||name||desc||argc||arg0desc...||retc||ret0desc...\<close>,
  with every string NUL-terminated. \<open>serialize_interface_info\<close> returns an error code for a
  missing string, so its result is a code or a packet.
\<close>

section \<open>The functions\<close>

definition dup_str :: "(nat \<Rightarrow> bool) \<Rightarrow> byte list \<Rightarrow> cptr result" where
  "dup_str ok src =
     bindr (cstrlen src) (\<lambda>n.
     let length = word_of_nat n :: u32 in
     bindr (require (kgrant ok (unat (length + 1))) Null_deref) (\<lambda>_.
     bindr (require (Suc n \<le> unat (length + 1)) Out_of_bounds) (\<lambda>_.
     Inr (PBlk (take (Suc n) src)))))"

definition copy_str :: "(nat \<Rightarrow> bool) \<Rightarrow> dbuf \<Rightarrow> cptr \<Rightarrow> stop + dbuf" where
  "copy_str ok b str =
     (if str = PNull then Inl (Return (-1)) else
      bindr (may (strlen str)) (\<lambda>n. may (copy_to_buffer ok b str (word_of_nat (n + 1)))))"

definition copy_attr_infos ::
  "(nat \<Rightarrow> bool) \<Rightarrow> u32 \<Rightarrow> attr_info list option \<Rightarrow> dbuf \<Rightarrow> stop + dbuf" where
  "copy_attr_infos ok count infos b =
     for_loop 0 (unat count) (\<lambda>i b.
       bindr (may (arr_get infos i)) (\<lambda>a.
       bindr (copy_str ok b (attr_name a)) (\<lambda>b.
       copy_str ok b (attr_description a)))) b"

definition serialize_interface_info ::
  "(nat \<Rightarrow> bool) \<Rightarrow> u32 \<Rightarrow> u32 \<Rightarrow> u32 \<Rightarrow> info_t \<Rightarrow> (int + byte list \<times> u32) result" where
  "serialize_interface_info ok idv argcv retcv infop = leave (
     bindr (may (copy_to_buffer ok (new_buffer ok) (PBlk (u32_bytes idv)) 4)) (\<lambda>b.
     bindr (copy_str ok b (info_name infop)) (\<lambda>b.
     bindr (copy_str ok b (info_description infop)) (\<lambda>b.
     bindr (may (copy_to_buffer ok b (PBlk (u32_bytes argcv)) 4)) (\<lambda>b.
     bindr (copy_attr_infos ok argcv (arg_info infop) b) (\<lambda>b.
     bindr (may (copy_to_buffer ok b (PBlk (u32_bytes retcv)) 4)) (\<lambda>b.
     bindr (copy_attr_infos ok argcv (ret_info infop) b) (\<lambda>b.
     Inr (bdata b, blen b)))))))))"

definition rd_str :: "(nat \<Rightarrow> bool) \<Rightarrow> byte list \<Rightarrow> (cptr \<times> byte list) result" where
  "rd_str ok packet =
     bindr (dup_str ok packet) (\<lambda>str.
     bindr (strlen str) (\<lambda>n. Inr (str, drop (n + 1) packet)))"

definition rd_attr_info :: "(nat \<Rightarrow> bool) \<Rightarrow> byte list \<Rightarrow> (attr_info \<times> byte list) result" where
  "rd_attr_info ok packet =
     bindr (rd_str ok packet) (\<lambda>(name, packet).
     bindr (rd_str ok packet) (\<lambda>(description, packet).
     Inr (\<lparr>attr_name = name, attr_description = description\<rparr>, packet)))"

definition rd_attr_infos :: "(nat \<Rightarrow> bool) \<Rightarrow> byte list \<Rightarrow> (attr_info list \<times> byte list) result" where
  "rd_attr_infos ok packet =
     bindr (rd_u32 packet) (\<lambda>(count, packet).
     bindr (require (count = 0 \<or> kgrant ok (SIZEOF_ATTR_INFO * unat count)) Null_deref) (\<lambda>_.
     rd_list (unat count) (rd_attr_info ok) packet))"

definition unserialize_interface_info :: "(nat \<Rightarrow> bool) \<Rightarrow> byte list \<Rightarrow> u32 \<Rightarrow> info_t result" where
  "unserialize_interface_info ok packet packet_length =
     bindr (require (kgrant ok SIZEOF_INFO) Null_deref) (\<lambda>_.
     bindr (rd_str ok (drop 4 packet)) (\<lambda>(name, packet).
     bindr (rd_str ok packet) (\<lambda>(description, packet).
     bindr (rd_attr_infos ok packet) (\<lambda>(args, packet).
     bindr (rd_attr_infos ok packet) (\<lambda>(rets, packet).
     Inr \<lparr>info_name = name, info_description = description, arg_info = Some args,
       ret_info = Some rets\<rparr>)))))"

section \<open>Codecs for strings and descriptions\<close>

definition str_owned :: "(nat \<Rightarrow> bool) \<Rightarrow> cptr \<Rightarrow> bool" where
  "str_owned ok p \<longleftrightarrow> p = PBlk (str_bytes p) \<and> str_bytes p \<noteq> [] \<and>
     length (str_bytes p) < 2 ^ 32 \<and> kgrant ok (length (str_bytes p))"

definition enc_attr_info :: "attr_info \<Rightarrow> byte list" where
  "enc_attr_info a = str_bytes (attr_name a) @ str_bytes (attr_description a)"

definition attr_info_owned :: "(nat \<Rightarrow> bool) \<Rightarrow> attr_info \<Rightarrow> bool" where
  "attr_info_owned ok a \<longleftrightarrow> str_owned ok (attr_name a) \<and> str_owned ok (attr_description a)"

lemma str_bytes_cases:
  obtains "str_bytes p = []" | s where "str_bytes p = cstring s" "0 \<notin> set s"
proof (cases p)
  case (PBlk b)
  then show ?thesis
    using that by (cases "0 \<in> set b") (auto simp: str_bytes_def dest: set_takeWhileD)
qed (use that in \<open>auto simp: str_bytes_def\<close>)

lemma dup_str_cstring:
  assumes "0 \<notin> set s" and "Suc (length s) < 2 ^ 32" and "kgrant ok (Suc (length s))"
  shows "dup_str ok (cstring s @ r) = Inr (PBlk (cstring s))"
proof -
  have "unat (word_of_nat (length s) + 1 :: u32) = Suc (length s)"
    using assms(2) by (simp add: unat_word_ariths unat_of_nat)
  with assms show ?thesis by (simp add: dup_str_def)
qed

lemma dup_str_eq_Inr:
  assumes "dup_str ok p = Inr q"
  shows "\<exists>s r. p = cstring s @ r \<and> q = PBlk (cstring s) \<and> 0 \<notin> set s \<and>
    Suc (length s) < 2 ^ 32 \<and> kgrant ok (Suc (length s))"
proof -
  from assms obtain n where n: "cstrlen p = Inr n" "kgrant ok (unat (word_of_nat n + 1 :: u32))"
    "Suc n \<le> unat (word_of_nat n + 1 :: u32)" "q = PBlk (take (Suc n) p)"
    by (auto simp: dup_str_def bindr_eq_Inr require_eq_Inr Let_def)
  have lt: "unat (word_of_nat n + 1 :: u32) < 2 ^ 32"
    using unsigned_less [of "word_of_nat n + 1 :: u32"] by simp
  then have "unat (word_of_nat n + 1 :: u32) = Suc n"
    using n(3) by (simp add: unat_word_ariths unat_of_nat)
  with n lt obtain s r where "p = cstring s @ r" "0 \<notin> set s" "length s = n"
    by (auto simp: cstrlen_eq_Inr)
  with n lt \<open>unat (word_of_nat n + 1 :: u32) = Suc n\<close> show ?thesis by auto
qed

interpretation str_codec: canonical_codec str_bytes "rd_str ok" "str_owned ok" for ok
proof unfold_locales
  fix p r assume p: "str_owned ok p"
  then obtain s where s: "str_bytes p = cstring s" "0 \<notin> set s"
    unfolding str_owned_def by (metis str_bytes_cases)
  with p have "dup_str ok (cstring s @ r) = Inr (PBlk (cstring s))"
    by (auto simp: str_owned_def intro!: dup_str_cstring)
  with p s show "rd_str ok (str_bytes p @ r) = Inr (p, r)"
    by (simp add: rd_str_def str_owned_def)
next
  fix p q r assume "rd_str ok p = Inr (q, r)"
  then obtain n where *: "dup_str ok p = Inr q" "strlen q = Inr n" "r = drop (n + 1) p"
    by (auto simp: rd_str_def bindr_eq_Inr)
  from dup_str_eq_Inr [OF *(1)] obtain s t where
    "p = cstring s @ t" "q = PBlk (cstring s)" "0 \<notin> set s"
    "Suc (length s) < 2 ^ 32" "kgrant ok (Suc (length s))" by blast
  with * show "p = str_bytes q @ r \<and> str_owned ok q"
    by (auto simp: str_owned_def)
qed

interpretation attr_info_codec: canonical_codec enc_attr_info "rd_attr_info ok" "attr_info_owned ok"
  for ok
proof unfold_locales
  fix a r assume "attr_info_owned ok a"
  then show "rd_attr_info ok (enc_attr_info a @ r) = Inr (a, r)"
    by (simp add: rd_attr_info_def enc_attr_info_def attr_info_owned_def str_codec.dec_enc)
next
  fix p a r assume "rd_attr_info ok p = Inr (a, r)"
  then show "p = enc_attr_info a @ r \<and> attr_info_owned ok a"
    by (auto simp: rd_attr_info_def bindr_eq_Inr str_codec.dec_iff enc_attr_info_def
      attr_info_owned_def)
qed

section \<open>Writing descriptions\<close>

definition str_sendable :: "cptr \<Rightarrow> bool" where
  "str_sendable p \<longleftrightarrow> (\<exists>n. strlen p = Inr n \<and> Suc n \<le> unat BUFFER_INC_SIZE)"

definition attr_info_sendable :: "attr_info \<Rightarrow> bool" where
  "attr_info_sendable a \<longleftrightarrow> str_sendable (attr_name a) \<and> str_sendable (attr_description a)"

definition info_bytes :: "u32 \<Rightarrow> u32 \<Rightarrow> u32 \<Rightarrow> cptr \<Rightarrow> cptr \<Rightarrow> attr_info list \<Rightarrow> attr_info list \<Rightarrow> byte list"
where
  "info_bytes idv argcv retcv name desc args rets = u32_bytes idv @ str_bytes name @ str_bytes desc
     @ u32_bytes argcv @ attr_info_codec.enc_list args
     @ u32_bytes retcv @ attr_info_codec.enc_list rets"

definition info_fits :: "(nat \<Rightarrow> bool) \<Rightarrow> cptr \<Rightarrow> cptr \<Rightarrow> attr_info list \<Rightarrow> attr_info list \<Rightarrow> bool" where
  "info_fits ok name desc args rets \<longleftrightarrow> str_sendable name \<and> str_sendable desc \<and>
     list_all attr_info_sendable args \<and> list_all attr_info_sendable rets \<and>
     (\<exists>L. roomy ok L \<and> length (info_bytes 0 0 0 name desc args rets) \<le> L)"

lemma copy_str_holds:
  assumes "holds xs b" "str_sendable p" "length xs + length (str_bytes p) \<le> L" "roomy ok L"
  shows "post (copy_str ok b p) (holds (xs @ str_bytes p))"
proof -
  obtain n where n: "strlen p = Inr n" "Suc n \<le> unat BUFFER_INC_SIZE"
    using assms(2) by (auto simp: str_sendable_def)
  have u: "unat (word_of_nat (n + 1) :: u32) = Suc n"
    using n(2) by (simp add: unat_word_ariths unat_of_nat)
  have "mem_read p (Suc n) = Inr (str_bytes p)" "length (str_bytes p) = Suc n"
    using strlen_mem_read [OF n(1)] by simp_all
  then have "post (copy_to_buffer ok b p (word_of_nat (n + 1))) (holds (xs @ str_bytes p))"
    by (intro copy_to_buffer_holds [OF assms(1) _ _ _ assms(4)]) (use u n(2) assms(3) in simp_all)
  moreover have "p \<noteq> PNull" using n(1) by (auto simp: strlen_eq_Inr)
  ultimately show ?thesis using n(1) by (simp add: copy_str_def)
qed

lemmas copy_str_step = post_bindr [OF copy_str_holds]

lemma copy_attr_infos_holds:
  assumes "holds xs b" "list_all attr_info_sendable infos"
    and "length xs + length (attr_info_codec.enc_list infos) \<le> L" "roomy ok L"
    and "unat n = length infos"
  shows "post (copy_attr_infos ok n (Some (infos @ tl1)) b)
    (holds (xs @ attr_info_codec.enc_list infos))"
  unfolding copy_attr_infos_def assms(5) attr_info_codec.enc_list_def
proof (rule append_loop [OF assms(1)])
  fix j b assume j: "j < length infos"
    and b: "holds (xs @ concat (map enc_attr_info (take j infos))) b"
    and le: "length (concat (map enc_attr_info (take j infos))) + length (enc_attr_info (infos ! j))
      \<le> length (concat (map enc_attr_info infos))"
  let ?a = "infos ! j"
  have s: "str_sendable (attr_name ?a)" "str_sendable (attr_description ?a)"
    using assms(2) j by (simp_all add: list_all_length attr_info_sendable_def)
  have le: "length (xs @ concat (map enc_attr_info (take j infos))) + length (enc_attr_info ?a) \<le> L"
    using le assms(3) by (simp add: attr_info_codec.enc_list_def)
  have "post (bindr (copy_str ok b (attr_name ?a)) (\<lambda>b. copy_str ok b (attr_description ?a)))
      (holds ((xs @ concat (map enc_attr_info (take j infos))) @ enc_attr_info ?a))"
    by (rule copy_str_step [OF b s(1) _ assms(4)], use le in \<open>simp add: enc_attr_info_def\<close>,
        rule post_mono [OF copy_str_holds [OF _ s(2) _ assms(4)]], assumption)
      (use le in \<open>simp_all add: enc_attr_info_def\<close>)
  then show "post (bindr (may (arr_get (Some (infos @ tl1)) j)) (\<lambda>a.
        bindr (copy_str ok b (attr_name a)) (\<lambda>b. copy_str ok b (attr_description a))))
      (holds ((xs @ concat (map enc_attr_info (take j infos))) @ enc_attr_info ?a))"
    using j by (simp add: nth_append)
qed

lemmas copy_attr_infos_step = post_bindr [OF copy_attr_infos_holds]

lemma serialize_info_ok:
  assumes "info_fits ok name desc args rets"
    and "unat argcv = length args" and "length args = length rets"
  shows "serialize_interface_info ok idv argcv retcv
      \<lparr>info_name = name, info_description = desc, arg_info = Some (args @ tl1),
        ret_info = Some (rets @ tl2)\<rparr>
    = Inr (Inr (info_bytes idv argcv retcv name desc args rets,
        word_of_nat (length (info_bytes idv argcv retcv name desc args rets))))"
proof -
  obtain L where L: "roomy ok L" "length (info_bytes 0 0 0 name desc args rets) \<le> L"
    and s: "str_sendable name" "str_sendable desc" "list_all attr_info_sendable args"
      "list_all attr_info_sendable rets"
    using assms(1) by (auto simp: info_fits_def)
  have rets: "unat argcv = length rets" using assms(2,3) by simp
  have b0: "holds [] (new_buffer ok)" by (rule holds_new_buffer [OF L(1)])
  note sz = L(2) [unfolded info_bytes_def, simplified]
  have lv: "m = Inr x \<Longrightarrow> leave m = Inr (Inr x)" for m :: "stop + 'a" and x by simp
  show ?thesis unfolding serialize_interface_info_def info_t.simps
    apply (rule lv, rule post_eqD)
    apply (rule may_copy_u32 [OF b0 _ L(1)], use sz in simp)
    apply (rule copy_str_step [OF _ s(1) _ L(1)], assumption, use sz in simp)
    apply (rule copy_str_step [OF _ s(2) _ L(1)], assumption, use sz in simp)
    apply (rule may_copy_u32 [OF _ _ L(1)], assumption, use sz in simp)
    apply (rule copy_attr_infos_step [OF _ s(3) _ L(1) assms(2)], assumption, use sz in simp)
    apply (rule may_copy_u32 [OF _ _ L(1)], assumption, use sz in simp)
    apply (rule copy_attr_infos_step [OF _ s(4) _ L(1) rets], assumption, use sz in simp)
    apply (simp add: holds_data holds_len info_bytes_def)
    done
qed

section \<open>Reading descriptions back\<close>

definition str_copy :: "cptr \<Rightarrow> cptr" where
  "str_copy p = PBlk (str_bytes p)"

definition attr_info_copy :: "attr_info \<Rightarrow> attr_info" where
  "attr_info_copy a =
     \<lparr>attr_name = str_copy (attr_name a), attr_description = str_copy (attr_description a)\<rparr>"

lemma str_sendable_bytes:
  "str_sendable p \<Longrightarrow> str_bytes p \<noteq> [] \<and> length (str_bytes p) \<le> 65536 \<and>
     str_bytes (str_copy p) = str_bytes p"
  by (auto simp: str_sendable_def str_copy_def strlen_eq_Inr)

lemma str_copy_owned: "str_sendable p \<Longrightarrow> roomy ok L \<Longrightarrow> str_owned ok (str_copy p)"
  using str_sendable_bytes [of p] roomy_grants [of ok L "length (str_bytes p)"]
  by (auto simp: str_owned_def) (simp add: str_copy_def)

lemma attr_info_copies_owned:
  "list_all attr_info_sendable as \<Longrightarrow> roomy ok L \<Longrightarrow>
   list_all (attr_info_owned ok) (map attr_info_copy as)"
  by (auto simp: list_all_iff attr_info_sendable_def attr_info_owned_def attr_info_copy_def
    intro: str_copy_owned)

lemma enc_list_info_copies:
  "list_all attr_info_sendable as \<Longrightarrow>
   attr_info_codec.enc_list (map attr_info_copy as) = attr_info_codec.enc_list as"
  by (induction as) (simp_all add: attr_info_sendable_def enc_attr_info_def attr_info_copy_def
    str_sendable_bytes)

lemma rd_attr_infos_eq_Inr:
  "rd_attr_infos ok p = Inr (as, r) \<longleftrightarrow> (\<exists>n. p = u32_bytes n @ attr_info_codec.enc_list as @ r \<and>
     list_all (attr_info_owned ok) as \<and> length as = unat n \<and>
     kgrant ok (SIZEOF_ATTR_INFO * unat n))"
  by (auto simp: rd_attr_infos_def bindr_eq_Inr rd_u32_eq_Inr require_eq_Inr
    attr_info_codec.rd_list_iff)

lemma unserialize_info_eq_Inr:
  "unserialize_interface_info ok p n = Inr x \<longleftrightarrow> kgrant ok SIZEOF_INFO \<and>
     (\<exists>argcv retcv args rets r.
        drop 4 p = str_bytes (info_name x) @ str_bytes (info_description x) @
          u32_bytes argcv @ attr_info_codec.enc_list args @
          u32_bytes retcv @ attr_info_codec.enc_list rets @ r \<and>
        str_owned ok (info_name x) \<and> str_owned ok (info_description x) \<and>
        arg_info x = Some args \<and> list_all (attr_info_owned ok) args \<and> length args = unat argcv \<and>
        ret_info x = Some rets \<and> list_all (attr_info_owned ok) rets \<and> length rets = unat retcv \<and>
        kgrant ok (SIZEOF_ATTR_INFO * unat argcv) \<and> kgrant ok (SIZEOF_ATTR_INFO * unat retcv))"
  (is "?L \<longleftrightarrow> ?R")
proof
  assume ?L then show ?R
    by (force simp: unserialize_interface_info_def bindr_eq_Inr require_eq_Inr str_codec.dec_iff
      rd_attr_infos_eq_Inr)
next
  assume ?R then show ?L
    by (cases x) (fastforce simp: unserialize_interface_info_def bindr_eq_Inr require_eq_Inr
      str_codec.dec_iff rd_attr_infos_eq_Inr)
qed

definition infos_granted :: "(nat \<Rightarrow> bool) \<Rightarrow> nat \<Rightarrow> bool" where
  "infos_granted ok n \<longleftrightarrow> kgrant ok SIZEOF_INFO \<and> kgrant ok (SIZEOF_ATTR_INFO * n)"

text \<open>C7: A description read back is the description written, string by string, when the
  interface has as many results as arguments: \<open>serialize_interface_info\<close> succeeds and
  \<open>unserialize_interface_info\<close> rebuilds copies of the name, the description and both lists.\<close>

theorem info_roundtrip:
  assumes "info_fits ok name desc args rets" and "infos_granted ok (length args)"
    and "unat argcv = length args" and "length args = length rets"
  shows "\<exists>packet. serialize_interface_info ok idv argcv argcv
        \<lparr>info_name = name, info_description = desc, arg_info = Some args, ret_info = Some rets\<rparr>
        = Inr (Inr (packet, word_of_nat (length packet))) \<and>
      unserialize_interface_info ok (packet @ rest) n = Inr
        \<lparr>info_name = str_copy name, info_description = str_copy desc,
         arg_info = Some (map attr_info_copy args), ret_info = Some (map attr_info_copy rets)\<rparr>"
proof -
  obtain L where L: "roomy ok L"
    and s: "str_sendable name" "str_sendable desc" "list_all attr_info_sendable args"
      "list_all attr_info_sendable rets"
    using assms(1) by (auto simp: info_fits_def)
  have "unserialize_interface_info ok (info_bytes idv argcv argcv name desc args rets @ rest) n = Inr
      \<lparr>info_name = str_copy name, info_description = str_copy desc,
       arg_info = Some (map attr_info_copy args), ret_info = Some (map attr_info_copy rets)\<rparr>"
    unfolding unserialize_info_eq_Inr
    using assms(2-4) s str_copy_owned [OF s(1) L] str_copy_owned [OF s(2) L]
      attr_info_copies_owned [OF s(3) L] attr_info_copies_owned [OF s(4) L]
    by (auto simp: info_bytes_def infos_granted_def enc_list_info_copies str_sendable_bytes)
  then show ?thesis
    using serialize_info_ok [OF assms(1,3,4), where ?tl1.0 = "[]" and ?tl2.0 = "[]"] by auto
qed

lemma copy_attr_infos_short:
  assumes "holds xs b" "list_all attr_info_sendable infos"
    and "length xs + length (attr_info_codec.enc_list infos) \<le> L" "roomy ok L"
    and "length infos < unat n"
  shows "copy_attr_infos ok n (Some infos) b = Inl (Fault Out_of_bounds)"
proof -
  let ?f = "\<lambda>i b. bindr (may (arr_get (Some infos) i)) (\<lambda>a.
      bindr (copy_str ok b (attr_name a)) (\<lambda>b. copy_str ok b (attr_description a)))"
  define k where "k = unat n - Suc (length infos)"
  have n: "unat n = length infos + Suc k" using assms(5) by (simp add: k_def)
  have "unat (word_of_nat (length infos) :: u32) = length infos"
    using assms(5) unat_u32_less [of n] by (simp add: unat_of_nat_u32)
  with copy_attr_infos_holds [OF assms(1-4), of "word_of_nat (length infos)" "[]"]
  have "post (for_loop 0 (length infos) ?f b) (holds (xs @ attr_info_codec.enc_list infos))"
    by (simp add: copy_attr_infos_def)
  then have "bindr (for_loop 0 (length infos) ?f b) (for_loop (length infos) (Suc k) ?f)
      = Inl (Fault Out_of_bounds)"
    by (rule bindr_fails) simp
  then show ?thesis
    by (simp only: copy_attr_infos_def n for_loop_append add_0)
qed

lemma bindr_Inl_of: "m = Inl e \<Longrightarrow> bindr m k = Inl e"
  by simp

text \<open>The result descriptions are counted with the number of arguments: for an interface with
  fewer results than arguments, \<open>serialize_interface_info\<close> reads past the end of the array of
  result descriptions.\<close>

theorem info_more_args_faults:
  assumes "info_fits ok name desc args rets"
    and "unat argcv = length args" and "length rets < length args"
  shows "serialize_interface_info ok idv argcv retcv
      \<lparr>info_name = name, info_description = desc, arg_info = Some args, ret_info = Some rets\<rparr>
    = Inl Out_of_bounds"
proof -
  obtain L where L: "roomy ok L" "length (info_bytes 0 0 0 name desc args rets) \<le> L"
    and s: "str_sendable name" "str_sendable desc" "list_all attr_info_sendable args"
      "list_all attr_info_sendable rets"
    using assms(1) by (auto simp: info_fits_def)
  have b0: "holds [] (new_buffer ok)" by (rule holds_new_buffer [OF L(1)])
  note sz = L(2) [unfolded info_bytes_def, simplified]
  have lv: "m = Inl (Fault f) \<Longrightarrow> leave m = Inl f" for m :: "stop + 'a" and f by simp
  show ?thesis unfolding serialize_interface_info_def info_t.simps
    apply (rule lv, rule bindr_fails, simp, rule copy_u32_holds [OF b0 _ L(1)], use sz in simp)
    apply (rule bindr_fails, rule copy_str_holds [OF _ s(1) _ L(1)], assumption, use sz in simp)
    apply (rule bindr_fails, rule copy_str_holds [OF _ s(2) _ L(1)], assumption, use sz in simp)
    apply (rule bindr_fails, simp, rule copy_u32_holds [OF _ _ L(1)], simp, use sz in simp)
    apply (rule bindr_fails, rule copy_attr_infos_holds [where ?tl1.0 = "[]", simplified,
          OF _ s(3) _ L(1) assms(2)], assumption, use sz in simp)
    apply (rule bindr_fails, simp, rule copy_u32_holds [OF _ _ L(1)], simp, use sz in simp)
    apply (rule bindr_Inl_of, rule copy_attr_infos_short [OF _ s(4) _ L(1)], assumption)
    using sz assms(2,3) apply simp_all
    done
qed

text \<open>
  Two descriptions with the same bytes have the same parts, as long as the strings and the
  counts delimit them.
\<close>

lemma info_bytes_split:
  assumes "str_bytes a @ str_bytes b @ u32_bytes m @ attr_info_codec.enc_list as @ p =
      str_bytes a' @ str_bytes b' @ u32_bytes m' @ attr_info_codec.enc_list as' @ p'"
    and "str_owned ok a" "str_owned ok b" "str_owned ok a'" "str_owned ok b'"
    and "list_all (attr_info_owned ok) as" "list_all (attr_info_owned ok) as'"
    and "length as = unat m" "length as' = unat m'"
  shows "p = p'"
proof -
  from str_codec.enc_unique [OF assms(2,4,1)] have
    "str_bytes b @ u32_bytes m @ attr_info_codec.enc_list as @ p =
      str_bytes b' @ u32_bytes m' @ attr_info_codec.enc_list as' @ p'" by simp
  from str_codec.enc_unique [OF assms(3,5) this] have
    "u32_bytes m @ attr_info_codec.enc_list as @ p = u32_bytes m' @ attr_info_codec.enc_list as' @ p'"
    by simp
  then have "m = m' \<and> attr_info_codec.enc_list as @ p = attr_info_codec.enc_list as' @ p'"
    using u32_codec.enc_unique by blast
  then show ?thesis
    using attr_info_codec.enc_list_unique [OF assms(6,7)] assms(8,9) by simp
qed

lemma enc_attr_info_nonempty: "attr_info_owned ok a \<Longrightarrow> enc_attr_info a \<noteq> []"
  by (simp add: attr_info_owned_def str_owned_def enc_attr_info_def)

text \<open>For an interface with more results than arguments the packet announces all results but
  carries only as many as there are arguments: it is written without an error, and reading it
  back runs past its end.\<close>

theorem info_fewer_args_unreadable:
  assumes "info_fits ok name desc args (take (length args) rets)"
    and "unat argcv = length args" and "unat retcv = length rets" and "length args < length rets"
  shows "\<exists>packet. serialize_interface_info ok idv argcv retcv
        \<lparr>info_name = name, info_description = desc, arg_info = Some args, ret_info = Some rets\<rparr>
        = Inr (Inr (packet, word_of_nat (length packet))) \<and>
      (\<exists>f. unserialize_interface_info ok packet n = Inl f)"
proof -
  let ?rets = "take (length args) rets"
  let ?packet = "info_bytes idv argcv retcv name desc args ?rets"
  obtain L where L: "roomy ok L"
    and s: "str_sendable name" "str_sendable desc" "list_all attr_info_sendable args"
      "list_all attr_info_sendable ?rets"
    using assms(1) by (auto simp: info_fits_def)
  have "unserialize_interface_info ok ?packet n \<noteq> Inr x" for x
  proof
    assume "unserialize_interface_info ok ?packet n = Inr x"
    then obtain argcw retcw args' rets' r where
      d: "drop 4 ?packet = str_bytes (info_name x) @ str_bytes (info_description x) @
          u32_bytes argcw @ attr_info_codec.enc_list args' @
          u32_bytes retcw @ attr_info_codec.enc_list rets' @ r"
      and o: "str_owned ok (info_name x)" "str_owned ok (info_description x)"
        "list_all (attr_info_owned ok) args'" "length args' = unat argcw"
        "list_all (attr_info_owned ok) rets'" "length rets' = unat retcw"
      unfolding unserialize_info_eq_Inr by blast
    have "str_bytes (str_copy name) @ str_bytes (str_copy desc) @ u32_bytes argcv @
        attr_info_codec.enc_list (map attr_info_copy args) @
        u32_bytes retcv @ attr_info_codec.enc_list ?rets = drop 4 ?packet"
      using s by (simp add: info_bytes_def enc_list_info_copies str_sendable_bytes)
    from info_bytes_split [OF this [unfolded d] str_copy_owned [OF s(1) L] str_copy_owned [OF s(2) L]
        o(1,2) attr_info_copies_owned [OF s(3) L] o(3) _ o(4)] assms(2)
    have "u32_bytes retcv @ attr_info_codec.enc_list ?rets
        = u32_bytes retcw @ attr_info_codec.enc_list rets' @ r" by simp
    then have eq: "retcv = retcw" "attr_info_codec.enc_list ?rets = attr_info_codec.enc_list rets' @ r"
      using u32_codec.enc_unique by blast+
    have "length (map attr_info_copy ?rets) < length rets'"
      using eq(1) o(6) assms(3,4) by simp
    from attr_info_codec.enc_list_shorter [OF attr_info_copies_owned [OF s(4) L] o(5) this]
    show False
      using eq(2) s(4) o(5) by (auto simp: enc_list_info_copies list_all_iff enc_attr_info_nonempty)
  qed
  then have "\<exists>f. unserialize_interface_info ok ?packet n = Inl f"
    by (cases "unserialize_interface_info ok ?packet n") auto
  moreover have "length args = length ?rets" using assms(4) by simp
  ultimately show ?thesis
    using serialize_info_ok [OF assms(1,2), where ?tl1.0 = "[]"
        and ?tl2.0 = "drop (length args) rets"] by auto
qed

text \<open>A missing name or description makes \<open>serialize_interface_info\<close> return -1, before any
  argument is looked at.\<close>

theorem info_missing_string:
  assumes "roomy ok (4 + length (str_bytes (info_name inform)))"
    and "info_name inform = PNull \<or>
      str_sendable (info_name inform) \<and> info_description inform = PNull"
  shows "serialize_interface_info ok idv argcv retcv inform = Inr (Inl (-1))"
proof -
  let ?r = "serialize_interface_info ok idv argcv retcv inform"
  have b0: "holds [] (new_buffer ok)" by (rule holds_new_buffer [OF assms(1)])
  have lv: "m = Inl (Return c) \<Longrightarrow> leave m = Inr (Inl c)" for m :: "stop + 'a" and c by simp
  have id: "post (may (copy_to_buffer ok (new_buffer ok) (PBlk (u32_bytes idv)) 4))
      (holds ([] @ u32_bytes idv))"
    by (simp, rule copy_u32_holds [OF b0 _ assms(1), simplified])
  from assms(2) show ?thesis
  proof
    assume "info_name inform = PNull"
    then show ?thesis unfolding serialize_interface_info_def
      by (intro lv bindr_fails [OF id]) (simp add: copy_str_def)
  next
    assume n: "str_sendable (info_name inform) \<and> info_description inform = PNull"
    show ?thesis unfolding serialize_interface_info_def
      by (rule lv, rule bindr_fails [OF id], rule bindr_fails [OF copy_str_holds [OF _ _ _ assms(1)]],
          assumption) (use n in \<open>simp_all add: copy_str_def\<close>)
  qed
qed

section \<open>Examples\<close>

definition text_of :: "byte list \<Rightarrow> cptr" where
  "text_of s = PBlk (cstring s)"

lemma str_sendable_text [simp]:
  "0 \<notin> set s \<Longrightarrow> length s < 65536 \<Longrightarrow> str_sendable (text_of s)"
  by (simp add: str_sendable_def text_of_def)

lemma str_bytes_text [simp]: "0 \<notin> set s \<Longrightarrow> str_bytes (text_of s) = cstring s"
  by (simp add: text_of_def)

definition named :: "byte list \<Rightarrow> attr_info" where
  "named s = \<lparr>attr_name = text_of s, attr_description = text_of []\<rparr>"

lemma info_fits_kmalloc:
  "str_sendable name \<Longrightarrow> str_sendable desc \<Longrightarrow> list_all attr_info_sendable args \<Longrightarrow>
   list_all attr_info_sendable rets \<Longrightarrow> length (info_bytes 0 0 0 name desc args rets) \<le> 4128768 \<Longrightarrow>
   info_fits kmalloc_max name desc args rets"
  by (auto simp: info_fits_def intro: roomy_kmalloc_max)

lemmas example_info = named_def attr_info_sendable_def info_bytes_def enc_attr_info_def
  attr_info_codec.enc_list_def

theorem info_roundtrip_witness:
  "\<exists>packet. serialize_interface_info kmalloc_max 7 1 1
      \<lparr>info_name = text_of [65], info_description = text_of [66, 67],
       arg_info = Some [named [97]], ret_info = Some [named [98]]\<rparr>
      = Inr (Inr (packet, word_of_nat (length packet))) \<and>
    unserialize_interface_info kmalloc_max (packet @ [0, 0]) 99 = Inr
      \<lparr>info_name = str_copy (text_of [65]), info_description = str_copy (text_of [66, 67]),
       arg_info = Some (map attr_info_copy [named [97]]),
       ret_info = Some (map attr_info_copy [named [98]])\<rparr>"
  by (rule info_roundtrip)
    (simp_all add: info_fits_kmalloc example_info infos_granted_def kgrant_def kmalloc_max_def)

theorem info_more_args_faults_witness:
  "serialize_interface_info kmalloc_max 7 2 1
      \<lparr>info_name = text_of [65], info_description = text_of [66],
       arg_info = Some [named [97], named [98]], ret_info = Some [named [99]]\<rparr> = Inl Out_of_bounds"
  by (rule info_more_args_faults) (simp_all add: info_fits_kmalloc example_info)

theorem info_fewer_args_unreadable_witness:
  "\<exists>packet. serialize_interface_info kmalloc_max 7 1 2
      \<lparr>info_name = text_of [65], info_description = text_of [66],
       arg_info = Some [named [97]], ret_info = Some [named [98], named [99]]\<rparr>
      = Inr (Inr (packet, word_of_nat (length packet))) \<and>
    (\<exists>f. unserialize_interface_info kmalloc_max packet 0 = Inl f)"
  by (rule info_fewer_args_unreadable) (simp_all add: info_fits_kmalloc example_info)

theorem info_missing_string_witness:
  "serialize_interface_info kmalloc_max 7 1 1
      \<lparr>info_name = text_of [65], info_description = PNull, arg_info = None, ret_info = None\<rparr>
    = Inr (Inl (-1))"
  by (rule info_missing_string) (simp_all add: roomy_kmalloc_max)

end
