(* ===== verification/Netlink.thy ===== *)
theory Netlink
  imports Sockets Packet_Rpc Packet_Info
begin

text \<open>
  The netlink side of \<open>module/interface.c\<close>: messages from the processes that serve interfaces
  (activation, results of calls) and the calls themselves, which the module passes on to the
  process or answers with a description.
\<close>

section \<open>Sending to a process\<close>

definition send_msg_to_user ::
  "kenv \<Rightarrow> nat option \<Rightarrow> u32 \<Rightarrow> byte list \<Rightarrow> u32 \<Rightarrow> 'z mem_scheme \<Rightarrow> (int \<times> 'z mem_scheme) result" where
  "send_msg_to_user e sk portid data sz s =
     (if \<not> nlmsg_new e (trace s) sz then Inr (- 1, s) else
     bindr (mem_read (PBlk data) (unat sz)) (\<lambda>x.
     case sk of None \<Rightarrow> Inl Null_deref | Some k \<Rightarrow>
     (let ret = nlmsg_unicast e (trace s) k portid x;
          s = emit (Nl_unicast k portid x) s
      in Inr (if ret < 0 then - 1 else 0, s))))"

section \<open>Activation\<close>

definition activate :: "u32 \<Rightarrow> ctrl_t \<Rightarrow> ctrl_t" where
  "activate portid c = c\<lparr>activated := 1, client_portid := portid\<rparr>"

text \<open>The inner loop: \<open>ids[i]\<close> is read again for every interface it is compared with.\<close>

fun activate_scan ::
  "byte list \<Rightarrow> u32 \<Rightarrow> nat \<Rightarrow> nat \<Rightarrow> nat \<Rightarrow> 'z registry_scheme \<Rightarrow> 'z registry_scheme result" where
  "activate_scan ids portid i j 0 s = Inr s"
| "activate_scan ids portid i j (Suc n) s =
     bindr (slot (INTERFACE_LIST s) j) (\<lambda>p.
     bindr (deref p s) (\<lambda>x.
     bindr (rd_u32 (drop (4 * i) ids)) (\<lambda>(idv, _).
     if if_id x = idv then write_ctrl p (activate portid) s
     else activate_scan ids portid i (Suc j) n s)))"

definition handle_activate_interface ::
  "byte list \<Rightarrow> u32 \<Rightarrow> u32 \<Rightarrow> 'z registry_scheme \<Rightarrow> 'z registry_scheme result" where
  "handle_activate_interface packet packet_length portid s =
     (if unat packet_length < 4 then Inr s else
     bindr (rd_u32 packet) (\<lambda>(count, ids).
     if unat packet_length < 4 * unat (count + 1) then Inr s else
     for_loop 0 (unat count)
       (\<lambda>i s. activate_scan ids portid i 0 (unat (INTERFACE_COUNT s)) s) s))"

section \<open>Results\<close>

text \<open>
  The values of a result are parsed to print the first of them as a string. The return codes of
  the two sends are unsigned, so the tests for an error never hold.
\<close>

definition handle_interface_result ::
  "kenv \<Rightarrow> byte list \<Rightarrow> u32 \<Rightarrow> u32 \<Rightarrow> 'z registry_scheme \<Rightarrow> 'z registry_scheme result" where
  "handle_interface_result e packet packet_length portid s =
     bindr (interface_id packet) (\<lambda>idv.
     bindr (find_interface (INTERFACE_LIST s) (sint (INTERFACE_COUNT s)) idv s) (\<lambda>interface.
     if interface = 0 then Inr s else
     bindr (unserialize_rpc_packet (kmem e) packet packet_length) (\<lambda>(retv, retc).
     bindr (arr_get (Some retv) 0) (\<lambda>v.
     bindr (fmt_s (addr v)) (\<lambda>_.
     bindr (read_ctrl interface s) (\<lambda>c.
     if socket c = None then Inr s else
     bindr (sock_sendto e (socket c) None (PBlk (u32_bytes packet_length)) 4 s) (\<lambda>(ret, s).
     if (word_of_int ret :: u32) < 0 then Inr s else
     bindr (sock_sendto e (socket c) None (PBlk packet) (sint packet_length) s) (\<lambda>(ret, s).
     Inr s))))))))"

text \<open>
  A netlink message is the header fields the module reads and the memory from the payload to
  the end of its block.
\<close>

record nlmsg =
  nlmsg_len :: u32
  nlmsg_pid :: u32
  nlmsg_data :: "byte list"

definition parse_user_pid :: "nlmsg \<Rightarrow> u32" where
  "parse_user_pid skb = nlmsg_pid skb"

abbreviation (input) INCOME_HANDSHAKE :: byte where "INCOME_HANDSHAKE \<equiv> 0"
abbreviation (input) INCOME_RESULT :: byte where "INCOME_RESULT \<equiv> 1"

definition handle_netlink_income ::
  "kenv \<Rightarrow> nlmsg \<Rightarrow> 'z registry_scheme \<Rightarrow> 'z registry_scheme result" where
  "handle_netlink_income e data s =
     (let body_length = nlmsg_len data - 1; portid = nlmsg_pid data in
     bindr (rd_mem 1 (nlmsg_data data)) (\<lambda>(header, body).
     if hd header = INCOME_HANDSHAKE then handle_activate_interface body body_length portid s
     else if hd header = INCOME_RESULT then handle_interface_result e body body_length portid s
     else Inr s))"

section \<open>Calls\<close>

definition fetch_interface_info ::
  "kenv \<Rightarrow> byte list \<Rightarrow> u32 \<Rightarrow> socket_t option \<Rightarrow> 'z registry_scheme \<Rightarrow>
   (int \<times> 'z registry_scheme) result" where
  "fetch_interface_info e packet packet_length sock s =
     bindr (unserialize_rpc_packet (kmem e) packet packet_length) (\<lambda>(argv, argc).
     bindr (arr_get (Some argv) 0) (\<lambda>v.
     bindr (mem_block (addr v)) (\<lambda>b.
     bindr (rd_u32 b) (\<lambda>(idv, _).
     bindr (find_interface (INTERFACE_LIST s) (sint (INTERFACE_COUNT s)) idv s) (\<lambda>dst.
     if dst = 0 then Inr (- 1, s) else
     bindr (deref dst s) (\<lambda>x.
     case info x of None \<Rightarrow> Inl Null_deref | Some i \<Rightarrow>
     bindr (serialize_interface_info (kmem e) idv (interface_t.argc x) (retc x) i) (\<lambda>reply.
     case reply of Inl err \<Rightarrow> Inr (- 1, s)
     | Inr (reply_packet, reply_length) \<Rightarrow>
         bindr (sock_sendto e sock None (PBlk reply_packet) (sint reply_length) s) (\<lambda>(err, s).
         Inr (if err < 0 then - 1 else 0, s)))))))))"

definition execute_interface ::
  "kenv \<Rightarrow> byte list \<Rightarrow> u32 \<Rightarrow> socket_t option \<Rightarrow> 'z registry_scheme \<Rightarrow>
   (int \<times> 'z registry_scheme) result" where
  "execute_interface e packet packet_length sock s =
     bindr (interface_id packet) (\<lambda>idv.
     if idv = 0 then fetch_interface_info e packet packet_length sock s else
     bindr (find_interface (INTERFACE_LIST s) (sint (INTERFACE_COUNT s)) idv s) (\<lambda>interface.
     if interface = 0 then Inr (- 1, s) else
     bindr (write_ctrl interface (\<lambda>c. c\<lparr>socket := sock\<rparr>) s) (\<lambda>s.
     bindr (read_ctrl interface s) (\<lambda>c.
     bindr (send_msg_to_user e (KERN_NETLINK s) (client_portid c) packet packet_length s)
       (\<lambda>(ret, s). Inr (if ret < 0 then - 1 else 0, s))))))"

section \<open>Activation marks exactly the interfaces named\<close>

definition set_ctrl :: "(ctrl_t \<Rightarrow> ctrl_t) \<Rightarrow> interface_t \<Rightarrow> interface_t" where
  "set_ctrl f x = x\<lparr>ctrl := map_option f (ctrl x)\<rparr>"

lemma set_ctrl_simps [simp]:
  "if_id (set_ctrl f x) = if_id x" "ctrl (set_ctrl f x) = map_option f (ctrl x)"
  "interface_t.argc (set_ctrl f x) = interface_t.argc x" "retc (set_ctrl f x) = retc x"
  "info (set_ctrl f x) = info x"
  by (simp_all add: set_ctrl_def)

lemma descriptor_ok_set_ctrl [simp]: "descriptor_ok (set_ctrl f x) = descriptor_ok x"
  by (cases "info x") (simp_all add: descriptor_ok_def set_ctrl_def)

lemma activate_idem [simp]: "activate p (activate p c) = activate p c"
  by (simp add: activate_def)

lemma activate_scan_describes:
  "describes a s xs \<Longrightarrow> INTERFACE_LIST s = Some (pre @ a @ b) \<Longrightarrow>
   rd_u32 (drop (4 * i) ids) = Inr (idv, r) \<Longrightarrow>
   activate_scan ids portid i (length pre) (length xs) s = (case index_of idv xs of None \<Rightarrow> Inr s
     | Some k \<Rightarrow> write_ctrl (the (a ! k)) (activate portid) s)"
proof (induction xs arbitrary: a pre)
  case (Cons x xs)
  then obtain p a' where a: "a = Some p # a'" "p \<noteq> 0" "heap s p = Some x" "describes a' s xs"
    by (auto simp: describes_def list_all2_Cons2)
  have sl: "slot (INTERFACE_LIST s) (length pre) = Inr p"
    using Cons.prems(2) by (simp add: slot_eq_Inr a)
  have "activate_scan ids portid i (length (pre @ [Some p])) (length xs) s = (case index_of idv xs of
      None \<Rightarrow> Inr s | Some k \<Rightarrow> write_ctrl (the (a' ! k)) (activate portid) s)"
    by (rule Cons.IH [OF a(4)]) (use Cons.prems a in auto)
  then show ?case
    using sl a Cons.prems(3) by (auto simp: deref_def split: option.splits)
qed simp

definition activate_id :: "u32 \<Rightarrow> u32 \<Rightarrow> interface_t list \<Rightarrow> interface_t list" where
  "activate_id portid idv xs =
     map (\<lambda>x. if if_id x = idv then set_ctrl (activate portid) x else x) xs"

lemma map_first_index:
  "distinct (map if_id xs) \<Longrightarrow> map (\<lambda>x. if if_id x = idv then f x else x) xs
     = (case index_of idv xs of None \<Rightarrow> xs | Some k \<Rightarrow> xs[k := f (xs ! k)])"
proof (induction xs)
  case (Cons x xs)
  show ?case
  proof (cases "if_id x = idv")
    case True
    then have "map (\<lambda>x. if if_id x = idv then f x else x) xs = xs"
      using Cons.prems by (intro map_idI) (auto simp: image_iff)
    then show ?thesis using True by simp
  qed (use Cons in \<open>auto split: option.splits\<close>)
qed simp

lemma activate_one:
  assumes ok: "registry_ok s" and d: "distinct (map if_id (interfaces_of s))"
    and rd: "rd_u32 (drop (4 * i) ids) = Inr (idv, r)"
  shows "\<exists>t. activate_scan ids portid i 0 (unat (INTERFACE_COUNT s)) s = Inr t \<and> registry_ok t \<and>
    INTERFACE_COUNT t = INTERFACE_COUNT s \<and> trace t = trace s \<and>
    interfaces_of t = activate_id portid idv (interfaces_of s)"
proof (cases "INTERFACE_LIST s = None")
  case True
  then have "INTERFACE_COUNT s = 0" using registry_empty [OF ok] by simp
  then show ?thesis using length_interfaces_of [OF ok] ok by (simp add: activate_id_def)
next
  case False
  have scan: "activate_scan ids portid i 0 (unat (INTERFACE_COUNT s)) s =
      (case index_of idv (interfaces_of s) of None \<Rightarrow> Inr s
       | Some k \<Rightarrow> write_ctrl (the (live_slots s ! k)) (activate portid) s)"
    using activate_scan_describes [OF registry_ok_describes [OF ok], where pre = "[]"]
      registry_list [OF ok False] rd by (simp add: length_interfaces_of [OF ok])
  have view: "activate_id portid idv (interfaces_of s) = (case index_of idv (interfaces_of s) of
      None \<Rightarrow> interfaces_of s
    | Some k \<Rightarrow> (interfaces_of s)[k := set_ctrl (activate portid) (interfaces_of s ! k)])"
    unfolding activate_id_def by (rule map_first_index [OF d])
  show ?thesis
  proof (cases "index_of idv (interfaces_of s)")
    case None
    then show ?thesis using scan view ok by simp
  next
    case (Some k)
    have k: "k < length (interfaces_of s)" using index_of_SomeD [OF Some] by simp
    obtain p where p: "live_slots s ! k = Some p" "heap s p = Some (interfaces_of s ! k)" "p \<noteq> 0"
      using found_pointer [OF registry_ok_describes [OF ok] Some] by metis
    let ?y = "set_ctrl (activate portid) (interfaces_of s ! k)"
    have dk: "descriptor_ok (interfaces_of s ! k)"
      using ok k by (simp add: registry_ok_def list_all_length)
    then have "write_ctrl p (activate portid) s = Inr (store p ?y s)"
      using p by (auto simp: write_ctrl_def deref_def descriptor_ok_def set_ctrl_def)
    then show ?thesis
      using scan view p(1) Some dk registry_ok_store [OF ok d k p(1), of ?y]
        interfaces_of_store [OF ok d k p(1), of ?y]
      by (simp add: store_def)
  qed
qed
lemma activate_id_ids [simp]: "map if_id (activate_id portid idv xs) = map if_id xs"
  by (simp add: activate_id_def)

lemma activate_ids_snoc:
  "activate_id portid idv (map (\<lambda>x. if if_id x \<in> S then set_ctrl (activate portid) x else x) xs)
    = map (\<lambda>x. if if_id x \<in> insert idv S then set_ctrl (activate portid) x else x) xs"
  by (auto simp: activate_id_def set_ctrl_def option.map_comp comp_def)

lemma drop_enc_ids: "i \<le> length ids \<Longrightarrow>
  drop (4 * i) (u32_codec.enc_list ids @ r) = u32_codec.enc_list (drop i ids) @ r"
proof (induction ids arbitrary: i)
  case (Cons a ids)
  then show ?case by (cases i) simp_all
qed simp

definition activated_by :: "u32 \<Rightarrow> u32 list \<Rightarrow> interface_t list \<Rightarrow> interface_t list" where
  "activated_by portid ids xs =
     map (\<lambda>x. if if_id x \<in> set ids then set_ctrl (activate portid) x else x) xs"

lemma activate_loop:
  assumes ok: "registry_ok s" and d: "distinct (map if_id (interfaces_of s))" and n: "n \<le> length ids"
  shows "\<exists>t. for_loop 0 n (\<lambda>i s. activate_scan (u32_codec.enc_list ids @ rest) portid i 0
        (unat (INTERFACE_COUNT s)) s) s = Inr t \<and> registry_ok t \<and> trace t = trace s \<and>
      INTERFACE_COUNT t = INTERFACE_COUNT s \<and>
      interfaces_of t = activated_by portid (take n ids) (interfaces_of s)"
  using n
proof (induction n)
  case 0
  then show ?case using ok by (simp add: activated_by_def)
next
  case (Suc n)
  let ?f = "\<lambda>i s. activate_scan (u32_codec.enc_list ids @ rest) portid i 0 (unat (INTERFACE_COUNT s)) s"
  obtain t where t: "for_loop 0 n ?f s = Inr t" "registry_ok t" "trace t = trace s"
      "INTERFACE_COUNT t = INTERFACE_COUNT s"
      "interfaces_of t = activated_by portid (take n ids) (interfaces_of s)"
    using Suc by auto
  have dt: "distinct (map if_id (interfaces_of t))"
    using d by (simp add: t(5) activated_by_def comp_def if_distrib cong: if_cong)
  have "drop n ids = ids ! n # drop (Suc n) ids"
    using Suc.prems by (simp add: Cons_nth_drop_Suc)
  then have "rd_u32 (drop (4 * n) (u32_codec.enc_list ids @ rest))
      = Inr (ids ! n, u32_codec.enc_list (drop (Suc n) ids) @ rest)"
    using drop_enc_ids [of n ids rest] Suc.prems by (simp del: drop_append)
  from activate_one [OF t(2) dt this, of portid] obtain r where r: "?f n t = Inr r" "registry_ok r"
      "INTERFACE_COUNT r = INTERFACE_COUNT t" "trace r = trace t"
      "interfaces_of r = activate_id portid (ids ! n) (interfaces_of t)" by auto
  have "take (Suc n) ids = take n ids @ [ids ! n]"
    using Suc.prems by (simp add: take_Suc_conv_app_nth)
  then have "interfaces_of r = activated_by portid (take (Suc n) ids) (interfaces_of s)"
    unfolding r(5) t(5) activated_by_def activate_ids_snoc by simp
  then show ?case
    using for_loop_append [of 0 n 1 ?f s] t r by simp
qed

lemma activation_run:
  assumes "length ids + 1 < 2 ^ 32" and "4 * (length ids + 1) \<le> unat n"
  shows "handle_activate_interface (u32_bytes (word_of_nat (length ids)) @ u32_codec.enc_list ids @ rest)
      n portid s
    = for_loop 0 (length ids) (\<lambda>i s. activate_scan (u32_codec.enc_list ids @ rest) portid i 0
        (unat (INTERFACE_COUNT s)) s) s"
proof -
  have u: "unat (word_of_nat (length ids) :: u32) = length ids"
    using assms(1) by (simp add: unat_of_nat_u32)
  have "unat (word_of_nat (length ids) + 1 :: u32) = length ids + 1"
    using assms(1) by (subst unat_add_u32) (simp_all add: u)
  then show ?thesis using assms(2) by (auto simp: handle_activate_interface_def u)
qed

text \<open>
  A process that names its interfaces in an activation message makes them its own: exactly
  the interfaces with the identifiers in the message are marked active and get its port, and
  the rest of the registry is as before.
\<close>

theorem handle_activate_marks:
  assumes "registry_ok s" and "distinct (map if_id (interfaces_of s))"
    and "length ids + 1 < 2 ^ 32" and "4 * (length ids + 1) \<le> unat packet_length"
  shows "\<exists>t. handle_activate_interface
      (u32_bytes (word_of_nat (length ids)) @ u32_codec.enc_list ids @ rest) packet_length portid s
      = Inr t \<and> registry_ok t \<and> trace t = trace s \<and>
    interfaces_of t = activated_by portid ids (interfaces_of s)"
  using activate_loop [OF assms(1,2) order_refl, of ids rest portid]
  by (auto simp: activation_run [OF assms(3,4)])

lemma split_words: "\<exists>ids rest. b = u32_codec.enc_list ids @ rest \<and> length rest < 4"
proof (induction b rule: length_induct)
  case (1 b)
  show ?case
  proof (cases "length b < 4")
    case True
    then show ?thesis by (intro exI [of _ "[]"] exI [of _ b]) simp
  next
    case False
    then obtain w where w: "take 4 b = u32_bytes w" using u32_bytes_exists [of b] by auto
    from False 1 obtain ids rest where "drop 4 b = u32_codec.enc_list ids @ rest" "length rest < 4"
      by (metis length_drop diff_less less_le_trans not_less zero_less_numeral)
    then show ?thesis
      using w append_take_drop_id [of 4 b] by (intro exI [of _ "w # ids"]) auto
  qed
qed

lemma length_enc_ids [simp]: "length (u32_codec.enc_list ids) = 4 * length ids"
  by (induction ids) simp_all

text \<open>
  C36: the count of an activation message is checked as \<open>4 * (count + 1)\<close> with a 32-bit sum: the
  count 4294967295 passes with any message of at least four bytes, and the loop then reads
  identifiers past the end of the message.
\<close>

theorem activation_count_wraps:
  assumes "registry_ok s" and "distinct (map if_id (interfaces_of s))" and "interfaces_of s \<noteq> []"
    and "4 \<le> unat packet_length" and "length body < 2 ^ 32"
  shows "handle_activate_interface (u32_bytes 4294967295 @ body) packet_length portid s
    = Inl Out_of_bounds"
proof -
  obtain ids rest where body: "body = u32_codec.enc_list ids @ rest" "length rest < 4"
    using split_words by blast
  let ?f = "\<lambda>i s. activate_scan body portid i 0 (unat (INTERFACE_COUNT s)) s"
  obtain t where t: "for_loop 0 (length ids) ?f s = Inr t" "registry_ok t"
      "interfaces_of t = activated_by portid ids (interfaces_of s)"
    using activate_loop [OF assms(1,2) order_refl, of ids rest portid] body by auto
  obtain n where n: "unat (INTERFACE_COUNT t) = Suc n"
    using t(3) assms(3) length_interfaces_of [OF t(2)]
    by (cases "unat (INTERFACE_COUNT t)") (auto simp: activated_by_def)
  obtain p where p: "slot (INTERFACE_LIST t) 0 = Inr p" "\<exists>x. deref p t = Inr x"
  proof -
    have "INTERFACE_LIST t \<noteq> None" using registry_empty [OF t(2)] n by (cases "INTERFACE_LIST t") simp_all
    moreover have "0 < length (interfaces_of t)" by (simp add: length_interfaces_of [OF t(2)] n)
    ultimately show thesis
      using describes_nth [OF registry_ok_describes [OF t(2)]] registry_list [OF t(2)] that by metis
  qed
  have "drop (4 * length ids) body = rest" using body by simp
  then have "?f (length ids) t = Inl Out_of_bounds"
    using n p body(2) by (auto simp: rd_u32_short)
  moreover have "unat (4294967295 :: u32) = length ids + Suc (4294967294 - length ids)"
    using assms(5) body by simp
  ultimately have "for_loop 0 (unat (4294967295 :: u32)) ?f s = Inl Out_of_bounds"
    using t(1) by (simp only: for_loop_append add_0) simp
  then show ?thesis
    using assms(4) by (simp add: handle_activate_interface_def del: for_loop.simps)
qed

section \<open>Calls and results\<close>

lemma interfaces_of_emit [simp]: "interfaces_of (emit ev s) = interfaces_of s"
  by (simp add: interfaces_of_def live_slots_def slots_of_def emit_def)

lemma table_ok_emit [simp]: "table_ok (emit ev s) = table_ok s"
  by (simp add: table_ok_def registry_ok_def interfaces_of_def live_slots_def slots_of_def emit_def
      mem_wf_def describes_def)

lemma registry_fields_store [simp]:
  "INTERFACE_LIST (store p y s) = INTERFACE_LIST s" "INTERFACE_COUNT (store p y s) = INTERFACE_COUNT s"
  "KERN_NETLINK (store p y s) = KERN_NETLINK s" "ALLOCATED_ID (store p y s) = ALLOCATED_ID s"
  by (simp_all add: store_def)

lemma registry_fields_emit [simp]:
  "INTERFACE_LIST (emit ev s) = INTERFACE_LIST s" "INTERFACE_COUNT (emit ev s) = INTERFACE_COUNT s"
  "KERN_NETLINK (emit ev s) = KERN_NETLINK s" "ALLOCATED_ID (emit ev s) = ALLOCATED_ID s"
  by (simp_all add: emit_def)

definition wait_on :: "socket_t option \<Rightarrow> interface_t \<Rightarrow> interface_t" where
  "wait_on sock = set_ctrl (\<lambda>c. c\<lparr>socket := sock\<rparr>)"

lemma execute_known:
  assumes ok: "table_ok s" and d: "distinct (map if_id (interfaces_of s))"
    and p: "interface_id packet = Inr idv" "idv \<noteq> 0" "unat n \<le> length packet"
    and j: "index_of idv (interfaces_of s) = Some j" and c: "ctrl (interfaces_of s ! j) = Some c"
    and k: "KERN_NETLINK s = Some k" "\<And>tr. nlmsg_new e tr n"
  shows "\<exists>t. execute_interface e packet n sock s = Inr (
      if nlmsg_unicast e (trace s) k (client_portid c) (take (unat n) packet) < 0 then - 1 else 0, t) \<and>
    table_ok t \<and> interfaces_of t = (interfaces_of s)[j := wait_on sock (interfaces_of s ! j)] \<and>
    KERN_NETLINK t = Some k \<and>
    trace t = Nl_unicast k (client_portid c) (take (unat n) packet) # trace s"
proof -
  obtain q where q: "find_interface (INTERFACE_LIST s) (sint (INTERFACE_COUNT s)) idv s = Inr q" "q \<noteq> 0"
      "deref q s = Inr (interfaces_of s ! j)" "if_id (interfaces_of s ! j) = idv"
      "interfaces_of s ! j \<in> set (interfaces_of s)"
    using registry_table.lookup [OF ok j] .
  let ?y = "wait_on sock (interfaces_of s ! j)"
  have dk: "descriptor_ok ?y"
    using ok q(5) by (auto simp: table_ok_def registry_ok_def list_all_iff wait_on_def)
  have put: "table_ok (store q ?y s)" "interfaces_of (store q ?y s) = (interfaces_of s)[j := ?y]"
    using registry_table.put_view [OF ok d j q(1) _ dk] q(4) by (auto simp: wait_on_def)
  have w: "write_ctrl q (\<lambda>c. c\<lparr>socket := sock\<rparr>) s = Inr (store q ?y s)"
    using q(3) c by (simp add: write_ctrl_def wait_on_def set_ctrl_def)
  have r: "read_ctrl q (store q ?y s) = Inr (c\<lparr>socket := sock\<rparr>)"
    using q(2) c by (simp add: read_ctrl_def wait_on_def)
  show ?thesis
    using p(2,3) put k by (simp add: execute_interface_def p(1) q(1,2) w r send_msg_to_user_def Let_def)
qed

definition printable_result :: "kenv \<Rightarrow> u32 \<Rightarrow> byte list \<Rightarrow> bool" where
  "printable_result e idv packet \<longleftrightarrow> interface_id packet = Inr idv \<and>
     (\<exists>vs c x. unserialize_rpc_packet (kmem e) packet 0 = Inr (vs, c) \<and> vs \<noteq> [] \<and>
        fmt_s (addr (hd vs)) = Inr x)"

lemma unserialize_ignores_length:
  "unserialize_rpc_packet ok packet n = unserialize_rpc_packet ok packet 0"
  by (simp add: unserialize_rpc_packet_def)

lemma result_forwarded:
  assumes ok: "table_ok s" and j: "index_of idv (interfaces_of s) = Some j"
    and c: "ctrl (interfaces_of s ! j) = Some c" "socket c = Some k" "\<not> sk_null k"
    and p: "printable_result e idv packet" "unat n \<le> length packet" "unat n < 2 ^ 31"
  shows "handle_interface_result e packet n portid s
    = Inr (emit (Sock_sent (sock_no k) None (take (unat n) packet))
          (emit (Sock_sent (sock_no k) None (u32_bytes n)) s))"
proof -
  obtain q where q: "find_interface (INTERFACE_LIST s) (sint (INTERFACE_COUNT s)) idv s = Inr q" "q \<noteq> 0"
      "deref q s = Inr (interfaces_of s ! j)"
    using registry_table.lookup [OF ok j] .
  obtain vs cnt x where v: "unserialize_rpc_packet (kmem e) packet n = Inr (vs, cnt)"
      "arr_get (Some vs) 0 = Inr (hd vs)" "fmt_s (addr (hd vs)) = Inr x"
    using p(1) unserialize_ignores_length [of "kmem e" packet n]
    by (auto simp: printable_result_def hd_conv_nth)
  have r: "read_ctrl q s = Inr c" using q(3) c(1) by (simp add: read_ctrl_def)
  have i: "interface_id packet = Inr idv" using p(1) by (simp add: printable_result_def)
  show ?thesis
    using c(3) p(2,3)
    by (simp add: handle_interface_result_def i q(1,2) v r c(2) sock_sendto_open)
qed
text \<open>With no socket to wait on, a result has no effect.\<close>

lemma result_dropped:
  assumes ok: "table_ok s" and j: "index_of idv (interfaces_of s) = Some j"
    and c: "ctrl (interfaces_of s ! j) = Some c" "socket c = None"
    and p: "printable_result e idv packet"
  shows "handle_interface_result e packet n portid s = Inr s"
proof -
  obtain q where q: "find_interface (INTERFACE_LIST s) (sint (INTERFACE_COUNT s)) idv s = Inr q" "q \<noteq> 0"
      "deref q s = Inr (interfaces_of s ! j)"
    using registry_table.lookup [OF ok j] .
  obtain vs cnt x where v: "unserialize_rpc_packet (kmem e) packet n = Inr (vs, cnt)"
      "arr_get (Some vs) 0 = Inr (hd vs)" "fmt_s (addr (hd vs)) = Inr x"
    using p unserialize_ignores_length [of "kmem e" packet n]
    by (auto simp: printable_result_def hd_conv_nth)
  have "read_ctrl q s = Inr c" using q(3) c(1) by (simp add: read_ctrl_def)
  moreover have "interface_id packet = Inr idv" using p by (simp add: printable_result_def)
  ultimately show ?thesis by (simp add: handle_interface_result_def q(1,2) v c(2))
qed

lemma index_of_waiting:
  "index_of idv xs = Some j \<Longrightarrow> index_of idv (xs[j := wait_on sock (xs ! j)]) = Some j"
  using registry_table.index_of_update [of idv xs j "wait_on sock (xs ! j)" idv] index_of_SomeD
  by (simp add: wait_on_def)

text \<open>
  A result goes back to the caller: after a call on a socket, the result the process sends
  for that interface leaves through this socket, first its length in four bytes, then its
  bytes, and nothing else is sent in between.
\<close>

theorem call_then_result:
  assumes "table_ok s" and "distinct (map if_id (interfaces_of s))"
    and "interface_id packet = Inr idv" and "idv \<noteq> 0" and "unat n \<le> length packet"
    and "index_of idv (interfaces_of s) = Some j" and "ctrl (interfaces_of s ! j) = Some c"
    and "KERN_NETLINK s = Some nl" and "\<forall>tr. nlmsg_new e tr n" and "\<not> sk_null k"
    and "printable_result e idv res" and "unat m \<le> length res" and "unat m < 2 ^ 31"
  shows "\<exists>r t u. execute_interface e packet n (Some k) s = Inr (r, t) \<and>
    handle_interface_result e res m portid t = Inr u \<and>
    trace u = [Sock_sent (sock_no k) None (take (unat m) res), Sock_sent (sock_no k) None (u32_bytes m),
      Nl_unicast nl (client_portid c) (take (unat n) packet)] @ trace s"
proof -
  obtain r t where t: "execute_interface e packet n (Some k) s = Inr (r, t)" "table_ok t"
      "interfaces_of t = (interfaces_of s)[j := wait_on (Some k) (interfaces_of s ! j)]"
      "trace t = Nl_unicast nl (client_portid c) (take (unat n) packet) # trace s"
    using execute_known [OF assms(1-8), of e "Some k"] assms(9) by auto
  have i: "index_of idv (interfaces_of t) = Some j"
    unfolding t(3) by (rule index_of_waiting [OF assms(6)])
  have "ctrl (interfaces_of t ! j) = Some (c\<lparr>socket := Some k\<rparr>)"
    using t(3) index_of_SomeD [OF assms(6)] assms(7) by (simp add: wait_on_def)
  from result_forwarded [OF t(2) i this _ assms(10-13)] t(1,4) show ?thesis by simp
qed

text \<open>
  C33: an interface remembers one socket only: when a second caller calls before the first
  result is back, both results go to the second caller and the first gets nothing.
\<close>

theorem second_caller_takes_results:
  assumes "table_ok s" and "distinct (map if_id (interfaces_of s))"
    and "interface_id packet = Inr idv" and "idv \<noteq> 0" and "unat n \<le> length packet"
    and "index_of idv (interfaces_of s) = Some j" and "ctrl (interfaces_of s ! j) = Some c"
    and "KERN_NETLINK s = Some nl" and "\<forall>tr. nlmsg_new e tr n" and "\<not> sk_null k2"
    and "printable_result e idv res" and "unat m \<le> length res" and "unat m < 2 ^ 31"
  shows "\<exists>r1 t1 r2 t2 u1 u2. execute_interface e packet n (Some k1) s = Inr (r1, t1) \<and>
    execute_interface e packet n (Some k2) t1 = Inr (r2, t2) \<and>
    handle_interface_result e res m portid t2 = Inr u1 \<and>
    handle_interface_result e res m portid u1 = Inr u2 \<and>
    (\<exists>tr. trace u2 = tr @ trace s \<and>
      (\<forall>ev \<in> set tr. \<forall>a x no. ev = Sock_sent no a x \<longrightarrow> no = sock_no k2) \<and>
      length [ev \<leftarrow> tr. ev = Sock_sent (sock_no k2) None (take (unat m) res)] \<ge> 2)"
proof -
  let ?sent = "[Sock_sent (sock_no k2) None (take (unat m) res), Sock_sent (sock_no k2) None (u32_bytes m)]"
  let ?msg = "Nl_unicast nl (client_portid c) (take (unat n) packet)"
  obtain r1 t1 where t1: "execute_interface e packet n (Some k1) s = Inr (r1, t1)" "table_ok t1"
      "interfaces_of t1 = (interfaces_of s)[j := wait_on (Some k1) (interfaces_of s ! j)]"
      "KERN_NETLINK t1 = Some nl" "trace t1 = ?msg # trace s"
    using execute_known [OF assms(1-8), of e "Some k1"] assms(9) by auto
  have j: "j < length (interfaces_of s)" using index_of_SomeD [OF assms(6)] by simp
  have i1: "index_of idv (interfaces_of t1) = Some j"
    unfolding t1(3) by (rule index_of_waiting [OF assms(6)])
  have c1: "ctrl (interfaces_of t1 ! j) = Some (c\<lparr>socket := Some k1\<rparr>)"
    using t1(3) j assms(7) by (simp add: wait_on_def)
  have "map if_id (interfaces_of t1) = map if_id (interfaces_of s)"
    unfolding t1(3) using j by (simp add: map_update wait_on_def list_update_same_conv)
  then have d1: "distinct (map if_id (interfaces_of t1))" using assms(2) by simp
  obtain r2 t2 where t2: "execute_interface e packet n (Some k2) t1 = Inr (r2, t2)" "table_ok t2"
      "interfaces_of t2 = (interfaces_of t1)[j := wait_on (Some k2) (interfaces_of t1 ! j)]"
      "trace t2 = ?msg # trace t1"
    using execute_known [OF t1(2) d1 assms(3-5) i1 c1 t1(4), of e "Some k2"] assms(9) by auto
  have i2: "index_of idv (interfaces_of t2) = Some j"
    unfolding t2(3) by (rule index_of_waiting [OF i1])
  have c2: "ctrl (interfaces_of t2 ! j) = Some (c\<lparr>socket := Some k2\<rparr>)"
    using t2(3) j t1(3) assms(7) by (simp add: wait_on_def)
  note fwd = result_forwarded [OF _ _ _ _ assms(10-13), of _ j]
  obtain u1 where u1: "handle_interface_result e res m portid t2 = Inr u1" "table_ok u1"
      "interfaces_of u1 = interfaces_of t2" "trace u1 = ?sent @ trace t2"
    using fwd [OF t2(2) i2 c2] t2(2) by simp
  have "handle_interface_result e res m portid u1
      = Inr (emit (Sock_sent (sock_no k2) None (take (unat m) res))
            (emit (Sock_sent (sock_no k2) None (u32_bytes m)) u1))"
    using fwd [OF u1(2)] i2 c2 u1(3) by simp
  then show ?thesis
    using t1(1,5) t2(1,4) u1(1,4) by (auto intro!: exI [of _ "?sent @ ?sent @ [?msg, ?msg]"])
qed

text \<open>
  A call for an identifier that no interface has is refused and leaves no trace: the code
  returned is -1, nothing is sent, and the registry is as it was.
\<close>

theorem execute_unknown_refused:
  assumes "table_ok s" and "interface_id packet = Inr idv" and "idv \<noteq> 0"
    and "index_of idv (interfaces_of s) = None"
  shows "execute_interface e packet n sock s = Inr (- 1, s)"
  using assms(2,3) registry_table.find_miss [OF assms(1,4)] by (simp add: execute_interface_def)

text \<open>
  A process whose interface returns no value cannot answer: the line that prints the first
  value of the result reads an array of no elements.
\<close>

theorem result_without_values_faults:
  assumes "table_ok s" and "index_of idv (interfaces_of s) = Some j"
    and "serialize_rpc_packet ok idv 0 (Some []) = Inr (packet, m)" and "rpc_fits ok []"
  shows "handle_interface_result e packet m portid s = Inl Out_of_bounds"
proof -
  obtain q where q: "find_interface (INTERFACE_LIST s) (sint (INTERFACE_COUNT s)) idv s = Inr q" "q \<noteq> 0"
    using registry_table.lookup [OF assms(1,2)] .
  have p: "packet = rpc_bytes idv 0 []"
    using serialize_rpc_ok [OF assms(4), of 0 idv] assms(3) by simp
  have "interface_id packet = Inr idv" by (simp add: p rpc_bytes_def interface_id_def)
  moreover have "unserialize_rpc_packet (kmem e) packet m = Inr ([], 0)"
    using unserialize_rpc_ok [of "kmem e" "[]" 0 idv "[]" m] by (simp add: p)
  ultimately show ?thesis by (simp add: handle_interface_result_def q)
qed

section \<open>Examples\<close>

lemma three_table: "table_ok three_registry"
  using three_registry_ok by (simp add: table_ok_def) (simp add: three_registry_def)

lemma three_distinct: "distinct (map if_id (interfaces_of three_registry))"
  by (simp add: three_interfaces stored_interface_def)

lemma three_second: "index_of 2 (interfaces_of three_registry) = Some 1"
  by (simp add: three_interfaces stored_interface_def)

lemma three_second_ctrl: "ctrl (interfaces_of three_registry ! 1) = Some ctrl_0"
  by (simp add: three_interfaces stored_interface_def blank_interface_def)

definition open_socket :: "nat \<Rightarrow> socket_t" where
  "open_socket n = \<lparr>sock_no = n, sk_null = False\<rparr>"

definition call_2 :: "byte list" where
  "call_2 = [2,0,0,0, 0,0,0,0]"

definition result_2 :: "byte list" where
  "result_2 = [2,0,0,0, 1,0,0,0, 2,0,0,0, 65,0]"

lemma call_2_id: "interface_id call_2 = Inr 2"
  by (simp add: call_2_def interface_id_def bytes_u32_def)

lemma result_2_printable: "printable_result kind_kernel 2 result_2"
  by (simp add: printable_result_def result_2_def interface_id_def bytes_u32_def
      unserialize_rpc_packet_def rd_attr_def rd_mem_def kgrant_def kind_kernel_def kmalloc_max_def
      fmt_s_def strlen_def cstrlen_def)

theorem handle_activate_marks_witness:
  "\<exists>t. handle_activate_interface
      (u32_bytes (word_of_nat (length [2, 9 :: u32])) @ u32_codec.enc_list [2, 9] @ [0]) 13 77
      three_registry = Inr t \<and> registry_ok t \<and> trace t = trace three_registry \<and>
    interfaces_of t = activated_by 77 [2, 9] (interfaces_of three_registry)"
  by (rule handle_activate_marks [OF three_registry_ok three_distinct]) simp_all

theorem activation_count_wraps_witness:
  "handle_activate_interface (u32_bytes 4294967295 @ [1, 0, 0, 0]) 8 77 three_registry
    = Inl Out_of_bounds"
  by (rule activation_count_wraps [OF three_registry_ok three_distinct])
    (simp_all add: three_interfaces)

theorem call_then_result_witness:
  "\<exists>r t u. execute_interface kind_kernel call_2 8 (Some (open_socket 5)) three_registry = Inr (r, t) \<and>
    handle_interface_result kind_kernel result_2 14 77 t = Inr u \<and>
    trace u = [Sock_sent (sock_no (open_socket 5)) None (take (unat (14 :: u32)) result_2),
      Sock_sent (sock_no (open_socket 5)) None (u32_bytes 14),
      Nl_unicast 0 (client_portid ctrl_0) (take (unat (8 :: u32)) call_2)] @ trace three_registry"
  by (rule call_then_result [OF three_table three_distinct call_2_id _ _ three_second three_second_ctrl
        _ _ _ result_2_printable])
    (simp_all add: three_registry_def kind_kernel_def open_socket_def call_2_def result_2_def)

theorem second_caller_takes_results_witness:
  "\<exists>r1 t1 r2 t2 u1 u2.
    execute_interface kind_kernel call_2 8 (Some (open_socket 5)) three_registry = Inr (r1, t1) \<and>
    execute_interface kind_kernel call_2 8 (Some (open_socket 6)) t1 = Inr (r2, t2) \<and>
    handle_interface_result kind_kernel result_2 14 77 t2 = Inr u1 \<and>
    handle_interface_result kind_kernel result_2 14 77 u1 = Inr u2 \<and>
    (\<exists>tr. trace u2 = tr @ trace three_registry \<and>
      (\<forall>ev \<in> set tr. \<forall>a x no. ev = Sock_sent no a x \<longrightarrow> no = sock_no (open_socket 6)) \<and>
      length [ev \<leftarrow> tr. ev = Sock_sent (sock_no (open_socket 6)) None (take (unat (14 :: u32)) result_2)]
        \<ge> 2)"
  by (rule second_caller_takes_results [OF three_table three_distinct call_2_id _ _ three_second
        three_second_ctrl _ _ _ result_2_printable])
    (simp_all add: three_registry_def kind_kernel_def open_socket_def call_2_def result_2_def)

theorem execute_unknown_refused_witness:
  "execute_interface kind_kernel [9,0,0,0] 4 None three_registry = Inr (- 1, three_registry)"
  by (rule execute_unknown_refused [OF three_table, of _ 9])
    (simp_all add: interface_id_def bytes_u32_def three_interfaces stored_interface_def)

theorem result_without_values_faults_witness:
  "handle_interface_result kind_kernel [2,0,0,0, 0,0,0,0] 8 77 three_registry = Inl Out_of_bounds"
proof -
  have f: "rpc_fits kmalloc_max []"
    by (auto simp: rpc_fits_def intro!: exI [of _ 8] roomy_kmalloc_max)
  have "serialize_rpc_packet kmalloc_max 2 0 (Some []) = Inr ([2,0,0,0, 0,0,0,0], 8)"
    by (simp add: serialize_rpc_ok [OF f]) (simp add: rpc_bytes_def u32_bytes_def drop_bit_eq_div)
  then show ?thesis by (rule result_without_values_faults [OF three_table three_second _ f])
qed

end
