(* ===== verification/Peers.thy ===== *)
theory Peers
  imports Netlink Packet_Interfaces
begin

text \<open>
  \<open>module/network/peer.c\<close>: the table of peers, learned from their broadcasts, and the two
  requests a node sends to a peer. \<open>register_peer_device\<close> of \<open>module/device/peer.c\<close> is here
  because adding a peer calls it.
\<close>

section \<open>The table\<close>

record peer_t =
  peer_id :: int
  peer_name :: cptr
  peer_addr :: u32
  interfaces :: "iarray option"
  interface_count :: int
  dev :: bool

definition peer_0 :: peer_t where
  "peer_0 = \<lparr>peer_id = 0, peer_name = PNull, peer_addr = 0, interfaces = None, interface_count = 0,
     dev = False\<rparr>"

record kstate = registry +
  peers :: "peer_t list option"
  peer_count :: int
  peer_major :: "nat option"
  peer_class :: "nat option"

abbreviation (input) SIZEOF_PEER :: nat where "SIZEOF_PEER \<equiv> 48"
abbreviation (input) SIZEOF_SOCKADDR_IN :: nat where "SIZEOF_SOCKADDR_IN \<equiv> 16"
abbreviation (input) MAX_PEERS :: int where "MAX_PEERS \<equiv> 256"
abbreviation (input) EINVALIDPEERID :: int where "EINVALIDPEERID \<equiv> 10000"
abbreviation (input) EINVALIDSIZE :: int where "EINVALIDSIZE \<equiv> 30001"

definition init_peers :: "kenv \<Rightarrow> 'z kstate_scheme \<Rightarrow> 'z kstate_scheme" where
  "init_peers e s = s\<lparr>peers := kzalloc_array (kmem e) SIZEOF_PEER (nat MAX_PEERS) peer_0,
     peer_count := 0\<rparr>"

definition peers_ready :: "kenv \<Rightarrow> 'z kstate_scheme \<Rightarrow> 'z kstate_scheme" where
  "peers_ready e s = (if peers s = None then init_peers e s else s)"

fun find_peer :: "peer_t list option \<Rightarrow> nat \<Rightarrow> nat \<Rightarrow> u32 \<Rightarrow> int result" where
  "find_peer ps i 0 a = Inr (- 1)"
| "find_peer ps i (Suc n) a = bindr (arr_get ps i) (\<lambda>p.
     if peer_addr p = a then Inr (int i) else find_peer ps (Suc i) n a)"

definition get_peer :: "kenv \<Rightarrow> u32 \<Rightarrow> 'z kstate_scheme \<Rightarrow> (int \<times> 'z kstate_scheme) result" where
  "get_peer e from_addr s = (let s = peers_ready e s in
     bindr (find_peer (peers s) 0 (nat (peer_count s)) from_addr) (\<lambda>i. Inr (i, s)))"

definition peer_at :: "'z kstate_scheme \<Rightarrow> int \<Rightarrow> peer_t result" where
  "peer_at s i = (if i < 0 then Inl Out_of_bounds else arr_get (peers s) (nat i))"

definition put_peer :: "int \<Rightarrow> peer_t \<Rightarrow> 'z kstate_scheme \<Rightarrow> 'z kstate_scheme" where
  "put_peer i p s = s\<lparr>peers := map_option (\<lambda>ps. ps[nat i := p]) (peers s)\<rparr>"

text \<open>The minor number of a peer's device is the peer's index.\<close>

definition register_peer_device ::
  "kenv \<Rightarrow> int \<Rightarrow> 'z kstate_scheme \<Rightarrow> (int \<times> 'z kstate_scheme) result" where
  "register_peer_device e i s = bindr (peer_at s i) (\<lambda>p.
     case peer_class s of None \<Rightarrow> Inl Null_deref | Some c \<Rightarrow>
     if device_create e (trace s) c (peer_id p)
     then Inr (0, emit (Device_created c (peer_id p)) (put_peer i (p\<lparr>dev := True\<rparr>) s))
     else Inr (- 1, put_peer i (p\<lparr>dev := False\<rparr>) s))"

definition add_peer ::
  "kenv \<Rightarrow> u32 \<Rightarrow> byte list \<Rightarrow> u32 \<Rightarrow> 'z kstate_scheme \<Rightarrow> (int \<times> 'z kstate_scheme) result" where
  "add_peer e from_addr packet packet_length s =
     (let s = peers_ready e s in
     if MAX_PEERS \<le> peer_count s then Inr (- EINVALIDPEERID, s) else
     bindr (unserialize_interfaces_packet (kmem e) packet packet_length s) (\<lambda>(res, s).
     case res of Inl err \<Rightarrow> Inr (err, s) | Inr (a, count) \<Rightarrow>
     let i = peer_count s in
     bindr (peer_at s i) (\<lambda>p.
     let s = put_peer i (p\<lparr>interface_count := sint count, peer_id := i, peer_name := PNull,
           peer_addr := from_addr, interfaces := None\<rparr>) s in
     bindr (register_peer_device e i s) (\<lambda>(_, s).
     Inr (i, s\<lparr>peer_count := peer_count s + 1\<rparr>)))))"

definition update_peer_interfaces ::
  "kenv \<Rightarrow> int \<Rightarrow> byte list \<Rightarrow> u32 \<Rightarrow> 'z kstate_scheme \<Rightarrow> (int \<times> 'z kstate_scheme) result" where
  "update_peer_interfaces e idv packet packet_length s =
     (if peers s = None then Inr (- 1, s) else
     if peer_count s \<le> idv then Inr (- EINVALIDPEERID, s) else
     bindr (unserialize_interfaces_packet (kmem e) packet packet_length s) (\<lambda>(res, s).
     case res of Inl err \<Rightarrow> Inr (err, s) | Inr (a, count) \<Rightarrow>
     bindr (peer_at s idv) (\<lambda>p.
     bindr (free_interfaces (interfaces p) (interface_count p) s) (\<lambda>s.
     Inr (0, put_peer idv (p\<lparr>interfaces := Some a, interface_count := sint count\<rparr>) s)))))"

section \<open>Requests to a peer\<close>

text \<open>
  \<open>init_socket\<close>: the code returned, and the socket with the address. The socket is created
  even when the connection fails.
\<close>

definition init_socket ::
  "kenv \<Rightarrow> int \<Rightarrow> 'z kstate_scheme \<Rightarrow> (int \<times> (socket_t \<times> u32) option \<times> 'z kstate_scheme) result" where
  "init_socket e peerid s =
     (if peerid < 0 \<or> peer_count s \<le> peerid then Inr (- EINVALIDPEERID, None, s) else
     case sock_create e (trace s) of Inl err \<Rightarrow> Inr (err, None, s) | Inr k \<Rightarrow>
     let s = emit (Sock_created k) s in
     bindr (require (kgrant (kmem e) SIZEOF_SOCKADDR_IN) Null_deref) (\<lambda>_.
     bindr (peer_at s peerid) (\<lambda>p.
     let err = sock_connect e (trace s) k (peer_addr p);
         s = emit (Sock_connected k (peer_addr p)) s
     in Inr (err, Some (\<lparr>sock_no = k, sk_null = False\<rparr>, peer_addr p), s))))"

text \<open>
  Receiving into a four-byte integer: the bytes received replace the first bytes of the
  variable, whose value before is \<open>None\<close> when it was never assigned.
\<close>

definition recv_int ::
  "kenv \<Rightarrow> socket_t option \<Rightarrow> byte list option \<Rightarrow> 'z mem_scheme \<Rightarrow>
   (byte list option \<times> 'z mem_scheme) result" where
  "recv_int e sock v s = (case sock of None \<Rightarrow> Inl Null_deref | Some k \<Rightarrow>
     if sk_null k then Inr (v, s) else
     (let (r, sender, x) = sock_recvmsg e (trace s) (sock_no k) 4;
          s = emit (Sock_received (sock_no k) 4) s in
      if 4 < length x then Inl Out_of_bounds else
      Inr (if length x = 4 then Some x else map_option (\<lambda>b. x @ drop (length x) b) v, s)))"

definition int_value :: "byte list option \<Rightarrow> int result" where
  "int_value v = (case v of None \<Rightarrow> Inl Uninit_read
     | Some b \<Rightarrow> bindr (rd_u32 b) (\<lambda>(w, _). Inr (sint w)))"

definition fetch_remote_interface_info ::
  "kenv \<Rightarrow> int \<Rightarrow> ptr \<Rightarrow> 'z kstate_scheme \<Rightarrow> (ptr \<times> 'z kstate_scheme) result" where
  "fetch_remote_interface_info e peerid interface s =
     bindr (init_socket e peerid s) (\<lambda>(err, so, s).
     if err < 0 then Inr (0, s) else
     case so of None \<Rightarrow> Inl Uninit_read | Some (sock, a) \<Rightarrow>
     bindr (require (kgrant (kmem e) SIZEOF_ATTR_VALUE) Null_deref) (\<lambda>_.
     bindr (deref interface s) (\<lambda>x.
     bindr (serialize_rpc_packet (kmem e) 0 1
       (Some [\<lparr>len = 4, addr = PBlk (u32_bytes (if_id x))\<rparr>])) (\<lambda>(packet, packet_length).
     bindr (sock_sendto e (Some sock) (Some a) (PBlk packet) (sint packet_length) s) (\<lambda>(err, s).
     if err < 0 then Inr (0, s) else
     bindr (sock_recvfrom e (Some sock) (kzalloc_bytes (kmem e) (unat BUFFER_INC_SIZE))
       (int (unat BUFFER_INC_SIZE)) s) (\<lambda>(r, sender, buffer, s).
     bindr (mem_block buffer) (\<lambda>b.
     bindr (unserialize_interface_info (kmem e) b (word_of_int r)) (\<lambda>i.
     bindr (deref interface s) (\<lambda>x.
     Inr (0, store interface (x\<lparr>info := Some i\<rparr>) s))))))))))"

text \<open>
  \<open>execute_remote_interface\<close>: its end frees \<open>buffer\<close> if it is not null, so it reads the
  variable, which is assigned only once the size of the reply is known.
\<close>

definition end_execute ::
  "cptr \<Rightarrow> socket_t \<Rightarrow> int \<Rightarrow> 'z mem_scheme \<Rightarrow> (int \<times> 'z mem_scheme) result" where
  "end_execute buffer sock err s = (case buffer of PUninit \<Rightarrow> Inl Uninit_read
     | _ \<Rightarrow> Inr (err, emit (Sock_released (sock_no sock)) s))"

definition execute_remote_interface ::
  "kenv \<Rightarrow> int \<Rightarrow> ptr \<Rightarrow> 'z kstate_scheme \<Rightarrow> (int \<times> 'z kstate_scheme) result" where
  "execute_remote_interface e peerid interface s =
     bindr (init_socket e peerid s) (\<lambda>(err, so, s).
     if err < 0 then Inr (err, s) else
     case so of None \<Rightarrow> Inl Uninit_read | Some (sock, a) \<Rightarrow>
     bindr (deref interface s) (\<lambda>x.
     bindr (serialize_rpc_packet (kmem e) (if_id x) (interface_t.argc x) (argv x))
       (\<lambda>(packet, packet_length).
     bindr (sock_sendto e (Some sock) (Some a) (PBlk (u32_bytes packet_length)) 4 s) (\<lambda>(err, s).
     if err < 0 then end_execute PUninit sock err s else
     bindr (sock_sendto e (Some sock) (Some a) (PBlk packet) (sint packet_length) s) (\<lambda>(err, s).
     if err < 0 then end_execute PUninit sock err s else
     bindr (recv_int e (Some sock) None s) (\<lambda>(v, s).
     bindr (int_value v) (\<lambda>sz.
     if sz \<le> 0 then end_execute PUninit sock (- EINVALIDSIZE) s else
     case kzalloc_bytes (kmem e) (nat sz) of PNull \<Rightarrow> end_execute PNull sock (- EINVALIDSIZE) s
     | buffer \<Rightarrow>
     bindr (sock_recvfrom e (Some sock) buffer sz s) (\<lambda>(r, sender, buffer, s).
     bindr (mem_block buffer) (\<lambda>b.
     bindr (unserialize_rpc_packet (kmem e) b (word_of_int r)) (\<lambda>(retv, retc).
     bindr (deref interface s) (\<lambda>x.
     end_execute buffer sock err (store interface (x\<lparr>retv := Some retv, retc := retc\<rparr>) s))))))))))))"

section \<open>What the readers and \<open>free_interfaces\<close> do to the memory\<close>

lemma new_interfaces_fresh:
  "new_interfaces xs s = (a, t) \<Longrightarrow>
   a = map Some [next_ptr s..<next_ptr s + length xs] \<and> next_ptr t = next_ptr s + length xs"
proof (induction xs arbitrary: s a t)
  case (Cons x xs)
  obtain b where "a = Some (next_ptr s) # b"
      "new_interfaces xs (snd (new_interface x s)) = (b, t)"
    using Cons.prems by (auto simp: new_interface_def split: prod.splits)
  with Cons.IH [OF this(2)] have "a = Some (next_ptr s) # map Some [Suc (next_ptr s)..<Suc (next_ptr s) + length xs]"
      "next_ptr t = Suc (next_ptr s) + length xs"
    by (simp_all add: new_interface_def del: upt_Suc)
  moreover have "[next_ptr s..<next_ptr s + length (x # xs)]
      = next_ptr s # [Suc (next_ptr s)..<Suc (next_ptr s) + length xs]"
    by (subst upt_conv_Cons) simp_all
  ultimately show ?case by simp
qed simp

lemma unserialize_rejects:
  "unserialize_interfaces_packet ok packet n s = Inr (Inl err, t) \<Longrightarrow> t = s \<and> err < 0"
  by (auto simp: unserialize_interfaces_alt bindr_eq_Inr require_eq_Inr split: if_splits)

lemma unserialize_accepts:
  assumes "unserialize_interfaces_packet ok packet n s = Inr (Inr (a, c), t)"
  obtains xs where "new_interfaces xs s = (a, t)" "length xs = unat c" "unat c \<le> 256"
proof -
  obtain q r where q: "rd_list (unat c) (rd_entry ok) (q, s) = Inr (a, r, t)" "\<not> 256 < c"
    using assms by (auto simp: unserialize_interfaces_alt bindr_eq_Inr require_eq_Inr
        split: if_splits)
  then obtain xs where "rd_list (unat c) (rd_interface ok) q = Inr (xs, r)" "new_interfaces xs s = (a, t)"
    by (cases "rd_list (unat c) (rd_interface ok) q") (auto simp: rd_entries split: prod.splits)
  with that [of xs] q(2) show thesis
    by (auto simp: rd_list_length word_less_nat_alt)
qed

definition release_all :: "iarray \<Rightarrow> 'z mem_scheme \<Rightarrow> 'z mem_scheme" where
  "release_all a s = s\<lparr>heap := (\<lambda>p. if Some p \<in> set a then None else heap s p)\<rparr>"

definition live :: "'z mem_scheme \<Rightarrow> ptr option \<Rightarrow> bool" where
  "live s e \<longleftrightarrow> (\<exists>p. e = Some p \<and> p \<noteq> 0 \<and> heap s p \<noteq> None)"

lemma free_interfaces_all:
  assumes "list_all (live s) a" and "distinct a"
  shows "free_interfaces (Some a) (int (length a)) s = Inr (release_all a s)"
proof -
  have "n \<le> length a \<Longrightarrow> for_loop 0 n (\<lambda>i s. bindr (slot (Some a) i) (\<lambda>p. free_interface p s)) s
      = Inr (release_all (take n a) s)" for n
  proof (induction n)
    case 0
    then show ?case by (simp add: release_all_def)
  next
    case (Suc n)
    have "live s (a ! n)" using assms(1) Suc.prems by (simp add: list_all_length)
    then obtain p where p: "a ! n = Some p" "p \<noteq> 0" "heap s p \<noteq> None"
      unfolding live_def by blast
    have new: "Some p \<notin> set (take n a)"
      using nth_eq_iff_index_eq [OF assms(2), of _ n] Suc.prems p(1) by (auto simp: in_set_conv_nth)
    have split: "take (Suc n) a = take n a @ [Some p]"
      using Suc.prems p(1) by (simp add: take_Suc_conv_app_nth)
    have "free_interface p (release_all (take n a) s) = Inr (release_all (take (Suc n) a) s)"
      using p new by (auto simp: free_interface_def deref_def release_all_def release_def split
          split: option.splits intro!: arg_cong [where f = "\<lambda>h. s\<lparr>heap := h\<rparr>"])
    moreover have "slot (Some a) n = Inr p" using Suc.prems p(1) by (simp add: slot_eq_Inr)
    ultimately show ?case
      using Suc for_loop_append [of 0 n 1 "\<lambda>i s. bindr (slot (Some a) i) (\<lambda>p. free_interface p s)" s]
      by simp
  qed
  from this [of "length a"] show ?thesis
    by (cases "a = []") (simp_all add: free_interfaces_def release_all_def del: for_loop.simps)
qed

lemma describes_live: "describes a s xs \<Longrightarrow> list_all (live s) a"
  by (fastforce simp: describes_def live_def list_all2_conv_all_nth list_all_length)

lemma release_all_simps [simp]:
  "next_ptr (release_all a s) = next_ptr s" "trace (release_all a s) = trace s"
  "heap (release_all a s) = (\<lambda>p. if Some p \<in> set a then None else heap s p)"
  by (simp_all add: release_all_def)

end
