(* ===== verification/Service.thy ===== *)
theory Service
  imports Peers
begin

text \<open>
  \<open>module/network/service.c\<close>: the server that takes calls from other nodes. A connection carries
  the length of a call packet in four bytes and then the packet; each runs in a thread of its
  own, and stays open for the result.
\<close>

section \<open>A connection\<close>

definition handle_connection ::
  "kenv \<Rightarrow> socket_t \<Rightarrow> 'z registry_scheme \<Rightarrow> (int \<times> 'z registry_scheme) result" where
  "handle_connection e sock s =
     (let err = sock_getname e (trace s) (sock_no sock) in
     if err < 0 then Inr (err, s) else
     bindr (recv_int e (Some sock) (Some [0, 0, 0, 0]) s) (\<lambda>(v, s).
     bindr (int_value v) (\<lambda>sz.
     if sz \<le> 0 then Inr (- EINVALIDSIZE, s) else
     case kzalloc_bytes (kmem e) (nat sz) of PNull \<Rightarrow> Inr (- EINVALIDSIZE, s) | buffer \<Rightarrow>
     bindr (sock_recvfrom e (Some sock) buffer sz s) (\<lambda>(len, sender, buffer, s).
     bindr (mem_block buffer) (\<lambda>b.
     bindr (execute_interface e b (word_of_int len) (Some sock) s) (\<lambda>(_, s).
     Inr (err, s)))))))"

text \<open>
  The accept loop: \<open>Inl\<close> of a code when it returns, \<open>Inr ()\<close> when it still runs after \<open>n\<close>
  connections.
\<close>

primrec service_accept ::
  "kenv \<Rightarrow> nat \<Rightarrow> nat \<Rightarrow> 'z mem_scheme \<Rightarrow> ((int + unit) \<times> 'z mem_scheme) result" where
  "service_accept e listener 0 s = Inr (Inr (), s)"
| "service_accept e listener (Suc n) s =
     (case sock_create e (trace s) of Inl err \<Rightarrow> Inr (Inl err, s) | Inr k \<Rightarrow>
     let s = emit (Sock_created k) s; err = sock_accept e (trace s) listener k in
     if err < 0 then Inr (Inl err, s) else
     bindr (start_thread e (Connection k) (emit (Sock_accepted listener k) s)) (service_accept e listener n))"

definition service_server_loop ::
  "kenv \<Rightarrow> nat \<Rightarrow> nat \<Rightarrow> 'z mem_scheme \<Rightarrow> ((int + unit) \<times> 'z mem_scheme) result" where
  "service_server_loop e listener n s =
     (let err = sock_listen e (trace s) listener in
     if err < 0 then Inr (Inl err, s)
     else service_accept e listener n (emit (Sock_listening listener) s))"

section \<open>What a connection does\<close>

lemma recv_int_whole:
  assumes "\<not> sk_null k" and "sock_recvmsg e (trace s) (sock_no k) 4 = (r, sender, x)" and "length x = 4"
  shows "recv_int e (Some k) v s = Inr (Some x, emit (Sock_received (sock_no k) 4) s)"
  using assms by (simp add: recv_int_def Let_def)

lemma int_value_u32 [simp]: "int_value (Some (u32_bytes w)) = Inr (sint w)"
  using rd_u32_append [of w "[]"] by (simp add: int_value_def)

lemma recv_block:
  assumes "\<not> sk_null k" and "sock_recvmsg e (trace s) (sock_no k) n = (r, sender, x)"
    and "length x = n" and "0 < n" and "n < 2 ^ 31"
  shows "sock_recvfrom e (Some k) (PBlk (replicate n 0)) (int n) s
    = Inr (r, sender, PBlk x, emit (Sock_received (sock_no k) n) s)"
  using assms by (auto simp: sock_recvfrom_def overlay_def)

text \<open>
  A peer's message is the length of a packet and the packet: what two receives of these sizes
  get from the stream.
\<close>

definition stream_of :: "kenv \<Rightarrow> nat \<Rightarrow> byte list \<Rightarrow> bool" where
  "stream_of e k packet \<longleftrightarrow> (\<forall>tr. \<exists>a. sock_recvmsg e tr k 4 = (4, a, u32_bytes (word_of_nat (length packet)))) \<and>
     (\<forall>tr. \<exists>a. sock_recvmsg e tr k (length packet) = (int (length packet), a, packet))"

lemma sint_length: "length packet < 2 ^ 31 \<Longrightarrow> sint (word_of_nat (length packet) :: u32) = int (length packet)"
  using sint_small_u32 [of "word_of_nat (length packet)"] by (simp add: unat_of_nat_u32)

lemma receive_stream:
  assumes "stream_of e (sock_no k) packet" and "\<not> sk_null k" and "0 < length packet"
    and "length packet < 2 ^ 31"
  obtains a where "recv_int e (Some k) v s
      = Inr (Some (u32_bytes (word_of_nat (length packet))), emit (Sock_received (sock_no k) 4) s)"
    "sock_recvfrom e (Some k) (PBlk (replicate (length packet) 0)) (int (length packet)) t
      = Inr (int (length packet), a, PBlk packet, emit (Sock_received (sock_no k) (length packet)) t)"
proof -
  obtain a1 where "sock_recvmsg e (trace s) (sock_no k) 4 = (4, a1, u32_bytes (word_of_nat (length packet)))"
    using assms(1) unfolding stream_of_def by blast
  note 1 = recv_int_whole [OF assms(2) this, of v]
  obtain a2 where "sock_recvmsg e (trace t) (sock_no k) (length packet) = (int (length packet), a2, packet)"
    using assms(1) unfolding stream_of_def by blast
  note 2 = recv_block [OF assms(2) this refl assms(3,4)]
  show thesis by (rule that [OF _ 2]) (use 1 in simp)
qed

lemma connection_executes:
  assumes "stream_of e (sock_no k) packet" and "\<not> sk_null k" and "0 < length packet"
    and "length packet < 2 ^ 31" and "kgrant (kmem e) (length packet)"
    and "0 \<le> sock_getname e (trace s) (sock_no k)"
  shows "handle_connection e k s = bindr (execute_interface e packet (word_of_nat (length packet)) (Some k)
      (emit (Sock_received (sock_no k) (length packet)) (emit (Sock_received (sock_no k) 4) s)))
    (\<lambda>(_, t). Inr (sock_getname e (trace s) (sock_no k), t))"
proof -
  obtain a where "recv_int e (Some k) (Some [0, 0, 0, 0]) s
      = Inr (Some (u32_bytes (word_of_nat (length packet))), emit (Sock_received (sock_no k) 4) s)"
    "sock_recvfrom e (Some k) (PBlk (replicate (length packet) 0)) (int (length packet))
      (emit (Sock_received (sock_no k) 4) s) = Inr (int (length packet), a, PBlk packet,
      emit (Sock_received (sock_no k) (length packet)) (emit (Sock_received (sock_no k) 4) s))"
    using receive_stream [OF assms(1-4)] by metis
  then show ?thesis
    using assms(3-6) by (simp add: handle_connection_def sint_length kzalloc_bytes_def)
qed

text \<open>
  C35: the request for a description never reaches the peer's registry: the client sends the
  packet alone, without the length the server expects in front, and the identifier 0 it starts
  with is read as a length of 0. The server refuses it and the registry stays as it was.
\<close>

theorem description_request_refused:
  assumes "rpc_fits g [v]" and "serialize_rpc_packet g 0 1 (Some [v]) = Inr (packet, m)"
    and "\<not> sk_null k" and "\<forall>tr. \<exists>a. sock_recvmsg e tr (sock_no k) 4 = (4, a, take 4 packet)"
    and "0 \<le> sock_getname e (trace s) (sock_no k)"
  shows "handle_connection e k s = Inr (- EINVALIDSIZE, emit (Sock_received (sock_no k) 4) s)"
proof -
  have "packet = rpc_bytes 0 1 [v]" using serialize_rpc_ok [OF assms(1), of 1 0] assms(2) by simp
  then have p: "take 4 packet = u32_bytes 0" by (simp add: rpc_bytes_def)
  obtain a where "sock_recvmsg e (trace s) (sock_no k) 4 = (4, a, take 4 packet)"
    using assms(4) by blast
  from recv_int_whole [OF assms(3) this, of "Some [0, 0, 0, 0]"] show ?thesis
    using assms(5) by (simp add: p handle_connection_def)
qed

fun threads_started :: "event list \<Rightarrow> nat" where
  "threads_started [] = 0"
| "threads_started (Thread_started (Connection k) # tr) = Suc (threads_started tr)"
| "threads_started (_ # tr) = threads_started tr"

lemma service_accept_threads:
  "service_accept e listener n s = Inr (r, t) \<Longrightarrow>
   (r = Inr () \<longrightarrow> threads_started (trace t) = n + threads_started (trace s)) \<and>
   (\<forall>err. r = Inl err \<longrightarrow> threads_started (trace t) < n + threads_started (trace s))"
proof (induction n arbitrary: s)
  case (Suc n)
  show ?case
  proof (cases "sock_create e (trace s)")
    case (Inr k)
    show ?thesis
    proof (cases "sock_accept e (Sock_created k # trace s) listener k < 0")
      case False
      with Suc.prems Inr have "service_accept e listener n (emit (Thread_started (Connection k))
          (emit (Sock_accepted listener k) (emit (Sock_created k) s))) = Inr (r, t)"
        by (simp add: Let_def start_thread_def split: if_splits)
      from Suc.IH [OF this] show ?thesis by simp
    qed (use Suc.prems Inr in \<open>auto simp: Let_def\<close>)
  qed (use Suc.prems in auto)
qed auto

text \<open>
  The accept loop survives exactly as long as sockets can be created and connections
  accepted: after \<open>n\<close> rounds without an error it has started \<open>n\<close> threads, and the first error
  ends the server for good.
\<close>

theorem service_loop_threads:
  assumes "service_server_loop e listener n s = Inr (r, t)"
  shows "case r of Inr _ \<Rightarrow> threads_started (trace t) = n + threads_started (trace s)
    | Inl err \<Rightarrow> threads_started (trace t) \<le> n + threads_started (trace s)"
  using assms service_accept_threads [of e listener n "emit (Sock_listening listener) s" r t]
  by (auto simp: service_server_loop_def Let_def less_imp_le split: sum.splits if_splits)

section \<open>Examples\<close>

definition asked_kernel :: kenv where
  "asked_kernel = kind_kernel\<lparr>sock_recvmsg := (\<lambda>tr k n. (4, None, [0, 0, 0, 0]))\<rparr>"

theorem description_request_refused_witness:
  "handle_connection asked_kernel (open_socket 4) three_registry
    = Inr (- EINVALIDSIZE, emit (Sock_received (sock_no (open_socket 4)) 4) three_registry)"
proof -
  have f: "rpc_fits kmalloc_max [\<lparr>len = 4, addr = PBlk [2,0,0,0]\<rparr>]"
    by (auto simp: rpc_fits_def attr_sendable_def attr_readable_def enc_attr_def
        attr_codec.enc_list_def attr_bytes_def intro!: exI [of _ 64] roomy_kmalloc_max)
  have "serialize_rpc_packet kmalloc_max 0 1 (Some [\<lparr>len = 4, addr = PBlk [2,0,0,0]\<rparr>])
      = Inr ([0,0,0,0, 1,0,0,0, 4,0,0,0, 2,0,0,0], 16)"
    by (simp add: serialize_rpc_ok [OF f]) (simp add: rpc_bytes_def enc_attr_def
        attr_codec.enc_list_def attr_bytes_def u32_bytes_def drop_bit_eq_div)
  then show ?thesis
    by (rule description_request_refused [OF f])
      (simp_all add: asked_kernel_def kind_kernel_def open_socket_def)
qed

definition served_three :: registry where
  "served_three = foldr emit (concat (map (\<lambda>k. [Thread_started (Connection k), Sock_accepted 7 k, Sock_created k])
     [7, 4, 1]) @ [Sock_listening 7]) three_registry"

theorem service_loop_threads_witness:
  "case (Inr () :: int + unit) of Inr _ \<Rightarrow> threads_started (trace served_three) = 3 + threads_started (trace three_registry)
    | Inl err \<Rightarrow> threads_started (trace served_three) \<le> 3 + threads_started (trace three_registry)"
proof (rule service_loop_threads)
  have "service_accept kind_kernel 7 (Suc (Suc (Suc 0))) (emit (Sock_listening 7) three_registry)
      = Inr (Inr (), served_three)"
    by (simp add: served_three_def start_thread_def kind_kernel_def three_registry_def emit_def)
  then show "service_server_loop kind_kernel 7 3 three_registry = Inr (Inr (), served_three)"
    by (simp add: service_server_loop_def kind_kernel_def numeral_3_eq_3)
qed

end
