(* ===== verification/Resources.thy ===== *)
theory Resources
  imports Interface_Types "HOL-Library.Multiset"
begin

text \<open>
  What a trace leaves behind: the resources of the kernel that were acquired and not released.
  The lifecycle of the module, the devices and the broadcasts are judged by it.
\<close>

datatype resource =
    Socket_open nat
  | Netlink_open nat
  | Proc_entry nat
  | Thread_running thread
  | Chrdev_held nat
  | Class_held nat
  | Device_node nat int
  | Cdev_live nat
  | Module_ref

fun acquired :: "event \<Rightarrow> resource option" where
  "acquired (Sock_created k) = Some (Socket_open k)"
| "acquired (Nl_created k) = Some (Netlink_open k)"
| "acquired (Proc_created x en) = Some (Proc_entry en)"
| "acquired (Proc_dir_created en) = Some (Proc_entry en)"
| "acquired (Thread_started th) = Some (Thread_running th)"
| "acquired (Chrdev_allocated m) = Some (Chrdev_held m)"
| "acquired (Class_created c) = Some (Class_held c)"
| "acquired (Device_created c n) = Some (Device_node c n)"
| "acquired (Cdev_added m) = Some (Cdev_live m)"
| "acquired Module_got = Some Module_ref"
| "acquired _ = None"

fun released :: "event \<Rightarrow> resource option" where
  "released (Sock_released k) = Some (Socket_open k)"
| "released (Nl_released k) = Some (Netlink_open k)"
| "released (Proc_removed en) = Some (Proc_entry en)"
| "released (Thread_stopped th) = Some (Thread_running th)"
| "released (Chrdev_freed m) = Some (Chrdev_held m)"
| "released (Class_destroyed c) = Some (Class_held c)"
| "released (Device_destroyed c n) = Some (Device_node c n)"
| "released (Cdev_deleted m) = Some (Cdev_live m)"
| "released Module_put = Some Module_ref"
| "released _ = None"

primrec held :: "event list \<Rightarrow> resource multiset" where
  "held [] = {#}"
| "held (ev # tr) = (case released ev of Some r \<Rightarrow> held tr - {#r#}
     | None \<Rightarrow> case acquired ev of Some r \<Rightarrow> add_mset r (held tr) | None \<Rightarrow> held tr)"

text \<open>A resource that is released twice was no longer held the second time.\<close>

primrec over_released :: "event list \<Rightarrow> resource multiset" where
  "over_released [] = {#}"
| "over_released (ev # tr) = (case released ev of
     Some r \<Rightarrow> if r \<in># held tr then over_released tr else add_mset r (over_released tr)
   | None \<Rightarrow> over_released tr)"

text \<open>Events that neither acquire nor release: what the handlers of calls and results emit.\<close>

definition neutral :: "event \<Rightarrow> bool" where
  "neutral ev \<longleftrightarrow> acquired ev = None \<and> released ev = None"

lemma held_neutral: "list_all neutral tr \<Longrightarrow> held (tr @ tr') = held tr'"
  by (induction tr) (auto simp: neutral_def)

lemma neutral_sends [simp]:
  "neutral (Sock_sent k a x)" "neutral (Sock_received k n)" "neutral (Nl_unicast k p x)"
  "neutral (Sock_bound k)" "neutral (Sock_listening k)" "neutral (Sock_connected k b)"
  "neutral (Sock_accepted k n)" "neutral (Chrdev_unregistered n)"
  by (simp_all add: neutral_def)

end
