(* ===== verification/Broadcast.thy ===== *)
theory Broadcast
  imports Service Resources
begin

text \<open>
  \<open>module/network/broadcast.c\<close>: every second the node sends the list of its interfaces to the
  broadcast address of each network it is on. The kernel's list of network devices is an
  argument.
\<close>

section \<open>Addresses\<close>

record in_ifaddr =
  ifa_address :: u32
  ifa_mask :: u32
  ifa_broadcast :: u32

text \<open>The Internet part of a device is missing when \<open>ip_ptr\<close> is null.\<close>

record net_device =
  dev_name :: "byte list"
  ip_ptr :: "in_ifaddr list option"

definition ifa_target :: "in_ifaddr \<Rightarrow> u32" where
  "ifa_target ifa = (if ifa_broadcast ifa = 0
     then or (and (ifa_address ifa) (ifa_mask ifa)) (not (ifa_mask ifa)) else ifa_broadcast ifa)"

abbreviation (input) MAX_BROADCASTS :: nat where "MAX_BROADCASTS \<equiv> 256"

definition is_loopback :: "net_device \<Rightarrow> bool" where
  "is_loopback d \<longleftrightarrow> take 2 (dev_name d) = [108, 111]"

fun collect_ifas :: "in_ifaddr list \<Rightarrow> u32 list \<Rightarrow> u32 list result" where
  "collect_ifas [] broadcast = Inr broadcast"
| "collect_ifas (ifa # ifas) broadcast =
     bindr (require (length broadcast < MAX_BROADCASTS) Out_of_bounds) (\<lambda>_.
     collect_ifas ifas (broadcast @ [ifa_target ifa]))"

fun collect_devices :: "net_device list \<Rightarrow> u32 list \<Rightarrow> u32 list result" where
  "collect_devices [] broadcast = Inr broadcast"
| "collect_devices (d # ds) broadcast =
     (if \<not> is_loopback d then
        case ip_ptr d of None \<Rightarrow> Inl Null_deref
        | Some ifas \<Rightarrow> bindr (collect_ifas ifas broadcast) (collect_devices ds)
      else collect_devices ds broadcast)"

section \<open>Sending\<close>

definition interfaces_ready :: "kenv \<Rightarrow> 'z registry_scheme \<Rightarrow> 'z registry_scheme" where
  "interfaces_ready e s = (if INTERFACE_LIST s = None then init_interfaces (kmem e) s else s)"

definition do_broadcast :: "kenv \<Rightarrow> u32 \<Rightarrow> 'z registry_scheme \<Rightarrow> (int \<times> 'z registry_scheme) result" where
  "do_broadcast e dst_brd s =
     (case sock_create e (trace s) of Inl err \<Rightarrow> Inr (err, s) | Inr k \<Rightarrow>
     let s = emit (Sock_created k) s; err = sock_setsockopt e (trace s) k in
     if err < 0 then Inr (err, s) else
     bindr (require (kgrant (kmem e) SIZEOF_SOCKADDR_IN) Null_deref) (\<lambda>_.
     let err = sock_connect e (trace s) k dst_brd in
     if err < 0 then Inr (err, emit (Sock_released k) s) else
     let s = interfaces_ready e (emit (Sock_connected k dst_brd) s) in
     bindr (serialize_interfaces_packet (kmem e) (INTERFACE_LIST s) (INTERFACE_COUNT s) s) (\<lambda>(packet, n).
     bindr (sock_sendto e (Some \<lparr>sock_no = k, sk_null = False\<rparr>) (Some dst_brd) packet (sint n) s) (\<lambda>(_, s).
     Inr (0, emit (Sock_released k) s)))))"

text \<open>One turn of the loop: collect the addresses, then send to each, whatever the codes are.\<close>

definition broadcast_round :: "kenv \<Rightarrow> net_device list \<Rightarrow> 'z registry_scheme \<Rightarrow> 'z registry_scheme result" where
  "broadcast_round e devs s =
     bindr (collect_devices devs []) (\<lambda>broadcast.
     for_loop 0 (length broadcast)
       (\<lambda>i s. bindr (do_broadcast e (broadcast ! i) s) (\<lambda>(_, s). Inr s)) s)"

text \<open>\<open>n\<close> turns of the endless loop, with the devices found at each.\<close>

primrec broadcast_loop ::
  "kenv \<Rightarrow> (event list \<Rightarrow> net_device list) \<Rightarrow> nat \<Rightarrow> 'z registry_scheme \<Rightarrow> 'z registry_scheme result" where
  "broadcast_loop e devs 0 s = Inr s"
| "broadcast_loop e devs (Suc n) s = bindr (broadcast_round e (devs (trace s)) s) (broadcast_loop e devs n)"

section \<open>The addresses of a round\<close>

definition broadcast_targets :: "net_device list \<Rightarrow> u32 list" where
  "broadcast_targets devs =
     map ifa_target (concat (map (\<lambda>d. case ip_ptr d of None \<Rightarrow> [] | Some ifas \<Rightarrow> ifas)
       [d \<leftarrow> devs. \<not> is_loopback d]))"

lemma collect_ifas_eq: "length b \<le> MAX_BROADCASTS \<Longrightarrow>
  collect_ifas ifas b = (if length b + length ifas \<le> MAX_BROADCASTS then Inr (b @ map ifa_target ifas)
    else Inl Out_of_bounds)"
proof (induction ifas arbitrary: b)
  case (Cons i ifas)
  show ?case
  proof (cases "length b < MAX_BROADCASTS")
    case True
    then show ?thesis using Cons.IH [of "b @ [ifa_target i]"] by simp
  qed simp
qed simp

lemma collect_devices_eq:
  assumes "\<And>d. d \<in> set devs \<Longrightarrow> is_loopback d \<or> ip_ptr d \<noteq> None" and "length b \<le> MAX_BROADCASTS"
  shows "collect_devices devs b = (if length b + length (broadcast_targets devs) \<le> MAX_BROADCASTS
    then Inr (b @ broadcast_targets devs) else Inl Out_of_bounds)"
  using assms
proof (induction devs arbitrary: b)
  case Nil
  then show ?case by (simp add: broadcast_targets_def)
next
  case (Cons d devs)
  show ?case
  proof (cases "is_loopback d")
    case True
    then have "broadcast_targets (d # devs) = broadcast_targets devs" by (simp add: broadcast_targets_def)
    then show ?thesis using Cons True by simp
  next
    case False
    then obtain ifas where i: "ip_ptr d = Some ifas" using Cons.prems(1) by fastforce
    then have t: "broadcast_targets (d # devs) = map ifa_target ifas @ broadcast_targets devs"
      using False by (simp add: broadcast_targets_def)
    show ?thesis
      using Cons.IH [of "b @ map ifa_target ifas"] Cons.prems False i
      by (simp add: t collect_ifas_eq)
  qed
qed

lemma collect_devices_append:
  "collect_devices (ds @ ds') b = bindr (collect_devices ds b) (collect_devices ds')"
proof (induction ds arbitrary: b)
  case (Cons d ds)
  show ?case
  proof (cases "ip_ptr d")
    case (Some ifas)
    then show ?thesis using Cons.IH by (cases "collect_ifas ifas b") simp_all
  qed (use Cons.IH in simp)
qed simp

lemma broadcast_targets_written:
  "\<forall>d \<in> set devs. is_loopback d \<or> ip_ptr d \<noteq> None \<Longrightarrow> broadcast_targets devs =
    [ifa_target ifa. d \<leftarrow> devs, \<not> is_loopback d, ifa \<leftarrow> the (ip_ptr d)]"
  by (induction devs) (auto simp: broadcast_targets_def)

text \<open>
  C26: a round sends to one address per network the node is on, in the order of the devices and of
  the networks of each, leaving out the devices whose names begin with "lo": the broadcast
  address of the network when it has one of its own, and otherwise its address with all host
  bits set. More than 256 networks are written past the end of the local array, and a device
  without an Internet part is a null pointer.
\<close>

theorem broadcast_addresses:
  assumes "\<forall>d \<in> set devs. take 2 (dev_name d) = [108, 111] \<or> ip_ptr d \<noteq> None"
    and "addrs = [if ifa_broadcast ifa = 0
        then or (and (ifa_address ifa) (ifa_mask ifa)) (not (ifa_mask ifa)) else ifa_broadcast ifa.
      d \<leftarrow> devs, take 2 (dev_name d) \<noteq> [108, 111], ifa \<leftarrow> the (ip_ptr d)]"
  shows "collect_devices devs [] = (if length addrs \<le> 256 then Inr addrs else Inl Out_of_bounds) \<and>
    (length addrs \<le> 256 \<longrightarrow> take 2 (dev_name d) \<noteq> [108, 111] \<longrightarrow> ip_ptr d = None \<longrightarrow>
      collect_devices (devs @ d # ds) [] = Inl Null_deref)"
proof -
  have addrs: "addrs = broadcast_targets devs"
    using broadcast_targets_written [of devs] assms
    by (simp add: is_loopback_def ifa_target_def cong: if_cong)
  have eq: "collect_devices devs [] = (if length addrs \<le> 256 then Inr addrs else Inl Out_of_bounds)"
    using collect_devices_eq [of devs "[]"] assms(1) by (simp add: addrs is_loopback_def)
  then show ?thesis by (simp add: collect_devices_append is_loopback_def)
qed

section \<open>What a round sends\<close>

text \<open>The packets sent to an address, oldest first.\<close>

definition adverts_sent :: "event list \<Rightarrow> (u32 \<times> byte list) list" where
  "adverts_sent tr = List.map_filter (\<lambda>ev. case ev of Sock_sent k (Some a) x \<Rightarrow> Some (a, x) | _ \<Rightarrow> None) (rev tr)"

lemma adverts_sent_append: "adverts_sent (tr @ tr') = adverts_sent tr' @ adverts_sent tr"
  by (simp add: adverts_sent_def List.map_filter_def)

definition network_up :: "kenv \<Rightarrow> bool" where
  "network_up e \<longleftrightarrow> (\<forall>tr. \<exists>k. sock_create e tr = Inr k) \<and>
     (\<forall>tr k. 0 \<le> sock_setsockopt e tr k) \<and> (\<forall>tr k a. 0 \<le> sock_connect e tr k a) \<and>
     kgrant (kmem e) SIZEOF_SOCKADDR_IN"

definition advertises :: "kenv \<Rightarrow> 'z registry_scheme \<Rightarrow> bool" where
  "advertises e s \<longleftrightarrow> registry_ok s \<and> adverts_fit (kmem e) (interfaces_of s) \<and>
     length (advert_bytes (interfaces_of s)) < 2 ^ 31"

lemma init_interfaces_view:
  assumes "registry_ok s" and "INTERFACE_LIST s = None"
  shows "registry_ok (init_interfaces ok s) \<and> interfaces_of (init_interfaces ok s) = interfaces_of s"
  using assms registry_empty [OF assms]
  by (simp add: registry_ok_def init_interfaces_def kzalloc_array_def slots_of_def live_slots_def
      interfaces_of_def mem_wf_def describes_def)

lemma do_broadcast_sends:
  assumes net: "network_up e" and ok: "advertises e s"
  shows "\<exists>t tr. do_broadcast e a s = Inr (0, t) \<and> registry_ok t \<and> interfaces_of t = interfaces_of s \<and>
    INTERFACE_LIST t \<noteq> None \<and>
    trace t = tr @ trace s \<and> held (trace t) = held (trace s) \<and>
    adverts_sent tr = [(a, advert_bytes (interfaces_of s))]"
proof -
  let ?p = "advert_bytes (interfaces_of s)"
  obtain k where k: "sock_create e (trace s) = Inr k" using net unfolding network_up_def by blast
  let ?s = "emit (Sock_connected k a) (emit (Sock_created k) s)"
  define u where "u = interfaces_ready e ?s"
  have u: "registry_ok u" "interfaces_of u = interfaces_of s" "INTERFACE_LIST u \<noteq> None"
      "trace u = Sock_connected k a # Sock_created k # trace s"
    using ok init_interfaces_view [of ?s "kmem e"] registry_empty [of ?s]
    by (auto simp: u_def interfaces_ready_def advertises_def registry_ok_emit)
      (simp_all add: init_interfaces_def kzalloc_array_def)
  have fit: "adverts_fit (kmem e) (interfaces_of u)" "length ?p < 2 ^ 31"
    using ok u(2) by (simp_all add: advertises_def)
  have n: "unat (word_of_nat (length ?p) :: u32) = length ?p" using fit(2) by (simp add: unat_of_nat_u32)
  have "INTERFACE_COUNT u = word_of_nat (length (interfaces_of u))"
    using length_interfaces_of [OF u(1)] by simp
  then have ser: "serialize_interfaces_packet (kmem e) (INTERFACE_LIST u) (INTERFACE_COUNT u) u
      = Inr (PBlk ?p, word_of_nat (length ?p))"
    using serialize_interfaces_ok [OF registry_ok_describes [OF u(1)] fit(1)] registry_list [OF u(1,3)] u(2)
    by simp
  define t where "t = emit (Sock_released k) (emit (Sock_sent k (Some a) ?p) u)"
  have "do_broadcast e a s = Inr (0, t)"
    using net fit(2) n
    by (simp add: do_broadcast_def k Let_def network_up_def not_less u_def [symmetric] ser
        sock_sendto_open [of "\<lparr>sock_no = k, sk_null = False\<rparr>"] t_def)
  moreover have "trace t = [Sock_released k, Sock_sent k (Some a) ?p, Sock_connected k a, Sock_created k] @ trace s"
    by (simp add: t_def u(4))
  moreover have "registry_ok t" "interfaces_of t = interfaces_of s" "INTERFACE_LIST t \<noteq> None"
    using u(1-3) by (simp_all add: t_def registry_ok_emit)
  moreover have "adverts_sent [Sock_released k, Sock_sent k (Some a) ?p, Sock_connected k a, Sock_created k] = [(a, ?p)]"
    by (simp add: adverts_sent_def List.map_filter_def)
  ultimately show ?thesis by fastforce
qed

lemma broadcast_each:
  assumes net: "network_up e" and ok: "advertises e s"
  shows "\<exists>t tr. for_loop 0 (length addrs)
      (\<lambda>i s. bindr (do_broadcast e (addrs ! i) s) (\<lambda>(_, s). Inr s)) s = Inr t \<and>
    registry_ok t \<and> interfaces_of t = interfaces_of s \<and> trace t = tr @ trace s \<and>
    held (trace t) = held (trace s) \<and>
    adverts_sent tr = map (\<lambda>a. (a, advert_bytes (interfaces_of s))) addrs"
proof -
  let ?f = "\<lambda>i s. bindr (do_broadcast e (addrs ! i) s) (\<lambda>(_, s). Inr s)"
  have "\<exists>t tr. for_loop 0 n ?f s = Inr t \<and> registry_ok t \<and> interfaces_of t = interfaces_of s \<and>
      trace t = tr @ trace s \<and> held (trace t) = held (trace s) \<and>
      adverts_sent tr = map (\<lambda>a. (a, advert_bytes (interfaces_of s))) (take n addrs)"
    if "n \<le> length addrs" for n
    using that
  proof (induction n)
    case 0
    then show ?case using ok by (simp add: advertises_def) (simp add: adverts_sent_def List.map_filter_def)
  next
    case (Suc n)
    then obtain t tr where t: "for_loop 0 n ?f s = Inr t" "registry_ok t" "interfaces_of t = interfaces_of s"
        "trace t = tr @ trace s" "held (trace t) = held (trace s)"
        "adverts_sent tr = map (\<lambda>a. (a, advert_bytes (interfaces_of s))) (take n addrs)" by auto
    have "advertises e t" using ok t(2,3) by (simp add: advertises_def)
    from do_broadcast_sends [OF net this, of "addrs ! n"]
    obtain u tu where u: "do_broadcast e (addrs ! n) t = Inr (0, u)" "registry_ok u"
        "interfaces_of u = interfaces_of t" "trace u = tu @ trace t" "held (trace u) = held (trace t)"
        "adverts_sent tu = [(addrs ! n, advert_bytes (interfaces_of t))]" by blast
    have "for_loop 0 (Suc n) ?f s = Inr u"
      using for_loop_append [of 0 n 1 ?f s] t(1) u(1) by simp
    moreover have "adverts_sent (tu @ tr)
        = map (\<lambda>a. (a, advert_bytes (interfaces_of s))) (take (Suc n) addrs)"
      using Suc.prems t(3,6) u(6) by (simp add: adverts_sent_append take_Suc_conv_app_nth)
    ultimately show ?case using t u by (intro exI [of _ u] exI [of _ "tu @ tr"]) auto
  qed
  from this [of "length addrs"] show ?thesis by simp
qed

lemma round_sends:
  assumes "network_up e" and "advertises e s"
    and "\<forall>d \<in> set devs. is_loopback d \<or> ip_ptr d \<noteq> None" and "length (broadcast_targets devs) \<le> 256"
  shows "\<exists>t tr. broadcast_round e devs s = Inr t \<and> registry_ok t \<and> interfaces_of t = interfaces_of s \<and>
    trace t = tr @ trace s \<and> held (trace t) = held (trace s) \<and>
    adverts_sent tr = map (\<lambda>a. (a, advert_bytes (interfaces_of s))) (broadcast_targets devs)"
  using broadcast_each [OF assms(1,2), of "broadcast_targets devs"] collect_devices_eq [of devs "[]"] assms(3,4)
  by (simp add: broadcast_round_def)

text \<open>As long as the network works and the devices keep their addresses, so does the loop.\<close>

lemma broadcast_runs:
  assumes "network_up e" and "advertises e s"
    and "\<forall>tr. (\<forall>d \<in> set (devs tr). is_loopback d \<or> ip_ptr d \<noteq> None) \<and> broadcast_targets (devs tr) = addrs"
    and "length addrs \<le> 256"
  shows "\<exists>t tr. broadcast_loop e devs n s = Inr t \<and> registry_ok t \<and>
    trace t = tr @ trace s \<and> held (trace t) = held (trace s) \<and> interfaces_of t = interfaces_of s \<and>
    adverts_sent tr = concat (replicate n (map (\<lambda>a. (a, advert_bytes (interfaces_of s))) addrs))"
  using assms(2)
proof (induction n arbitrary: s)
  case 0
  then show ?case by (simp add: advertises_def) (simp add: adverts_sent_def List.map_filter_def)
next
  case (Suc n)
  obtain t tr where t: "broadcast_round e (devs (trace s)) s = Inr t" "registry_ok t"
      "interfaces_of t = interfaces_of s" "trace t = tr @ trace s" "held (trace t) = held (trace s)"
      "adverts_sent tr = map (\<lambda>a. (a, advert_bytes (interfaces_of s))) addrs"
    using round_sends [OF assms(1) Suc.prems, of "devs (trace s)"] assms(3,4) by metis
  then have "advertises e t" using Suc.prems by (simp add: advertises_def)
  from Suc.IH [OF this] t show ?case by (auto simp: adverts_sent_append)
qed

text \<open>
  One turn of the broadcast loop sends each network exactly one packet, and this packet is
  the encoding of the interfaces registered at the time; every socket it opens is closed again
  and the registry is as before.
\<close>

theorem broadcast_round_advertises:
  assumes "network_up e" and "advertises e s"
    and "\<forall>d \<in> set devs. is_loopback d \<or> ip_ptr d \<noteq> None" and "length (broadcast_targets devs) \<le> 256"
  shows "\<exists>t tr. broadcast_round e devs s = Inr t \<and> registry_ok t \<and> interfaces_of t = interfaces_of s \<and>
    trace t = tr @ trace s \<and> held (trace t) = held (trace s) \<and>
    adverts_sent tr = map (\<lambda>a. (a, advert_bytes (interfaces_of s))) (broadcast_targets devs)"
  by (rule round_sends [OF assms])

text \<open>
  A socket that cannot be set to broadcast is never closed: every attempt that fails there
  leaves one more open socket behind.
\<close>

theorem broadcast_leaks_socket:
  assumes "sock_create e (trace s) = Inr k" and "\<forall>tr. sock_setsockopt e tr k < 0"
  shows "\<exists>err t. do_broadcast e a s = Inr (err, t) \<and> err < 0 \<and>
    held (trace t) = add_mset (Socket_open k) (held (trace s))"
  using assms by (simp add: do_broadcast_def Let_def)

section \<open>Examples\<close>

definition two_networks :: "net_device list" where
  "two_networks = [\<lparr>dev_name = [108, 111, 0], ip_ptr = None\<rparr>,
     \<lparr>dev_name = [101, 116, 104, 48, 0], ip_ptr = Some
       [\<lparr>ifa_address = 0x0501A8C0, ifa_mask = 0x00FFFFFF, ifa_broadcast = 0\<rparr>,
        \<lparr>ifa_address = 0x0900000A, ifa_mask = 0x000000FF, ifa_broadcast = 0xFFFFFF0A\<rparr>]\<rparr>]"

lemma two_networks_targets: "broadcast_targets two_networks = [0xFF01A8C0, 0xFFFFFF0A]"
  by (simp add: broadcast_targets_def two_networks_def is_loopback_def ifa_target_def)

lemma kind_kernel_up: "network_up kind_kernel"
  by (simp add: network_up_def kind_kernel_def kgrant_def kmalloc_max_def)

lemma three_advertised: "advertises kind_kernel three_registry"
proof -
  have len: "length (advert_bytes (interfaces_of three_registry)) = 43"
    by (simp add: three_interfaces advert_bytes_def interface_codec.enc_list_def enc_interface_def
        stored_interface_def blank_interface_def flag_bytes_def)
  then have "adverts_fit kmalloc_max (interfaces_of three_registry)"
    by (auto simp: adverts_fit_def three_interfaces interface_sendable_def interface_readable_def
        flags_readable_def stored_interface_def blank_interface_def intro!: exI [of _ 100] roomy_kmalloc_max)
  then show ?thesis using len three_registry_ok by (simp add: advertises_def kind_kernel_def)
qed

text \<open>A wireless network of its own broadcast address, a name that only begins like "lo", and "lo".\<close>

definition some_devices :: "net_device list" where
  "some_devices = two_networks @ [\<lparr>dev_name = [108, 97, 110, 0], ip_ptr = Some
       [\<lparr>ifa_address = 0x0101000A, ifa_mask = 0x0000FFFF, ifa_broadcast = 0\<rparr>]\<rparr>]"

theorem broadcast_addresses_witness:
  "collect_devices some_devices [] = Inr [0xFF01A8C0, 0xFFFFFF0A, 0xFFFF000A] \<and>
    collect_devices (some_devices @ \<lparr>dev_name = [108, 51, 0], ip_ptr = None\<rparr> # []) [] = Inl Null_deref"
proof -
  have "\<forall>d \<in> set some_devices. take 2 (dev_name d) = [108, 111] \<or> ip_ptr d \<noteq> None"
    by (simp add: some_devices_def two_networks_def)
  from broadcast_addresses [OF this refl, of "\<lparr>dev_name = [108, 51, 0], ip_ptr = None\<rparr>" "[]"]
  show ?thesis by (simp add: some_devices_def two_networks_def)
qed

theorem broadcast_round_advertises_witness:
  "\<exists>t tr. broadcast_round kind_kernel two_networks three_registry = Inr t \<and> registry_ok t \<and>
    interfaces_of t = interfaces_of three_registry \<and> trace t = tr @ trace three_registry \<and>
    held (trace t) = held (trace three_registry) \<and>
    adverts_sent tr = map (\<lambda>a. (a, advert_bytes (interfaces_of three_registry))) (broadcast_targets two_networks)"
  by (rule broadcast_round_advertises [OF kind_kernel_up three_advertised])
    (simp_all add: two_networks_targets, simp add: two_networks_def is_loopback_def)

definition no_broadcast_kernel :: kenv where
  "no_broadcast_kernel = kind_kernel\<lparr>sock_setsockopt := (\<lambda>tr k. - 13)\<rparr>"

theorem broadcast_leaks_socket_witness:
  "\<exists>err t. do_broadcast no_broadcast_kernel 9 three_registry = Inr (err, t) \<and> err < 0 \<and>
    held (trace t) = add_mset (Socket_open 0) (held (trace three_registry))"
  by (rule broadcast_leaks_socket)
    (simp_all add: no_broadcast_kernel_def kind_kernel_def three_registry_def)

end
