(* ===== verification/Remote.thy ===== *)
theory Remote
  imports Service
begin

text \<open>
  What a call of a peer's interface does, from the client's side: the functions are those of
  \<open>module/network/peer.c\<close> in the theory of the peers, the exchange is the one the service
  expects.
\<close>

section \<open>The client side of a call\<close>

text \<open>A peer in the table, whose node accepts the connection.\<close>

definition reachable_peer :: "kenv \<Rightarrow> int \<Rightarrow> u32 \<Rightarrow> nat \<Rightarrow> 'z kstate_scheme \<Rightarrow> bool" where
  "reachable_peer e i a k s \<longleftrightarrow> 0 \<le> i \<and> i < peer_count s \<and>
     (\<exists>p. peer_at s i = Inr p \<and> peer_addr p = a) \<and> sock_create e (trace s) = Inr k \<and>
     kgrant (kmem e) SIZEOF_SOCKADDR_IN \<and> (\<forall>tr. 0 \<le> sock_connect e tr k a)"

lemma peer_at_emit [simp]: "peer_at (emit ev s) i = peer_at s i"
  by (simp add: peer_at_def emit_def)

lemma init_socket_connected:
  "reachable_peer e i a k s \<Longrightarrow> init_socket e i s
    = Inr (sock_connect e (Sock_created k # trace s) k a, Some (\<lparr>sock_no = k, sk_null = False\<rparr>, a),
        emit (Sock_connected k a) (emit (Sock_created k) s))"
  by (auto simp: reachable_peer_def init_socket_def)

text \<open>The calls on the socket up to the reply.\<close>

definition request_events :: "nat \<Rightarrow> u32 \<Rightarrow> byte list \<Rightarrow> event list" where
  "request_events k a packet = [Sock_sent k (Some a) packet,
     Sock_sent k (Some a) (u32_bytes (word_of_nat (length packet))), Sock_connected k a, Sock_created k]"

definition sends_ok :: "kenv \<Rightarrow> nat \<Rightarrow> bool" where
  "sends_ok e k \<longleftrightarrow> (\<forall>tr x. 0 \<le> sock_sendmsg e tr k x)"

lemma sock_sendto_packet:
  assumes "length packet < 2 ^ 31" and "\<not> sk_null k"
  shows "sock_sendto e (Some k) a (PBlk packet) (sint (word_of_nat (length packet) :: u32)) s
    = Inr (sock_sendmsg e (trace s) (sock_no k) packet, emit (Sock_sent (sock_no k) a packet) s)"
  using assms by (intro sock_sendto_open) (simp_all add: sint_length)

lemma remote_call_ok:
  assumes r: "reachable_peer e i a k s" and so: "sends_ok e k" and x: "deref q s = Inr x"
    and p: "serialize_rpc_packet (kmem e) (if_id x) (interface_t.argc x) (argv x)
        = Inr (packet, word_of_nat (length packet))" "length packet < 2 ^ 31"
    and reply: "stream_of e k reply" "0 < length reply" "length reply < 2 ^ 31"
      "kgrant (kmem e) (length reply)"
      "unserialize_rpc_packet (kmem e) reply (word_of_nat (length reply)) = Inr (vs, c)"
  shows "\<exists>err t. execute_remote_interface e i q s = Inr (err, t) \<and> 0 \<le> err \<and>
    heap t = (heap s)(q \<mapsto> x\<lparr>retv := Some vs, retc := c\<rparr>) \<and>
    trace t = [Sock_released k, Sock_received k (length reply), Sock_received k 4] @
      request_events k a packet @ trace s"
proof -
  let ?k = "\<lparr>sock_no = k, sk_null = False\<rparr>"
  have conn: "\<not> sock_connect e tr k a < 0" for tr using r by (simp add: reachable_peer_def not_less)
  have snd: "\<not> sock_sendmsg e tr k y < 0" for tr y using so by (simp add: sends_ok_def not_less)
  have st: "stream_of e (sock_no ?k) reply" "\<not> sk_null ?k" using reply(1) by simp_all
  note rs = receive_stream [OF st reply(2,3)]
  let ?s4 = "emit (Sock_sent k (Some a) packet) (emit (Sock_sent k (Some a)
    (u32_bytes (word_of_nat (length packet)))) (emit (Sock_connected k a) (emit (Sock_created k) s)))"
  obtain b where rec: "recv_int e (Some ?k) None ?s4
      = Inr (Some (u32_bytes (word_of_nat (length reply))), emit (Sock_received k 4) ?s4)"
    "sock_recvfrom e (Some ?k) (PBlk (replicate (length reply) 0)) (int (length reply))
      (emit (Sock_received k 4) ?s4)
      = Inr (int (length reply), b, PBlk reply, emit (Sock_received k (length reply)) (emit (Sock_received k 4) ?s4))"
    using rs [of None ?s4 "emit (Sock_received k 4) ?s4"] by auto
  have q: "q \<noteq> 0" using x by (simp add: deref_eq_Inr)
  show ?thesis
    unfolding execute_remote_interface_def init_socket_connected [OF r]
    using reply(2-5) snd q
    by (simp add: conn x p sock_sendto_open [of ?k] sock_sendto_packet [OF p(2), of ?k, simplified]
        rec sint_length kzalloc_bytes_def end_execute_def request_events_def not_less [symmetric])
qed


end
