(* ===== verification/Discovery.thy ===== *)
theory Discovery
  imports Peers
begin

text \<open>
  \<open>module/network/discovery.c\<close>: the loop that receives broadcasts and keeps the table of peers.
  The buffer and the sender's address are variables of the loop that no iteration resets, so a
  receive that fails or is short leaves what the previous one wrote. The code returned becomes
  the length of the packet, an unsigned integer.
\<close>

section \<open>The loop\<close>

abbreviation (input) DISCOVERY_BUFFER :: nat where "DISCOVERY_BUFFER \<equiv> 65536"

definition discovery_step ::
  "kenv \<Rightarrow> socket_t option \<Rightarrow> byte list \<times> u32 \<times> 'z kstate_scheme \<Rightarrow>
   (byte list \<times> u32 \<times> 'z kstate_scheme) result" where
  "discovery_step e sock = (\<lambda>(buffer, from_addr, s).
     bindr (sock_recvfrom e sock (PBlk buffer) (int DISCOVERY_BUFFER) s) (\<lambda>(sz, sender, buf, s).
     bindr (mem_block buf) (\<lambda>buffer.
     let from_addr = (case sender of None \<Rightarrow> from_addr | Some a \<Rightarrow> a) in
     bindr (get_peer e from_addr s) (\<lambda>(idv, s).
     bindr (if idv < 0 then add_peer e from_addr buffer (word_of_int sz) s
            else update_peer_interfaces e idv buffer (word_of_int sz) s) (\<lambda>(_, s).
     Inr (buffer, from_addr, s))))))"

primrec discovery_run ::
  "kenv \<Rightarrow> socket_t option \<Rightarrow> nat \<Rightarrow> byte list \<times> u32 \<times> 'z kstate_scheme \<Rightarrow>
   (byte list \<times> u32 \<times> 'z kstate_scheme) result" where
  "discovery_run e sock 0 st = Inr st"
| "discovery_run e sock (Suc n) st = bindr (discovery_step e sock st) (discovery_run e sock n)"

definition discovery_server_loop ::
  "kenv \<Rightarrow> socket_t option \<Rightarrow> nat \<Rightarrow> 'z kstate_scheme \<Rightarrow>
   (byte list \<times> u32 \<times> 'z kstate_scheme) result" where
  "discovery_server_loop e sock n s =
     bindr (mem_block (kzalloc_bytes (kmem e) DISCOVERY_BUFFER)) (\<lambda>buffer.
     discovery_run e sock n (buffer, 0, s))"

section \<open>The invariant\<close>

text \<open>
  \<open>kernel_ok\<close> adds the peers to \<open>registry_ok\<close>: the table is within its array, identifiers are
  indices, addresses are distinct, and the descriptors of every peer are live and belong to it
  alone.
\<close>

definition peers_list :: "'z kstate_scheme \<Rightarrow> peer_t list" where
  "peers_list s = (case peers s of None \<Rightarrow> [] | Some ps \<Rightarrow> take (nat (peer_count s)) ps)"

definition peer_slots :: "peer_t \<Rightarrow> iarray" where
  "peer_slots p = (case interfaces p of None \<Rightarrow> [] | Some a \<Rightarrow> a)"

definition owned :: "'z kstate_scheme \<Rightarrow> iarray" where
  "owned s = concat (map peer_slots (peers_list s))"

definition peer_ok :: "peer_t \<Rightarrow> bool" where
  "peer_ok p \<longleftrightarrow> interfaces p = None \<or> interface_count p = int (length (peer_slots p))"

definition table_shape :: "'z kstate_scheme \<Rightarrow> bool" where
  "table_shape s \<longleftrightarrow> 0 \<le> peer_count s \<and> peer_count s \<le> MAX_PEERS \<and>
     (case peers s of None \<Rightarrow> peer_count s = 0 | Some ps \<Rightarrow> length ps = nat MAX_PEERS) \<and>
     map peer_id (peers_list s) = map int [0..<nat (peer_count s)] \<and>
     distinct (map peer_addr (peers_list s)) \<and> list_all peer_ok (peers_list s)"

definition kernel_ok :: "'z kstate_scheme \<Rightarrow> bool" where
  "kernel_ok s \<longleftrightarrow> registry_ok s \<and> table_shape s \<and> peer_class s \<noteq> None \<and>
     list_all (live s) (owned s) \<and> distinct (owned s) \<and> set (owned s) \<inter> set (live_slots s) = {}"

lemma length_peers_list: "table_shape s \<Longrightarrow> length (peers_list s) = nat (peer_count s)"
  by (auto simp: table_shape_def peers_list_def split: option.splits)

lemma live_frame: "live s x \<Longrightarrow> (\<And>p. x = Some p \<Longrightarrow> heap s p \<noteq> None \<Longrightarrow> heap t p = heap s p) \<Longrightarrow> live t x"
  by (auto simp: live_def)

lemma registry_frame:
  assumes ok: "registry_ok s" and t: "mem_wf t" "INTERFACE_LIST t = INTERFACE_LIST s"
      "INTERFACE_COUNT t = INTERFACE_COUNT s" "INTERFACE_CAPACITY t = INTERFACE_CAPACITY s"
    and h: "\<And>p. Some p \<in> set (live_slots s) \<Longrightarrow> heap t p = heap s p"
  shows "registry_ok t \<and> interfaces_of t = interfaces_of s \<and> live_slots t = live_slots s"
proof -
  have sl: "live_slots t = live_slots s" "slots_of t = slots_of s"
    using t by (simp_all add: live_slots_def slots_of_def)
  have d: "describes (live_slots s) t (interfaces_of s)"
    using registry_ok_describes [OF ok] h by (rule describes_frame)
  have "interfaces_of t = interfaces_of s"
    using describes_unique [OF d] by (simp add: interfaces_of_def sl)
  then show ?thesis using ok t sl d by (simp add: registry_ok_def)
qed

text \<open>The registry part and the peers part are untouched by allocating descriptors.\<close>

lemma more_fields:
  fixes s t :: "'z kstate_scheme"
  assumes "mem.more s = mem.more t"
  shows "INTERFACE_LIST s = INTERFACE_LIST t" "INTERFACE_COUNT s = INTERFACE_COUNT t"
    "INTERFACE_CAPACITY s = INTERFACE_CAPACITY t" "peers s = peers t" "peer_count s = peer_count t"
    "peer_class s = peer_class t" "ALLOCATED_ID s = ALLOCATED_ID t"
  using assms by (cases s; cases t; simp)+

lemma live_slots_live: "registry_ok s \<Longrightarrow> x \<in> set (live_slots s) \<Longrightarrow> live s x"
  using describes_live [OF registry_ok_describes, of s] by (auto simp: list_all_iff)

lemma kernel_frame:
  fixes s t :: "'z kstate_scheme"
  assumes ok: "kernel_ok s" and wf: "mem_wf t" and m: "mem.more t = mem.more s"
    and h: "\<And>p. heap s p \<noteq> None \<Longrightarrow> heap t p = heap s p"
  shows "kernel_ok t \<and> interfaces_of t = interfaces_of s \<and> live_slots t = live_slots s \<and>
    peers_list t = peers_list s \<and> owned t = owned s"
proof -
  have pl: "peers_list t = peers_list s" and ow: "owned t = owned s"
    by (simp_all add: peers_list_def owned_def more_fields [OF m] cong: option.case_cong)
  have "heap t p = heap s p" if "Some p \<in> set (live_slots s)" for p
    using live_slots_live [OF _ that] ok h by (auto simp: kernel_ok_def live_def)
  then have r: "registry_ok t \<and> interfaces_of t = interfaces_of s \<and> live_slots t = live_slots s"
    using ok wf by (intro registry_frame) (simp_all add: kernel_ok_def more_fields [OF m])
  moreover have "table_shape t" using ok by (simp add: kernel_ok_def table_shape_def pl more_fields [OF m] cong: option.case_cong)
  moreover have "list_all (live t) (owned t)"
    using ok h by (auto simp: kernel_ok_def ow list_all_iff intro: live_frame)
  ultimately show ?thesis using ok by (simp add: kernel_ok_def ow pl more_fields [OF m])
qed

lemma kernel_ok_emit:
  fixes s :: "'z kstate_scheme"
  assumes "kernel_ok s"
  shows "kernel_ok (emit ev s) \<and> interfaces_of (emit ev s) = interfaces_of s \<and>
    live_slots (emit ev s) = live_slots s \<and> peers_list (emit ev s) = peers_list s \<and>
    owned (emit ev s) = owned s"
proof (rule kernel_frame [OF assms])
  show "mem_wf (emit ev s)" using assms by (simp add: kernel_ok_def registry_ok_def)
qed (simp_all add: emit_def)

text \<open>Replacing one peer, when the array exists and the index is in the table.\<close>

lemma peers_list_put:
  "table_shape s \<Longrightarrow> 0 \<le> i \<Longrightarrow> i < peer_count s \<Longrightarrow>
   peers_list (put_peer i p s) = (peers_list s)[nat i := p]"
  by (auto simp: peers_list_def put_peer_def take_update_swap split: option.splits)

lemma put_peer_fields [simp]:
  "INTERFACE_LIST (put_peer i p s) = INTERFACE_LIST s" "INTERFACE_COUNT (put_peer i p s) = INTERFACE_COUNT s"
  "INTERFACE_CAPACITY (put_peer i p s) = INTERFACE_CAPACITY s" "heap (put_peer i p s) = heap s"
  "next_ptr (put_peer i p s) = next_ptr s" "peer_count (put_peer i p s) = peer_count s"
  "peer_class (put_peer i p s) = peer_class s" "trace (put_peer i p s) = trace s"
  "peers (put_peer i p s) = map_option (\<lambda>ps. ps[nat i := p]) (peers s)"
  by (simp_all add: put_peer_def)

lemma split_at: "i < length xs \<Longrightarrow> xs = take i xs @ xs ! i # drop (Suc i) xs"
  by (simp add: id_take_nth_drop)

text \<open>
  The slots of peer \<open>i\<close> stand between those of the other peers, so replacing them leaves the
  rest of the owned descriptors alone.
\<close>

lemma owned_split:
  fixes s :: "'z kstate_scheme"
  assumes "table_shape s" "0 \<le> i" "i < peer_count s"
  obtains A B where "owned s = A @ peer_slots (peers_list s ! nat i) @ B"
    "\<And>p. owned (put_peer i p s) = A @ peer_slots p @ B"
proof -
  let ?xs = "peers_list s"
  let ?f = "\<lambda>ys. concat (map peer_slots ys)"
  have n: "nat i < length ?xs" using assms length_peers_list [OF assms(1)] by simp
  have "owned s = ?f (take (nat i) ?xs) @ peer_slots (?xs ! nat i) @ ?f (drop (Suc (nat i)) ?xs)"
    unfolding owned_def using arg_cong [OF split_at [OF n], of ?f] by simp
  moreover have "owned (put_peer i p s) = ?f (take (nat i) ?xs) @ peer_slots p @ ?f (drop (Suc (nat i)) ?xs)"
    for p unfolding owned_def peers_list_put [OF assms] upd_conv_take_nth_drop [OF n] by simp
  ultimately show thesis by (rule that)
qed
lemma kernel_ok_update:
  fixes t :: "'z kstate_scheme"
  assumes ok: "kernel_ok t" and i: "0 \<le> i" "i < peer_count t"
    and p: "p = peers_list t ! nat i" "peer_id p' = peer_id p" "peer_addr p' = peer_addr p"
      "interfaces p' = Some a" "interface_count p' = int (length a)"
    and a: "list_all (live t) a" "distinct a" "set a \<inter> set (owned t) = {}" "set a \<inter> set (live_slots t) = {}"
  defines "u \<equiv> put_peer i p' (release_all (peer_slots p) t)"
  shows "kernel_ok u \<and> interfaces_of u = interfaces_of t \<and> peers_list u = (peers_list t)[nat i := p']"
proof -
  let ?r = "release_all (peer_slots p) t"
  have sh: "table_shape t" and reg: "registry_ok t" using ok by (simp_all add: kernel_ok_def)
  obtain A B where own: "owned t = A @ peer_slots p @ B"
      "\<And>q. owned (put_peer i q t) = A @ peer_slots q @ B"
    using owned_split [OF sh i] p(1) by metis
  have m: "mem.more ?r = mem.more t" by (simp add: release_all_def)
  have pl: "peers_list ?r = peers_list t"
    by (simp add: peers_list_def more_fields [OF m] cong: option.case_cong)
  have shr: "table_shape ?r"
    using sh by (simp add: table_shape_def pl more_fields [OF m] cong: option.case_cong)
  have n: "nat i < length (peers_list t)" using i length_peers_list [OF sh] by simp
  have plu: "peers_list u = (peers_list t)[nat i := p']"
    unfolding u_def using peers_list_put [OF shr, of i p'] i by (simp add: pl more_fields [OF m])
  have ou: "owned u = A @ a @ B"
    using own(2) [of p'] p(4) by (simp add: owned_def plu peers_list_put [OF sh i] peer_slots_def)
  have ids: "map peer_id (peers_list u) = map peer_id (peers_list t)"
    "map peer_addr (peers_list u) = map peer_addr (peers_list t)"
    unfolding plu using n p(1-3) by (simp_all add: map_update list_update_same_conv)
  have pok: "peer_ok p'" using p(4,5) by (simp add: peer_ok_def peer_slots_def)
  have "list_all peer_ok (peers_list u)"
    unfolding plu using sh pok set_update_subset_insert [of "peers_list t" "nat i" p']
    by (auto simp: table_shape_def list_all_iff)
  then have shu: "table_shape u"
    using sh ids by (auto simp: table_shape_def u_def more_fields [OF m] split: option.splits)
  have disj: "set (peer_slots p) \<inter> set (live_slots t) = {}" "set (peer_slots p) \<inter> (set A \<union> set B) = {}"
    "set a \<inter> set (peer_slots p) = {}"
    using ok a(3) by (auto simp: kernel_ok_def own(1))
  have mw: "mem_wf u" using reg by (auto simp: registry_ok_def mem_wf_def u_def split: if_splits)
  have r: "registry_ok u \<and> interfaces_of u = interfaces_of t \<and> live_slots u = live_slots t"
    by (rule registry_frame [OF reg mw]) (use disj(1) in \<open>auto simp: u_def more_fields [OF m]\<close>)
  have "live u x" if "x \<in> set (owned u)" for x
  proof -
    have "live t x" "x \<notin> set (peer_slots p)"
      using that a(1) ok disj(2,3) by (auto simp: ou kernel_ok_def own(1) list_all_iff)
    then show ?thesis by (auto simp: live_def u_def)
  qed
  then have "list_all (live u) (owned u)" by (simp add: list_all_iff)
  moreover have "distinct (owned u)" using ok a(2,3) by (auto simp: ou kernel_ok_def own(1))
  moreover have "set (owned u) \<inter> set (live_slots u) = {}"
    using ok a(4) r by (auto simp: ou kernel_ok_def own(1))
  moreover have "peer_class u \<noteq> None" using ok by (simp add: kernel_ok_def u_def more_fields [OF m])
  ultimately show ?thesis using r shu plu by (simp add: kernel_ok_def)
qed

lemma kernel_ok_add:
  fixes t :: "'z kstate_scheme"
  assumes ok: "kernel_ok t" and n: "peer_count t < MAX_PEERS" and ps: "peers t = Some ps"
    and p: "peer_id p = peer_count t" "peer_addr p \<notin> set (map peer_addr (peers_list t))"
      "interfaces p = None"
  defines "u \<equiv> (put_peer (peer_count t) p t)\<lparr>peer_count := peer_count t + 1\<rparr>"
  shows "kernel_ok u \<and> interfaces_of u = interfaces_of t \<and> live_slots u = live_slots t \<and>
    peers_list u = peers_list t @ [p]"
proof -
  have sh: "table_shape t" and reg: "registry_ok t" using ok by (simp_all add: kernel_ok_def)
  have c: "0 \<le> peer_count t" "length ps = 256" using sh ps by (simp_all add: table_shape_def)
  have plt: "peers_list t = take (nat (peer_count t)) ps" by (simp add: peers_list_def ps)
  have "nat (peer_count t + 1) = Suc (nat (peer_count t))" using c by simp
  then have plu: "peers_list u = peers_list t @ [p]"
    using c n by (simp add: u_def peers_list_def ps take_Suc_conv_app_nth)
  have ou: "owned u = owned t" using p(3) by (simp add: owned_def plu peer_slots_def)
  have pu: "peers u = Some (ps[nat (peer_count t) := p])" by (simp add: u_def ps)
  have pc: "peer_count u = peer_count t + 1" by (simp add: u_def)
  have ids: "map peer_id (peers_list u) = map int [0..<nat (peer_count u)]"
    using sh p(1) c by (simp add: plu pc table_shape_def nat_add_distrib)
  have shu: "table_shape u"
    using sh n p(2,3) ids c pu
    by (auto simp: table_shape_def plu pc peer_ok_def list_all_iff)
  have r: "registry_ok u \<and> interfaces_of u = interfaces_of t \<and> live_slots u = live_slots t"
    by (rule registry_frame [OF reg]) (use reg in \<open>simp_all add: u_def registry_ok_def mem_wf_def\<close>)
  have "list_all (live u) (owned u)"
    using ok by (simp add: ou kernel_ok_def) (simp add: live_def u_def list_all_iff)
  then show ?thesis using ok r shu plu by (simp add: kernel_ok_def ou) (simp add: u_def)
qed

section \<open>Every iteration keeps the invariant\<close>

lemma unserialize_kernel:
  fixes s t :: "'z kstate_scheme"
  assumes ok: "kernel_ok s" and u: "unserialize_interfaces_packet g packet n s = Inr (Inr (a, c), t)"
  shows "kernel_ok t" "interfaces_of t = interfaces_of s" "peers_list t = peers_list s"
    "mem.more t = mem.more s" "trace t = trace s" "length a = unat c" "unat c \<le> 256"
    "list_all (live t) a" "distinct a" "set a \<inter> set (owned t) = {}" "set a \<inter> set (live_slots t) = {}"
proof -
  have reg: "registry_ok s" and wf: "mem_wf s" using ok by (simp_all add: kernel_ok_def registry_ok_def)
  obtain xs where x: "new_interfaces xs s = (a, t)" "length xs = unat c" "unat c \<le> 256"
    using unserialize_accepts [OF u] .
  note fr = new_interfaces_frame [OF x(1) wf]
  have same: "heap t p = heap s p" if "heap s p \<noteq> None" for p
    using fr wf that by (auto simp: mem_wf_def)
  have k: "kernel_ok t \<and> interfaces_of t = interfaces_of s \<and> live_slots t = live_slots s \<and>
      peers_list t = peers_list s \<and> owned t = owned s"
    by (rule kernel_frame [OF ok]) (use fr same in auto)
  then show "kernel_ok t" "interfaces_of t = interfaces_of s" "peers_list t = peers_list s" by auto
  show "mem.more t = mem.more s" "trace t = trace s" using fr by auto
  have a: "a = map Some [next_ptr s..<next_ptr s + length xs]"
    using new_interfaces_fresh [OF x(1)] by simp
  then show "length a = unat c" "unat c \<le> 256" "distinct a"
    using x(2,3) by (simp_all add: distinct_map)
  show "list_all (live t) a"
    by (rule describes_live [OF new_interfaces_describes [OF x(1) wf]])
  have old: "y \<notin> set a" if lv: "live s y" for y
  proof -
    obtain p where "y = Some p" "p \<in> dom (heap s)" using lv by (auto simp: live_def)
    then have "p < next_ptr s" using wf by (auto simp: mem_wf_def)
    then show ?thesis using \<open>y = Some p\<close> by (auto simp: a)
  qed
  have "list_all (live s) (owned s)" using ok by (simp add: kernel_ok_def)
  then show "set a \<inter> set (owned t) = {}"
    using old k by (auto simp: list_all_iff)
  show "set a \<inter> set (live_slots t) = {}"
    using old k live_slots_live [OF reg] by auto
qed

text \<open>The first peer with an address.\<close>

fun addr_index :: "u32 \<Rightarrow> peer_t list \<Rightarrow> nat option" where
  "addr_index a [] = None"
| "addr_index a (p # ps) = (if peer_addr p = a then Some 0 else map_option Suc (addr_index a ps))"

lemma addr_index_SomeD: "addr_index a ps = Some k \<Longrightarrow> k < length ps \<and> peer_addr (ps ! k) = a"
  by (induction ps arbitrary: k) (auto split: if_splits)

lemma addr_index_None: "addr_index a ps = None \<longleftrightarrow> a \<notin> set (map peer_addr ps)"
  by (induction ps) auto

lemma find_peer_list:
  "find_peer (Some (pre @ xs @ tl1)) (length pre) (length xs) a
    = Inr (case addr_index a xs of None \<Rightarrow> - 1 | Some k \<Rightarrow> int (length pre + k))"
proof (induction xs arbitrary: pre)
  case (Cons x xs)
  have "find_peer (Some ((pre @ [x]) @ xs @ tl1)) (length (pre @ [x])) (length xs) a
      = Inr (case addr_index a xs of None \<Rightarrow> - 1 | Some k \<Rightarrow> int (length (pre @ [x]) + k))"
    by (rule Cons.IH)
  then show ?case by (auto simp: nth_append split: option.splits)
qed simp

lemma peers_ready_idem: "peers_ready e (peers_ready e s) = peers_ready e s"
  by (simp add: peers_ready_def init_peers_def)

lemma peers_ready_ok:
  fixes s :: "'z kstate_scheme"
  assumes ok: "kernel_ok s"
  shows "kernel_ok (peers_ready e s)" "interfaces_of (peers_ready e s) = interfaces_of s"
    "peers_list (peers_ready e s) = peers_list s" "trace (peers_ready e s) = trace s"
proof -
  have "kernel_ok (peers_ready e s) \<and> interfaces_of (peers_ready e s) = interfaces_of s \<and>
    peers_list (peers_ready e s) = peers_list s \<and> trace (peers_ready e s) = trace s"
  proof (cases "peers s")
    case None
    let ?t = "peers_ready e s"
    have pl: "peers_list s = []" "peers_list ?t = []"
      using None by (auto simp: peers_list_def peers_ready_def init_peers_def split: option.splits)
    have r: "registry_ok ?t \<and> interfaces_of ?t = interfaces_of s \<and> live_slots ?t = live_slots s"
      by (rule registry_frame) (use ok in \<open>simp_all add: kernel_ok_def registry_ok_def mem_wf_def
        peers_ready_def init_peers_def\<close>)
    have "table_shape ?t"
      using None by (simp add: table_shape_def pl) (simp add: peers_ready_def init_peers_def
          kzalloc_array_def)
    then show ?thesis using ok r pl None
      by (simp add: kernel_ok_def owned_def) (simp add: peers_ready_def init_peers_def)
  qed (use ok in \<open>simp add: peers_ready_def\<close>)
  then show "kernel_ok (peers_ready e s)" "interfaces_of (peers_ready e s) = interfaces_of s"
    "peers_list (peers_ready e s) = peers_list s" "trace (peers_ready e s) = trace s" by auto
qed

lemma get_peer_ok:
  fixes s :: "'z kstate_scheme"
  assumes ok: "kernel_ok s"
  shows "get_peer e a s = Inr (case addr_index a (peers_list s) of None \<Rightarrow> - 1 | Some k \<Rightarrow> int k,
    peers_ready e s)"
proof -
  let ?t = "peers_ready e s"
  have sh: "table_shape ?t" and pl: "peers_list ?t = peers_list s"
    using peers_ready_ok [OF ok, of e] by (simp_all add: kernel_ok_def)
  have "find_peer (peers ?t) 0 (nat (peer_count ?t)) a
      = Inr (case addr_index a (peers_list ?t) of None \<Rightarrow> - 1 | Some k \<Rightarrow> int k)"
  proof (cases "peers ?t")
    case None
    then show ?thesis using sh by (simp add: table_shape_def peers_list_def)
  next
    case (Some ps)
    then have "ps = peers_list ?t @ drop (nat (peer_count ?t)) ps" by (simp add: peers_list_def)
    then show ?thesis
      using find_peer_list [of "[]" "peers_list ?t" "drop (nat (peer_count ?t)) ps" a] Some
        length_peers_list [OF sh] by (simp cong: option.case_cong)
  qed
  then show ?thesis by (simp add: get_peer_def Let_def pl)
qed

lemma put_peer_twice [simp]: "put_peer i q (put_peer i p s) = put_peer i q s"
  by (simp add: put_peer_def option.map_comp comp_def)

lemma put_peer_emit: "put_peer i p (emit ev s) = emit ev (put_peer i p s)"
  by (simp add: put_peer_def emit_def)

text \<open>
  Adding a peer: the table grows by a record without interfaces, whatever the packet described,
  and the node's own registry is untouched. The number of interfaces is remembered.
\<close>

definition new_peer :: "int \<Rightarrow> u32 \<Rightarrow> u32 \<Rightarrow> bool \<Rightarrow> peer_t \<Rightarrow> peer_t" where
  "new_peer i a c d p = p\<lparr>interface_count := sint c, peer_id := i, peer_name := PNull,
     peer_addr := a, interfaces := None, dev := d\<rparr>"

lemma add_peer_step:
  fixes s u :: "'z kstate_scheme"
  assumes ok: "kernel_ok s" and new: "a \<notin> set (map peer_addr (peers_list s))"
    and ready: "peers (peers_ready e s) = Some ps" "peer_count (peers_ready e s) < MAX_PEERS"
    and u: "unserialize_interfaces_packet (kmem e) packet n (peers_ready e s) = Inr (Inr (b, c), u)"
  shows "\<exists>t p d. add_peer e a packet n s = Inr (int (length (peers_list s)), t) \<and> kernel_ok t \<and>
    interfaces_of t = interfaces_of s \<and>
    peers_list t = peers_list s @ [new_peer (int (length (peers_list s))) a c d p] \<and>
    heap t = heap u \<and> ALLOCATED_ID t = ALLOCATED_ID s \<and> live_slots t = live_slots s"
proof -
  note rd = peers_ready_ok [OF ok, of e]
  note k = unserialize_kernel [OF rd(1) u]
  have sh: "table_shape u" using k(1) by (simp add: kernel_ok_def)
  have cnt: "peer_count u = peer_count (peers_ready e s)" "peers u = Some ps"
    using more_fields [OF k(4)] ready(1) by auto
  have len: "peer_count u = int (length (peers_list s))" "0 \<le> peer_count u"
    using length_peers_list [OF sh] sh k(3) rd(3) by (auto simp: table_shape_def)
  define p where "p = ps ! nat (peer_count u)"
  have in_ps: "nat (peer_count u) < length ps" using sh cnt ready(2) by (simp add: table_shape_def)
  then have at: "peer_at u (peer_count u) = Inr p" using len cnt by (simp add: peer_at_def p_def)
  let ?q = "\<lambda>d. new_peer (peer_count u) a c d p"
  obtain cl where cl: "peer_class u = Some cl" using k(1) by (auto simp: kernel_ok_def)
  define d where "d = device_create e (trace u) cl (peer_count u)"
  let ?v = "(put_peer (peer_count u) (?q d) u)\<lparr>peer_count := peer_count u + 1\<rparr>"
  let ?t = "if d then emit (Device_created cl (peer_count u)) ?v else ?v"
  have at2: "peer_at (put_peer (peer_count u) x u) (peer_count u) = Inr x" for x
    using cnt in_ps len by (simp add: peer_at_def)
  have "add_peer e a packet n s = Inr (peer_count u, ?t)"
    using ready(2) unfolding add_peer_def Let_def
    by (simp add: u at at2 cl register_peer_device_def d_def put_peer_emit new_peer_def)
      (simp add: emit_def)
  moreover have v: "kernel_ok ?v \<and> interfaces_of ?v = interfaces_of u \<and> live_slots ?v = live_slots u \<and>
      peers_list ?v = peers_list u @ [?q d]"
    by (rule kernel_ok_add [OF k(1) _ cnt(2)])
      (use ready cnt new k(3) rd(3) in \<open>simp_all add: new_peer_def\<close>)
  moreover have "kernel_ok ?t \<and> interfaces_of ?t = interfaces_of u \<and> peers_list ?t = peers_list u @ [?q d]"
    using v kernel_ok_emit [of ?v "Device_created cl (peer_count u)"] by (cases d) auto
  moreover have "heap ?t = heap u" by (simp add: emit_def)
  moreover have "live_slots ?t = live_slots s"
    using more_fields [OF k(4)]
    by (simp add: emit_def live_slots_def slots_of_def put_peer_def peers_ready_def init_peers_def)
  moreover have "ALLOCATED_ID ?t = ALLOCATED_ID s"
    using more_fields(7) [OF k(4)] by (simp add: emit_def put_peer_def peers_ready_def init_peers_def)
  ultimately show ?thesis using k(2,3) rd(2,3) len(1) by metis
qed

text \<open>What a call of \<open>add_peer\<close> did, once the table is there: nothing, or it added the peer.\<close>

lemma add_peer_cases:
  fixes s t :: "'z kstate_scheme"
  assumes ok: "kernel_ok s" and new: "a \<notin> set (map peer_addr (peers_list s))"
    and ready: "peers_ready e s = s" and run: "add_peer e a packet n s = Inr (r, t)"
  obtains (same) "t = s"
  | (added) b c u p d where "unserialize_interfaces_packet (kmem e) packet n s = Inr (Inr (b, c), u)"
      "kernel_ok t" "interfaces_of t = interfaces_of s" "length (peers_list s) < 256"
      "peers_list t = peers_list s @ [new_peer (int (length (peers_list s))) a c d p]"
      "heap t = heap u" "ALLOCATED_ID t = ALLOCATED_ID s" "live_slots t = live_slots s"
proof (cases "MAX_PEERS \<le> peer_count s")
  case True
  then show ?thesis using run by (intro same) (simp add: add_peer_def ready)
next
  case False
  obtain res u where u: "unserialize_interfaces_packet (kmem e) packet n s = Inr (res, u)"
    using run False by (auto simp: add_peer_def ready bindr_eq_Inr)
  show ?thesis
  proof (cases res)
    case (Inl err)
    with u have "u = s" using unserialize_rejects [of "kmem e" packet n s err u] by simp
    then show ?thesis using run False u Inl by (intro same) (simp add: add_peer_def ready)
  next
    case (Inr ac)
    obtain b c where bc: "ac = (b, c)" by (cases ac)
    note u' = u [unfolded Inr bc]
    note k = unserialize_kernel [OF ok u']
    obtain p where "peer_at u (peer_count u) = Inr p"
      using run False u' by (auto simp: add_peer_def ready Let_def bindr_eq_Inr)
    then obtain ps where "peers (peers_ready e s) = Some ps" "peer_count (peers_ready e s) < MAX_PEERS"
      using more_fields [OF k(4)] False ready by (auto simp: peer_at_def arr_get_eq_Inr split: if_splits)
    from add_peer_step [OF ok new this, unfolded ready, OF u'] run obtain p d where
      t: "kernel_ok t" "interfaces_of t = interfaces_of s"
        "peers_list t = peers_list s @ [new_peer (int (length (peers_list s))) a c d p]"
        "heap t = heap u" "ALLOCATED_ID t = ALLOCATED_ID s" "live_slots t = live_slots s"
      by auto
    have "table_shape s" using ok by (simp add: kernel_ok_def)
    then have "length (peers_list s) < 256"
      using length_peers_list [of s] False by (simp add: table_shape_def)
    from added [OF u' t(1,2) this t(3-6)] show ?thesis .
  qed
qed

lemma peer_at_list:
  assumes "table_shape s" "0 \<le> i" "i < peer_count s"
  shows "peer_at s i = Inr (peers_list s ! nat i)" "peers_list s ! nat i \<in> set (peers_list s)"
proof -
  obtain ps where "peers s = Some ps" "nat i < length ps" "nat i < nat (peer_count s)"
    using assms by (auto simp: table_shape_def split: option.splits)
  then show "peer_at s i = Inr (peers_list s ! nat i)" "peers_list s ! nat i \<in> set (peers_list s)"
    using assms by (auto simp: peer_at_def peers_list_def in_set_conv_nth)
qed

text \<open>
  Updating a peer in the table: the old descriptors are freed, the new ones belong to the peer,
  and no other peer and no registered interface changes.
\<close>

lemma update_step:
  fixes s u :: "'z kstate_scheme"
  assumes ok: "kernel_ok s" and i: "0 \<le> i" "i < peer_count s"
    and u: "unserialize_interfaces_packet (kmem e) packet n s = Inr (Inr (a, c), u)"
  defines "p \<equiv> peers_list s ! nat i"
  defines "t \<equiv> put_peer i (p\<lparr>interfaces := Some a, interface_count := sint c\<rparr>) (release_all (peer_slots p) u)"
  shows "update_peer_interfaces e i packet n s = Inr (0, t)" "kernel_ok t"
    "interfaces_of t = interfaces_of s"
    "peers_list t = (peers_list s)[nat i := p\<lparr>interfaces := Some a, interface_count := sint c\<rparr>]"
proof -
  note k = unserialize_kernel [OF ok u]
  have cnt: "peer_count u = peer_count s" "peers u = peers s" using more_fields [OF k(4)] by auto
  have sh: "table_shape s" "table_shape u" using ok k(1) by (simp_all add: kernel_ok_def)
  have some: "peers s \<noteq> None" using i sh(1) by (cases "peers s") (auto simp: table_shape_def)
  have at: "peer_at u i = Inr p" and "p \<in> set (peers_list u)"
    using peer_at_list [OF sh(2) i(1)] i(2) cnt(1) k(3) by (simp_all add: p_def)
  then have pok: "peer_ok p" using sh(2) by (auto simp: table_shape_def list_all_iff)
  have sl: "list_all (live u) (peer_slots p)" "distinct (peer_slots p)"
  proof -
    obtain A B where "owned u = A @ peer_slots p @ B"
      using owned_split [OF sh(2) i(1)] i(2) cnt(1) k(3) by (metis p_def)
    then show "list_all (live u) (peer_slots p)" "distinct (peer_slots p)"
      using k(1) by (auto simp: kernel_ok_def)
  qed
  have free: "free_interfaces (interfaces p) (interface_count p) u = Inr (release_all (peer_slots p) u)"
  proof (cases "interfaces p")
    case None
    then show ?thesis by (simp add: free_interfaces_def peer_slots_def release_all_def)
  next
    case (Some b)
    then have "interface_count p = int (length b)" "peer_slots p = b"
      using pok by (simp_all add: peer_ok_def peer_slots_def)
    then show ?thesis using free_interfaces_all [of u b] sl Some by simp
  qed
  show "update_peer_interfaces e i packet n s = Inr (0, t)"
    using i some by (simp add: update_peer_interfaces_def u at free t_def)
  have cs: "sint c = int (length a)"
    using k(6,7) sint_small_u32 [of c] by simp
  have "kernel_ok t \<and> interfaces_of t = interfaces_of u \<and>
      peers_list t = (peers_list u)[nat i := p\<lparr>interfaces := Some a, interface_count := sint c\<rparr>]"
    unfolding t_def
    by (rule kernel_ok_update [OF k(1) i(1) _ _ _ _ _ _ k(8,9,10,11)])
      (use i cnt k(3) cs in \<open>simp_all add: p_def\<close>)
  then show "kernel_ok t" "interfaces_of t = interfaces_of s"
    "peers_list t = (peers_list s)[nat i := p\<lparr>interfaces := Some a, interface_count := sint c\<rparr>]"
    using k(2,3) by auto
qed

text \<open>What a call of \<open>update_peer_interfaces\<close> did: nothing, or it replaced the list.\<close>

lemma update_peer_cases:
  fixes s t :: "'z kstate_scheme"
  assumes ok: "kernel_ok s" and i: "i < length (peers_list s)"
    and run: "update_peer_interfaces e (int i) packet n s = Inr (r, t)"
  obtains (same) "t = s"
  | (updated) a c u where "unserialize_interfaces_packet (kmem e) packet n s = Inr (Inr (a, c), u)"
      "t = put_peer (int i) ((peers_list s ! i)\<lparr>interfaces := Some a, interface_count := sint c\<rparr>)
        (release_all (peer_slots (peers_list s ! i)) u)"
      "kernel_ok t" "interfaces_of t = interfaces_of s"
      "peers_list t = (peers_list s)[i := (peers_list s ! i)\<lparr>interfaces := Some a, interface_count := sint c\<rparr>]"
      "ALLOCATED_ID t = ALLOCATED_ID s" "live_slots t = live_slots s"
proof -
  have sh: "table_shape s" using ok by (simp add: kernel_ok_def)
  have j: "0 \<le> int i" "int i < peer_count s" using i length_peers_list [OF sh] by simp_all
  have some: "peers s \<noteq> None" using j sh by (cases "peers s") (auto simp: table_shape_def)
  obtain res u where u: "unserialize_interfaces_packet (kmem e) packet n s = Inr (res, u)"
    using run j some by (auto simp: update_peer_interfaces_def bindr_eq_Inr)
  show ?thesis
  proof (cases res)
    case (Inl err)
    then have "u = s" using u unserialize_rejects [of "kmem e" packet n s err u] by simp
    then show ?thesis using run j some u Inl by (intro same) (simp add: update_peer_interfaces_def)
  next
    case (Inr ac)
    obtain a c where bc: "ac = (a, c)" by (cases ac)
    note u' = u [unfolded Inr bc]
    note m = more_fields [OF unserialize_kernel(4) [OF ok u']]
    let ?q = "(peers_list s ! i)\<lparr>interfaces := Some a, interface_count := sint c\<rparr>"
    have t: "t = put_peer (int i) ?q (release_all (peer_slots (peers_list s ! i)) u)" "kernel_ok t"
        "interfaces_of t = interfaces_of s" "peers_list t = (peers_list s)[i := ?q]"
      using update_step [OF ok j u'] run by simp_all
    have "ALLOCATED_ID t = ALLOCATED_ID s" "live_slots t = live_slots s"
      using m by (simp_all add: t(1) put_peer_def release_all_def live_slots_def slots_of_def)
    from updated [OF u' t this] show ?thesis .
  qed
qed

definition discovery_ok :: "byte list \<times> u32 \<times> 'z kstate_scheme \<Rightarrow> bool" where
  "discovery_ok = (\<lambda>(buffer, _, s). length buffer = DISCOVERY_BUFFER \<and> kernel_ok s)"

lemma kernel_ok_recv:
  fixes s t :: "'z kstate_scheme"
  assumes "kernel_ok s" and "sock_recvfrom e sock (PBlk b) n s = Inr (r, sender, buf, t)"
  shows "kernel_ok t \<and> interfaces_of t = interfaces_of s \<and> peers_list t = peers_list s \<and>
    mem.more t = mem.more s \<and> heap t = heap s \<and> (\<exists>b'. buf = PBlk b' \<and> length b' = length b)"
proof -
  have t: "t = s \<or> (\<exists>k. t = emit (Sock_received k (size_of_int n)) s)"
    and b: "\<exists>b'. buf = PBlk b' \<and> length b' = length b"
    using assms(2) by (auto simp: sock_recvfrom_def bindr_eq_Inr overlay_def Let_def
        split: option.splits if_splits prod.splits)
  show ?thesis using t b kernel_ok_emit [OF assms(1)] assms(1) by (auto simp: emit_def)
qed

lemma discovery_step_received:
  fixes s u :: "'z kstate_scheme"
  assumes "sock_recvfrom e sock (PBlk buffer) (int DISCOVERY_BUFFER) s = Inr (sz, sender, PBlk b, u)"
    and "kernel_ok u" and "a = (case sender of None \<Rightarrow> from_addr | Some a \<Rightarrow> a)"
  shows "discovery_step e sock (buffer, from_addr, s) =
    bindr (case addr_index a (peers_list u) of
        None \<Rightarrow> add_peer e a b (word_of_int sz) (peers_ready e u)
      | Some k \<Rightarrow> update_peer_interfaces e (int k) b (word_of_int sz) (peers_ready e u))
    (\<lambda>(_, s). Inr (b, a, s))"
  unfolding discovery_step_def
  by (simp add: assms(1) [simplified] assms(3) [symmetric] get_peer_ok [OF assms(2)] Let_def
      split: option.split)

text \<open>
  One turn: after the receive, the peer is added if its address is new and updated if not.
\<close>

lemma discovery_step_cases:
  fixes s t :: "'z kstate_scheme"
  assumes ok: "kernel_ok s" "length buffer = DISCOVERY_BUFFER"
    and run: "discovery_step e sock (buffer, from_addr, s) = Inr (b, f, t)"
  obtains (added) u n r sender where "kernel_ok u" "interfaces_of u = interfaces_of s" "peers_list u = peers_list s"
      "mem.more u = mem.more s" "heap u = heap s" "length b = DISCOVERY_BUFFER"
      "f \<notin> set (map peer_addr (peers_list (peers_ready e u)))"
      "add_peer e f b (word_of_int n) (peers_ready e u) = Inr (r, t)"
      "sock_recvfrom e sock (PBlk buffer) (int DISCOVERY_BUFFER) s = Inr (n, sender, PBlk b, u)"
      "f = (case sender of None \<Rightarrow> from_addr | Some a \<Rightarrow> a)"
  | (updated) u n r k sender where "kernel_ok u" "interfaces_of u = interfaces_of s" "peers_list u = peers_list s"
      "mem.more u = mem.more s" "heap u = heap s" "length b = DISCOVERY_BUFFER"
      "k < length (peers_list (peers_ready e u))" "addr_index f (peers_list s) = Some k"
      "update_peer_interfaces e (int k) b (word_of_int n) (peers_ready e u) = Inr (r, t)"
      "sock_recvfrom e sock (PBlk buffer) (int DISCOVERY_BUFFER) s = Inr (n, sender, PBlk b, u)"
      "f = (case sender of None \<Rightarrow> from_addr | Some a \<Rightarrow> a)"
proof -
  obtain sz sender buf u where u: "sock_recvfrom e sock (PBlk buffer) (int DISCOVERY_BUFFER) s
      = Inr (sz, sender, buf, u)"
    using run by (auto simp: discovery_step_def bindr_eq_Inr)
  obtain b' where b': "buf = PBlk b'" "length b' = DISCOVERY_BUFFER" and
    ku: "kernel_ok u" "interfaces_of u = interfaces_of s" "peers_list u = peers_list s"
      "mem.more u = mem.more s" "heap u = heap s"
    using kernel_ok_recv [OF ok(1) u] ok(2) by auto
  define a where "a = (case sender of None \<Rightarrow> from_addr | Some a \<Rightarrow> a)"
  note rd = peers_ready_ok [OF ku(1), of e]
  note step = discovery_step_received [OF u [unfolded b'(1)] ku(1) a_def]
  show ?thesis
  proof (cases "addr_index a (peers_list u)")
    case None
    have "bindr (add_peer e a b' (word_of_int sz) (peers_ready e u)) (\<lambda>(_, s). Inr (b', a, s)) = Inr (b, f, t)"
      using run [unfolded step] None by (simp only: option.case)
    then obtain r where "add_peer e a b' (word_of_int sz) (peers_ready e u) = Inr (r, t)" "b = b'" "f = a"
      by (cases "add_peer e a b' (word_of_int sz) (peers_ready e u)") auto
    with added [OF ku] None u show ?thesis by (simp add: b' rd(3) addr_index_None a_def)
  next
    case (Some k)
    have k: "k < length (peers_list (peers_ready e u))" using addr_index_SomeD [OF Some] by (simp add: rd(3))
    have "bindr (update_peer_interfaces e (int k) b' (word_of_int sz) (peers_ready e u))
        (\<lambda>(_, s). Inr (b', a, s)) = Inr (b, f, t)"
      using run [unfolded step] Some by (simp only: option.case)
    then obtain r where "update_peer_interfaces e (int k) b' (word_of_int sz) (peers_ready e u) = Inr (r, t)"
        "b = b'" "f = a"
      by (cases "update_peer_interfaces e (int k) b' (word_of_int sz) (peers_ready e u)") auto
    with updated [OF ku _ k] Some u show ?thesis by (simp add: b' ku(3) a_def)
  qed
qed

lemma discovery_step_ok:
  assumes ok: "discovery_ok (buffer, from_addr, s)"
    and run: "discovery_step e sock (buffer, from_addr, s) = Inr (b, f, t)"
  shows "discovery_ok (b, f, t) \<and> interfaces_of t = interfaces_of s"
proof -
  have s: "kernel_ok s" "length buffer = DISCOVERY_BUFFER" using ok by (simp_all add: discovery_ok_def)
  from s run show ?thesis
  proof (cases rule: discovery_step_cases)
    case (added u n r sender)
    note rd = peers_ready_ok [OF added(1), of e]
    from rd(1) added(7) peers_ready_idem added(8) have "kernel_ok t \<and> interfaces_of t = interfaces_of u"
      by (cases rule: add_peer_cases) (simp_all add: rd)
    then show ?thesis using added(2,6) by (simp add: discovery_ok_def)
  next
    case (updated u n r k sender)
    note rd = peers_ready_ok [OF updated(1), of e]
    from rd(1) updated(7,9) have "kernel_ok t \<and> interfaces_of t = interfaces_of u"
      by (cases rule: update_peer_cases) (simp_all add: rd)
    then show ?thesis using updated(2,6) by (simp add: discovery_ok_def)
  qed
qed

section \<open>Properties\<close>

lemma discovery_run_ok:
  "discovery_ok st \<Longrightarrow> discovery_run e sock n st = Inr st' \<Longrightarrow>
   discovery_ok st' \<and> interfaces_of (snd (snd st')) = interfaces_of (snd (snd st))"
proof (induction n arbitrary: st)
  case (Suc n)
  obtain b f s where st: "st = (b, f, s)" by (cases st)
  obtain st1 where 1: "discovery_step e sock st = Inr st1" "discovery_run e sock n st1 = Inr st'"
    using Suc.prems(2) by (cases "discovery_step e sock st") auto
  obtain b1 f1 s1 where st1: "st1 = (b1, f1, s1)" by (cases st1)
  have "discovery_ok st1 \<and> interfaces_of s1 = interfaces_of s"
    using discovery_step_ok [of b f s e sock b1 f1 s1] Suc.prems(1) 1(1) by (simp add: st st1)
  with Suc.IH [of st1] 1(2) show ?case by (simp add: st st1)
qed simp

text \<open>
  Whatever arrives on the discovery port, in whatever order, the table of peers stays
  well-formed (at most 256 peers with distinct addresses, each owning its descriptors) and the
  node's own registry is not touched.
\<close>

theorem discovery_keeps_invariant:
  assumes "kernel_ok s" and "discovery_server_loop e sock n s = Inr (buffer, from_addr, t)"
  shows "kernel_ok t \<and> interfaces_of t = interfaces_of s \<and> length (peers_list t) \<le> 256 \<and>
    distinct (map peer_addr (peers_list t))"
proof -
  obtain b where b: "kzalloc_bytes (kmem e) DISCOVERY_BUFFER = PBlk b" "length b = DISCOVERY_BUFFER"
      "discovery_run e sock n (b, 0, s) = Inr (buffer, from_addr, t)"
    using assms(2) by (auto simp: discovery_server_loop_def kzalloc_bytes_def split: if_splits)
  have "discovery_ok (b, 0 :: u32, s)" using assms(1) b(2) by (simp add: discovery_ok_def)
  from discovery_run_ok [OF this b(3)] have t: "kernel_ok t" "interfaces_of t = interfaces_of s"
    by (simp_all add: discovery_ok_def)
  then have "table_shape t" by (simp add: kernel_ok_def)
  then show ?thesis using t length_peers_list [of t] by (auto simp: table_shape_def)
qed

lemma recv_whole:
  assumes "length packet \<le> length b" "packet \<noteq> []" "\<not> sk_null k"
    and "sock_recvmsg e (trace s) (sock_no k) 65536 = (r, sender, packet)"
  shows "sock_recvfrom e (Some k) (PBlk b) (int DISCOVERY_BUFFER) s = Inr (r, sender,
    PBlk (packet @ drop (length packet) b), emit (Sock_received (sock_no k) 65536) s)"
  using assms by (simp add: sock_recvfrom_def size_of_int_def overlay_def)

lemma addr_index_append:
  "addr_index a (xs @ ys) = (case addr_index a xs of Some k \<Rightarrow> Some k
     | None \<Rightarrow> map_option (\<lambda>k. length xs + k) (addr_index a ys))"
  by (induction xs) (cases "addr_index a ys"; auto split: option.splits)+

text \<open>
  A broadcast as it arrives: the bytes of the sender's list, from its address. The receiver has
  the memory for the copies, and the list is not longer than it accepts.
\<close>

definition hears :: "kenv \<Rightarrow> nat \<Rightarrow> u32 \<Rightarrow> interface_t list \<Rightarrow> bool" where
  "hears e k a xs \<longleftrightarrow> list_all interface_readable xs \<and> adverts_granted (kmem e) xs \<and>
     length xs \<le> unat MAX_INTERFACES \<and> length (advert_bytes xs) \<le> 65536 \<and>
     (\<forall>tr. sock_recvmsg e tr k 65536 = (int (length (advert_bytes xs)), Some a, advert_bytes xs))"

lemma length_advert_bytes: "4 \<le> length (advert_bytes xs)" "advert_bytes xs \<noteq> []"
  by (simp_all add: advert_bytes_def u32_bytes_def)

lemma hears_parses:
  assumes h: "hears e k a xs" and wf: "mem_wf v"
  shows "\<exists>c u. unserialize_interfaces_packet (kmem e) (advert_bytes xs @ rest)
      (word_of_int (int (length (advert_bytes xs)))) v = Inr (Inr (c, word_of_nat (length xs)), u) \<and>
    describes c u (map advert xs)"
proof -
  let ?n = "length (advert_bytes xs)"
  have r: "list_all interface_readable xs" and ad: "adverts_granted (kmem e) xs"
    and l: "length xs \<le> unat MAX_INTERFACES" "?n \<le> 65536"
    using h by (simp_all add: hears_def)
  have g: "kgrant (kmem e) (length (map advert xs) * SIZEOF_PTR)" "length (map advert xs) \<le> unat MAX_INTERFACES"
    using ad l(1) by (simp_all add: adverts_granted_def)
  have "unat (word_of_nat ?n :: u32) = ?n" using l(2) by (simp only: unat_of_nat_u32)
  then have n: "4 \<le> (word_of_int (int ?n) :: u32)"
    using length_advert_bytes(1) [of xs] by (simp only: word_le_nat_alt of_int_of_nat_eq) simp
  show ?thesis
    using unserialize_interfaces_ok [OF adverts_owned [OF ad r] g(2,1) n wf, of rest]
    by (auto simp: advert_bytes_adverts [OF r])
qed

lemma hears_count: "hears e k a xs \<Longrightarrow> sint (word_of_nat (length xs) :: u32) = int (length xs)"
  using sint_small_u32 [of "word_of_nat (length xs)"] by (simp add: hears_def unat_of_nat_u32)

lemma hears_recv:
  assumes "hears e (sock_no k) a xs" and "\<not> sk_null k" and "length b = 65536"
  shows "sock_recvfrom e (Some k) (PBlk b) (int DISCOVERY_BUFFER) s = Inr (int (length (advert_bytes xs)), Some a,
    PBlk (advert_bytes xs @ drop (length (advert_bytes xs)) b), emit (Sock_received (sock_no k) 65536) s)"
  by (rule recv_whole) (use assms length_advert_bytes in \<open>simp_all add: hears_def\<close>)

text \<open>The first broadcast of a node adds a peer without a list.\<close>

lemma first_broadcast:
  fixes s :: "'z kstate_scheme"
  assumes ok: "kernel_ok s" and new: "addr_index a (peers_list s) = None"
    and room: "peers (peers_ready e s) \<noteq> None" "length (peers_list s) < 256"
    and h: "hears e (sock_no k) a xs" "\<not> sk_null k" "length b = 65536"
  defines "b1 \<equiv> advert_bytes xs @ drop (length (advert_bytes xs)) b"
  shows "\<exists>t p d. discovery_step e (Some k) (b, f, s) = Inr (b1, a, t) \<and> kernel_ok t \<and>
    peers_list t = peers_list s @ [new_peer (int (length (peers_list s))) a (word_of_nat (length xs)) d p]"
proof -
  let ?s = "emit (Sock_received (sock_no k) 65536) s" and ?n = "int (length (advert_bytes xs))"
  have ok': "kernel_ok ?s" and pl': "peers_list ?s = peers_list s"
    using kernel_ok_emit [OF ok, of "Sock_received (sock_no k) 65536"] by auto
  note rd = peers_ready_ok [OF ok', of e]
  have sh: "table_shape (peers_ready e ?s)" and wf: "mem_wf (peers_ready e ?s)"
    using rd(1) by (simp_all add: kernel_ok_def registry_ok_def)
  have "0 \<le> peer_count (peers_ready e ?s)" using sh by (simp add: table_shape_def)
  then have lt: "peer_count (peers_ready e ?s) < MAX_PEERS"
    using length_peers_list [OF sh] rd(3) pl' room(2) by simp
  have "peers (peers_ready e ?s) = peers (peers_ready e s)" by (simp add: peers_ready_def init_peers_def emit_def)
  then obtain ps where ps: "peers (peers_ready e ?s) = Some ps" using room(1) by auto
  obtain c u where u: "unserialize_interfaces_packet (kmem e) b1 (word_of_int ?n) (peers_ready e ?s)
      = Inr (Inr (c, word_of_nat (length xs)), u)"
    using hears_parses [OF h(1) wf] unfolding b1_def by blast
  have nw: "a \<notin> set (map peer_addr (peers_list ?s))" using new by (simp add: pl' addr_index_None)
  have "peers_ready e (peers_ready e ?s) = peers_ready e ?s" using ps by (simp add: peers_ready_def)
  then have same: "add_peer e a b1 (word_of_int ?n) (peers_ready e ?s) = add_peer e a b1 (word_of_int ?n) ?s"
    by (simp add: add_peer_def)
  obtain t p d where t: "add_peer e a b1 (word_of_int ?n) ?s = Inr (int (length (peers_list s)), t)" "kernel_ok t"
      "peers_list t = peers_list s @ [new_peer (int (length (peers_list s))) a (word_of_nat (length xs)) d p]"
    using add_peer_step [OF ok' nw ps lt u] pl' by auto
  have "discovery_step e (Some k) (b, f, s) = Inr (b1, a, t)"
    using discovery_step_received [OF hears_recv [OF h] ok' refl, of f] new t(1) same
    by (simp add: pl' b1_def)
  with t(2,3) show ?thesis by blast
qed

text \<open>Every later one replaces the list of the peer by the list it carries.\<close>

lemma later_broadcast:
  fixes s :: "'z kstate_scheme"
  assumes ok: "kernel_ok s" and known: "addr_index a (peers_list s) = Some i"
    and h: "hears e (sock_no k) a xs" "\<not> sk_null k" "length b = 65536"
  defines "b1 \<equiv> advert_bytes xs @ drop (length (advert_bytes xs)) b"
  shows "\<exists>t c. discovery_step e (Some k) (b, f, s) = Inr (b1, a, t) \<and> kernel_ok t \<and>
    peers_list t = (peers_list s)[i := (peers_list s ! i)\<lparr>interfaces := Some c, interface_count := int (length xs)\<rparr>] \<and>
    describes c t (map advert xs) \<and>
    (\<forall>p. Some p \<in> set (peer_slots (peers_list s ! i)) \<longrightarrow> heap t p = None)"
proof -
  let ?s = "emit (Sock_received (sock_no k) 65536) s" and ?n = "int (length (advert_bytes xs))"
  have ok': "kernel_ok ?s" and pl': "peers_list ?s = peers_list s"
    using kernel_ok_emit [OF ok, of "Sock_received (sock_no k) 65536"] by auto
  have sh: "table_shape ?s" and wf: "mem_wf ?s" using ok' by (simp_all add: kernel_ok_def registry_ok_def)
  have i: "i < length (peers_list s)" using addr_index_SomeD [OF known] by simp
  then have "peers ?s \<noteq> None" using pl' by (cases "peers ?s") (simp_all add: peers_list_def)
  then have rd: "peers_ready e ?s = ?s" unfolding peers_ready_def by (rule if_not_P)
  obtain c u where u: "unserialize_interfaces_packet (kmem e) b1 (word_of_int ?n) ?s
      = Inr (Inr (c, word_of_nat (length xs)), u)" "describes c u (map advert xs)"
    using hears_parses [OF h(1) wf] unfolding b1_def by blast
  have in_table: "0 \<le> int i" "int i < peer_count ?s" using i length_peers_list [OF sh] pl' by simp_all
  note us = update_step [OF ok' in_table u(1)]
  let ?p = "peers_list s ! i"
  define t where "t = put_peer (int i) (?p\<lparr>interfaces := Some c, interface_count := int (length xs)\<rparr>)
    (release_all (peer_slots ?p) u)"
  have t: "update_peer_interfaces e (int i) b1 (word_of_int ?n) ?s = Inr (0, t)" "kernel_ok t"
      "peers_list t = (peers_list s)[i := ?p\<lparr>interfaces := Some c, interface_count := int (length xs)\<rparr>]"
    using us by (simp_all add: pl' t_def hears_count [OF h(1)])
  have disj: "set c \<inter> set (peer_slots ?p) = {}"
  proof -
    note k = unserialize_kernel [OF ok' u(1)]
    have pl: "peers_list u = peers_list s" using k(3) pl' by simp
    have "?p \<in> set (peers_list s)" using i by simp
    then have "set (peer_slots ?p) \<subseteq> set (owned u)" by (auto simp: owned_def pl)
    then show ?thesis using k(10) by blast
  qed
  have "describes c t (map advert xs)"
    by (rule describes_frame [OF u(2)]) (use disj in \<open>auto simp: t_def\<close>)
  moreover have "discovery_step e (Some k) (b, f, s) = Inr (b1, a, t)"
    using discovery_step_received [OF hears_recv [OF h] ok' refl, of f] known t(1) rd
    by (simp add: pl' b1_def)
  moreover have "\<forall>q. Some q \<in> set (peer_slots ?p) \<longrightarrow> heap t q = None" by (simp add: t_def)
  ultimately show ?thesis using t(2,3) by blast
qed

text \<open>
  A node learns what a peer advertises, but only from the second broadcast on. The first
  one creates the peer with the number of interfaces and no list; the second fills the list
  with exactly the descriptors the sender advertised.
\<close>

theorem second_broadcast_learned:
  assumes ok: "kernel_ok s" and new: "addr_index a (peers_list s) = None"
    and room: "peers (peers_ready e s) \<noteq> None" "length (peers_list s) < 256"
    and sent: "describes ptrs s0 xs" "adverts_fit (kmem e) xs" "length xs \<le> unat MAX_INTERFACES"
      "adverts_granted (kmem e) xs"
      "serialize_interfaces_packet (kmem e) (Some ptrs) (word_of_nat (length xs)) s0
        = Inr (PBlk packet, m)"
    and recv: "\<And>tr. sock_recvmsg e tr (sock_no k) 65536 = (int (length packet), Some a, packet)"
      "length packet \<le> 65536" "\<not> sk_null k"
    and b: "length b = 65536"
  shows "\<exists>b1 s1 b2 s2 p q. discovery_run e (Some k) 1 (b, f, s) = Inr (b1, a, s1) \<and>
    peers_list s1 = peers_list s @ [p] \<and> interfaces p = None \<and>
    interface_count p = int (length xs) \<and>
    discovery_run e (Some k) 1 (b1, a, s1) = Inr (b2, a, s2) \<and> kernel_ok s2 \<and>
    peers_list s2 = peers_list s @ [q] \<and> peer_addr q = a \<and>
    (\<exists>slots. interfaces q = Some slots \<and> describes slots s2 (map advert xs))"
proof -
  have r: "list_all interface_readable xs"
    using sent(2) by (auto simp: adverts_fit_def list_all_iff interface_sendable_def)
  have p: "packet = advert_bytes xs"
    using serialize_interfaces_ok [OF sent(1,2), of "[]"] sent(5) by simp
  have h: "hears e (sock_no k) a xs" using r sent(3,4) recv(1,2) by (simp add: hears_def p)
  obtain s1 p1 d where s1: "discovery_step e (Some k) (b, f, s)
      = Inr (advert_bytes xs @ drop (length (advert_bytes xs)) b, a, s1)" "kernel_ok s1"
      "peers_list s1 = peers_list s @ [new_peer (int (length (peers_list s))) a (word_of_nat (length xs)) d p1]"
    using first_broadcast [OF ok new room h recv(3) b] by blast
  have known: "addr_index a (peers_list s1) = Some (length (peers_list s))"
    using new by (simp add: s1(3) addr_index_append new_peer_def)
  have b1: "length (advert_bytes xs @ drop (length (advert_bytes xs)) b) = 65536"
    using recv(2) b by (simp add: p)
  from later_broadcast [OF s1(2) known h recv(3) b1, of a] show ?thesis
    using s1 hears_count [OF h] by (fastforce simp: new_peer_def)
qed

section \<open>Examples\<close>

definition fresh_kernel :: kstate where
  "fresh_kernel = \<lparr>heap = Map.empty, next_ptr = 1, trace = [], ALLOCATED_ID = 1,
     INTERFACE_COUNT = 0, INTERFACE_CAPACITY = 0, INTERFACE_LIST = None, KERN_NETLINK = Some 0,
     peers = None, peer_count = 0, peer_major = Some 0, peer_class = Some 0\<rparr>"

definition two_small :: "interface_t list" where
  "two_small = replicate 2 (small_interface 5)"

definition small_packet :: "byte list" where
  "small_packet = advert_bytes two_small"

definition hearing_kernel :: kenv where
  "hearing_kernel = kind_kernel\<lparr>sock_recvmsg :=
     (\<lambda>tr k n. (int (length small_packet), Some 9, small_packet))\<rparr>"

lemma fresh_kernel_ok: "kernel_ok fresh_kernel"
  by (simp add: kernel_ok_def registry_ok_def mem_wf_def slots_of_def live_slots_def
      interfaces_of_def table_shape_def peers_list_def owned_def fresh_kernel_def)

theorem discovery_keeps_invariant_witness:
  "\<exists>buffer f t. discovery_server_loop kind_kernel (Some (open_socket 4)) (Suc (Suc 0)) fresh_kernel
      = Inr (buffer, f, t) \<and>
    kernel_ok t \<and> interfaces_of t = interfaces_of fresh_kernel \<and> length (peers_list t) \<le> 256 \<and>
    distinct (map peer_addr (peers_list t))"
proof -
  have "\<exists>b f t. discovery_server_loop kind_kernel (Some (open_socket 4)) (Suc (Suc 0)) fresh_kernel = Inr (b, f, t)"
    by (simp add: discovery_server_loop_def kzalloc_bytes_def kgrant_def kind_kernel_def kmalloc_max_def
        discovery_step_def sock_recvfrom_def open_socket_def get_peer_def Let_def
        peers_ready_def init_peers_def kzalloc_array_def fresh_kernel_def add_peer_def emit_def
        unserialize_interfaces_alt)
  then obtain b f t where "discovery_server_loop kind_kernel (Some (open_socket 4)) (Suc (Suc 0)) fresh_kernel
      = Inr (b, f, t)" by blast
  from this discovery_keeps_invariant [OF fresh_kernel_ok this] show ?thesis by blast
qed

lemma length_small_packet: "length small_packet = 30"
  by (simp add: small_packet_def advert_bytes_def two_small_def numeral_2_eq_2 small_interface_enc)

theorem second_broadcast_learned_witness:
  "\<exists>b1 s1 b2 s2 p q. discovery_run hearing_kernel (Some (open_socket 4)) 1
      (replicate 65536 0, 0, fresh_kernel) = Inr (b1, 9, s1) \<and>
    peers_list s1 = peers_list fresh_kernel @ [p] \<and> interfaces p = None \<and>
    interface_count p = int (length two_small) \<and>
    discovery_run hearing_kernel (Some (open_socket 4)) 1 (b1, 9, s1) = Inr (b2, 9, s2) \<and>
    kernel_ok s2 \<and> peers_list s2 = peers_list fresh_kernel @ [q] \<and> peer_addr q = 9 \<and>
    (\<exists>slots. interfaces q = Some slots \<and> describes slots s2 (map advert two_small))"
proof -
  have mem: "kmem hearing_kernel = kmalloc_max" by (simp add: hearing_kernel_def kind_kernel_def)
  have fit: "adverts_fit (kmem hearing_kernel) two_small"
    unfolding mem two_small_def by (rule adverts_fit_small) simp
  have d: "describes (replicate 2 (Some 1)) small_heap two_small"
    unfolding two_small_def by (rule small_describes)
  have g: "adverts_granted (kmem hearing_kernel) two_small"
    by (simp add: mem adverts_granted_def kgrant_def kmalloc_max_def two_small_def small_interface_def
        interface_0_def list_all_iff)
  have s: "serialize_interfaces_packet (kmem hearing_kernel) (Some (replicate 2 (Some 1)))
      (word_of_nat (length two_small)) small_heap
      = Inr (PBlk small_packet, word_of_nat (length small_packet))"
    using serialize_interfaces_ok [OF d fit, of "[]"] by (simp add: small_packet_def)
  show ?thesis
    by (rule second_broadcast_learned [OF fresh_kernel_ok _ _ _ d fit _ g s])
      (simp_all add: peers_list_def fresh_kernel_def peers_ready_def init_peers_def kzalloc_array_def
        mem kgrant_def kmalloc_max_def two_small_def length_small_packet open_socket_def,
        simp add: hearing_kernel_def length_small_packet)
qed

end
