(* ===== verification/Peer_Device.thy ===== *)
theory Peer_Device
  imports Remote Discovery Format
begin

text \<open>
  \<open>module/device/peer.c\<close>: the device of a peer, read for a listing of what the peer offers and
  used to call its interfaces. The device's minor number is the index of the peer.
\<close>

section \<open>Reading the listing\<close>

definition fmt_ipv4 :: "u32 \<Rightarrow> byte list" where
  "fmt_ipv4 a = (case map (\<lambda>b. dec_nat (unat b)) (u32_bytes a) of
     [w, x, y, z] \<Rightarrow> w @ ascii ''.'' @ x @ ascii ''.'' @ y @ ascii ''.'' @ z | _ \<Rightarrow> [])"

abbreviation (input) PEER_READ_BUFFER :: nat where "PEER_READ_BUFFER \<equiv> 4096"

definition newline :: "byte list" where
  "newline = [10]"

text \<open>
  \<open>sprintf\<close> at the end of what is in the static buffer: past 4096 bytes, terminator included, it
  writes out of bounds.
\<close>

definition sprintf_at :: "byte list \<Rightarrow> byte list \<Rightarrow> byte list result" where
  "sprintf_at b x = (if length b + length x + 1 \<le> PEER_READ_BUFFER then Inr (b @ x) else Inl Out_of_bounds)"

definition list_interface :: "peer_t \<Rightarrow> 'z mem_scheme \<Rightarrow> nat \<Rightarrow> byte list \<Rightarrow> byte list result" where
  "list_interface p s i b =
     bindr (slot (interfaces p) i) (\<lambda>q.
     bindr (deref q s) (\<lambda>x.
     sprintf_at b (ascii ''Interface '' @ dec_int (sint (if_id x)) @ ascii '', '' @
       dec_int (sint (interface_t.argc x)) @ ascii '' args '' @ dec_int (sint (retc x)) @
       ascii '' rets'' @ newline)))"

definition peer_header :: "peer_t \<Rightarrow> byte list \<Rightarrow> byte list" where
  "peer_header p name = ascii ''Peer ID: '' @ dec_int (peer_id p) @ newline @
     ascii ''Peer Address: '' @ fmt_ipv4 (peer_addr p) @ newline @
     ascii ''Peer Name: '' @ name @ newline @
     ascii ''Peer Interface Count: '' @ dec_int (interface_count p) @ newline @
     ascii ''Peer Interface List:'' @ newline"

definition peer_listing :: "int \<Rightarrow> 'z kstate_scheme \<Rightarrow> byte list result" where
  "peer_listing i s =
     bindr (peer_at s i) (\<lambda>p.
     bindr (fmt_s (peer_name p)) (\<lambda>name.
     bindr (sprintf_at [] (peer_header p name)) (\<lambda>b.
     for_loop 0 (nat (interface_count p)) (list_interface p s) b)))"

text \<open>The value returned, the new offset, and the bytes copied to the reader.\<close>

definition peer_read ::
  "int \<Rightarrow> nat \<Rightarrow> int \<Rightarrow> 'z kstate_scheme \<Rightarrow> (int \<times> int \<times> byte list) result" where
  "peer_read i user_len off s =
     bindr (peer_listing i s) (\<lambda>text.
     let len = int (length text) in
     if len \<le> off then Inr (0, off, []) else
     let count = (if int user_len < len - off then int user_len else len - off)
     in Inr (count, off + len, take (nat count) text))"

section \<open>Calling an interface\<close>

abbreviation (input) EIFNOTFOUND :: int where "EIFNOTFOUND \<equiv> 50000"

definition copy_argv ::
  "kenv \<Rightarrow> attr_value list option \<Rightarrow> attr_value list option \<Rightarrow> nat \<Rightarrow> attr_value result" where
  "copy_argv e dst src i =
     bindr (arr_get dst i) (\<lambda>_.
     bindr (arr_get src i) (\<lambda>v.
     Inr \<lparr>len = len v, addr = memdup_user e (addr v) (len v)\<rparr>))"

text \<open>What one turn of the last loop stores through the caller's array: a length and bytes.\<close>

definition copy_retv ::
  "attr_value list option \<Rightarrow> attr_value list option \<Rightarrow> nat \<Rightarrow> (u32 \<times> byte list) result" where
  "copy_retv user_retv kretv i =
     bindr (arr_get user_retv i) (\<lambda>_.
     bindr (arr_get kretv i) (\<lambda>v.
     bindr (mem_read (addr v) (unat (len v))) (\<lambda>b. Inr (len v, b))))"

definition peer_ioctl ::
  "kenv \<Rightarrow> int \<Rightarrow> interface_t \<Rightarrow> 'z kstate_scheme \<Rightarrow>
   (int \<times> (u32 \<times> byte list) list \<times> 'z kstate_scheme) result" where
  "peer_ioctl e i u_interface s =
     bindr (peer_at s i) (\<lambda>p.
     bindr (find_interface (interfaces p) (interface_count p) (if_id u_interface) s) (\<lambda>t_interface.
     if t_interface = 0 then Inr (- EIFNOTFOUND, [], s) else
     bindr (deref t_interface s) (\<lambda>t.
     if interface_t.argc t \<noteq> interface_t.argc u_interface \<or> retc t \<noteq> retc u_interface then Inr (- 1, [], s) else
     if (interface_t.argc u_interface \<noteq> 0 \<and> argv u_interface = None) \<or>
        (retc u_interface \<noteq> 0 \<and> retv u_interface = None) then Inr (- 1, [], s) else
     bindr (require (kgrant (kmem e) SIZEOF_INTERFACE) Null_deref) (\<lambda>_.
     bindr (for_collect 0 (unat (interface_t.argc t))
       (copy_argv e (kzalloc_array (kmem e) SIZEOF_ATTR_VALUE (unat (interface_t.argc t)) attr_value_0)
         (argv u_interface))) (\<lambda>args.
     let (interface, s) = new_interface (t\<lparr>argv := Some args\<rparr>) s in
     bindr (execute_remote_interface e i interface s) (\<lambda>(_, s).
     bindr (deref interface s) (\<lambda>x.
     bindr (for_collect 0 (unat (retc x)) (copy_retv (retv u_interface) (retv x))) (\<lambda>vals.
     bindr (deref interface s) (\<lambda>_.
     Inr (0, vals, release interface s))))))))))"

section \<open>Creating the device class\<close>

definition init_peer_major_device :: "kenv \<Rightarrow> 'z kstate_scheme \<Rightarrow> int \<times> 'z kstate_scheme" where
  "init_peer_major_device e s =
     (case alloc_chrdev_region e (trace s) of Inl err \<Rightarrow> (err, s) | Inr m \<Rightarrow>
     let s = (emit (Chrdev_allocated m) s)\<lparr>peer_major := Some m\<rparr> in
     case class_create e (trace s) of None \<Rightarrow> (- 1, emit (Chrdev_unregistered m) s) | Some c \<Rightarrow>
     let s = (emit (Class_created c) s)\<lparr>peer_class := Some c\<rparr> in
     if cdev_add e (trace s) m < 0 then (- 1, emit (Device_destroyed c 0) s)
     else (0, emit (Cdev_added m) s))"

section \<open>The peer's table of interfaces\<close>

definition peer_view :: "nat \<Rightarrow> 'z kstate_scheme \<Rightarrow> interface_t list" where
  "peer_view i s = map (\<lambda>e. the (heap s (the e))) (peer_slots (peers_list s ! i))"

definition peer_listed :: "nat \<Rightarrow> 'z kstate_scheme \<Rightarrow> bool" where
  "peer_listed i s \<longleftrightarrow> kernel_ok s \<and> i < length (peers_list s) \<and> interfaces (peers_list s ! i) \<noteq> None"

lemma live_describes: "list_all (live s) a \<Longrightarrow> describes a s (map (\<lambda>e. the (heap s (the e))) a)"
  by (induction a) (auto simp: describes_def live_def)

lemma peer_listed_describes:
  fixes s :: "'z kstate_scheme"
  assumes "peer_listed i s"
  shows "describes (peer_slots (peers_list s ! i)) s (peer_view i s)"
    and "interfaces (peers_list s ! i) = Some (peer_slots (peers_list s ! i))"
    and "interface_count (peers_list s ! i) = int (length (peer_view i s))"
proof -
  have k: "kernel_ok s" "i < length (peers_list s)" "interfaces (peers_list s ! i) \<noteq> None"
    using assms by (auto simp: peer_listed_def)
  have sh: "table_shape s" using k(1) by (simp add: kernel_ok_def)
  have "0 \<le> int i" "int i < peer_count s" using k(2) length_peers_list [OF sh] by auto
  then obtain A B where "owned s = A @ peer_slots (peers_list s ! i) @ B"
    using owned_split [OF sh, of "int i"] by (metis nat_int)
  then have "list_all (live s) (peer_slots (peers_list s ! i))" using k(1) by (simp add: kernel_ok_def)
  then show "describes (peer_slots (peers_list s ! i)) s (peer_view i s)"
    unfolding peer_view_def by (rule live_describes)
  show "interfaces (peers_list s ! i) = Some (peer_slots (peers_list s ! i))"
    using k(3) by (auto simp: peer_slots_def)
  have "peer_ok (peers_list s ! i)" using sh k(2) by (simp add: table_shape_def list_all_length)
  then show "interface_count (peers_list s ! i) = int (length (peer_view i s))"
    using k(3) by (simp add: peer_ok_def peer_view_def)
qed

interpretation peer_table: interface_table "\<lambda>s. interfaces (peers_list s ! i)"
  "\<lambda>s. interface_count (peers_list s ! i)" "\<lambda>s. s" "peer_view i" "peer_listed i" for i
proof unfold_locales
  fix s :: "'a kstate_scheme" and idv
  assume ok: "peer_listed i s"
  note d = peer_listed_describes [OF ok]
  have f: "find_interface (interfaces (peers_list s ! i)) (interface_count (peers_list s ! i)) idv s
      = Inr (case index_of idv (peer_view i s) of None \<Rightarrow> 0 | Some j \<Rightarrow> the (peer_slots (peers_list s ! i) ! j))"
    using find_interface_describes [OF d(1), where b = "[]"] d(2,3) by simp
  show "\<exists>p. find_interface (interfaces (peers_list s ! i)) (interface_count (peers_list s ! i)) idv s = Inr p \<and>
      p \<noteq> 0 \<and> heap s p = Some (peer_view i s ! j)" if j: "index_of idv (peer_view i s) = Some j" for j
  proof -
    have "j < length (peer_view i s)" using index_of_SomeD [OF j] by simp
    then show ?thesis using f j d(1) by (fastforce simp: describes_def list_all2_conv_all_nth)
  qed
  show "find_interface (interfaces (peers_list s ! i)) (interface_count (peers_list s ! i)) idv s = Inr 0"
    if "index_of idv (peer_view i s) = None"
    using f that by simp
qed

section \<open>Properties of the device\<close>

text \<open>
  The listing is never read past the reader's first buffer: a reader whose buffer is smaller
  than the listing gets the beginning, and the next read, at the offset the first one left,
  reports the end of the file.
\<close>

theorem peer_read_truncates:
  assumes "peer_listing i s = Inr text" and "user_len < length text"
  shows "peer_read i user_len 0 s = Inr (int user_len, int (length text), take user_len text) \<and>
    peer_read i m (int (length text)) s = Inr (0, int (length text), [])"
  using assms by (auto simp: peer_read_def Let_def)

text \<open>
  A peer heard only once cannot be used: it counts interfaces but has no list of them, so
  both reading its device and calling any of its interfaces dereference a null pointer.
\<close>

theorem peer_heard_once_faults:
  assumes "peer_at s i = Inr p" and "interfaces p = None" and "0 < interface_count p"
    and "peer_name p = PNull" and "length (peer_header p (ascii ''(null)'')) < PEER_READ_BUFFER"
  shows "peer_read i user_len off s = Inl Null_deref \<and> peer_ioctl e i u s = Inl Null_deref"
proof
  obtain n where n: "nat (interface_count p) = Suc n"
    using assms(3) by (metis gr0_implies_Suc zero_less_nat_eq)
  show "peer_read i user_len off s = Inl Null_deref"
    using assms by (simp add: peer_read_def peer_listing_def fmt_s_def sprintf_at_def n
        list_interface_def)
  show "peer_ioctl e i u s = Inl Null_deref"
    using assms(1,2) by (simp add: peer_ioctl_def find_interface_def n)
qed

definition request_fits :: "interface_t \<Rightarrow> interface_t \<Rightarrow> bool" where
  "request_fits u t \<longleftrightarrow> interface_t.argc t = interface_t.argc u \<and> retc t = retc u \<and>
     (interface_t.argc u = 0 \<or> argv u \<noteq> None) \<and> (retc u = 0 \<or> retv u \<noteq> None)"

lemma peer_at_listed:
  fixes s :: "'z kstate_scheme"
  assumes "peer_listed i s"
  shows "peer_at s (int i) = Inr (peers_list s ! i)"
proof -
  have "table_shape s" "i < length (peers_list s)" using assms by (auto simp: peer_listed_def kernel_ok_def)
  with length_peers_list have "0 \<le> int i" "int i < peer_count s" by fastforce+
  from peer_at_list(1) [OF \<open>table_shape s\<close> this] show ?thesis by simp
qed

text \<open>
  A request that does not fit the interface is refused before anything is sent: an unknown
  identifier, a wrong number of arguments or results, or a missing array changes nothing and
  reaches no socket.
\<close>

theorem peer_ioctl_refuses:
  assumes "peer_listed i s"
    and "\<And>j. index_of (if_id u) (peer_view i s) = Some j \<Longrightarrow> \<not> request_fits u (peer_view i s ! j)"
  shows "\<exists>err < 0. peer_ioctl e (int i) u s = Inr (err, [], s)"
proof (cases "index_of (if_id u) (peer_view i s)")
  case None
  then show ?thesis
    using peer_table.find_miss [OF assms(1) None] by (simp add: peer_ioctl_def peer_at_listed [OF assms(1)])
next
  case (Some j)
  obtain q where "find_interface (interfaces (peers_list s ! i)) (interface_count (peers_list s ! i)) (if_id u) s
      = Inr q" "q \<noteq> 0" "deref q s = Inr (peer_view i s ! j)"
    using peer_table.lookup [OF assms(1) Some] .
  then show ?thesis
    using assms(2) [OF Some]
    by (auto simp: peer_ioctl_def peer_at_listed [OF assms(1)] request_fits_def)
qed

definition user_copy :: "kenv \<Rightarrow> attr_value \<Rightarrow> attr_value" where
  "user_copy e v = \<lparr>len = len v, addr = memdup_user e (addr v) (len v)\<rparr>"

lemma copy_argv_all:
  assumes "length args = n" and "kgrant (kmem e) (16 * n)"
  shows "for_collect 0 n (copy_argv e (kzalloc_array (kmem e) SIZEOF_ATTR_VALUE n attr_value_0) (Some args))
    = Inr (map (user_copy e) args)"
proof -
  have "for_collect 0 n (copy_argv e (kzalloc_array (kmem e) SIZEOF_ATTR_VALUE n attr_value_0) (Some args))
      = Inr (map (\<lambda>i. user_copy e (args ! i)) [0..<0 + n])"
    by (rule for_collect_map)
      (use assms in \<open>simp add: copy_argv_def kzalloc_array_def user_copy_def\<close>)
  also have "map (\<lambda>i. user_copy e (args ! i)) [0..<0 + n] = map (user_copy e) args"
    using assms by (intro nth_equalityI) simp_all
  finally show ?thesis .
qed

lemma copy_retv_all:
  assumes "list_all attr_readable vs" and "length vs \<le> length ur"
  shows "for_collect 0 (length vs) (copy_retv (Some ur) (Some vs)) = Inr (map (\<lambda>v. (len v, attr_bytes v)) vs)"
proof -
  have "for_collect 0 (length vs) (copy_retv (Some ur) (Some vs))
      = Inr (map (\<lambda>i. (len (vs ! i), attr_bytes (vs ! i))) [0..<0 + length vs])"
    by (rule for_collect_map)
      (use assms in \<open>auto simp: copy_retv_def list_all_length attr_readable_iff\<close>)
  also have "map (\<lambda>i. (len (vs ! i), attr_bytes (vs ! i))) [0..<0 + length vs]
      = map (\<lambda>v. (len v, attr_bytes v)) vs"
    by (intro nth_equalityI) simp_all
  finally show ?thesis .
qed

lemma reachable_new:
  "reachable_peer e i a k s \<Longrightarrow> reachable_peer e i a k (snd (new_interface x s))"
  by (auto simp: reachable_peer_def new_interface_def peer_at_def)

lemma device_call_ok:
  assumes ok: "peer_listed i s" and j: "index_of (if_id u) (peer_view i s) = Some j"
    and fits: "request_fits u (peer_view i s ! j)"
    and u: "argv u = Some args" "length args = unat (interface_t.argc u)" "retv u = Some ur"
    and mem: "kgrant (kmem e) SIZEOF_INTERFACE" "kgrant (kmem e) (16 * length args)"
    and peer: "reachable_peer e (int i) a k s" "sends_ok e k"
    and p: "serialize_rpc_packet (kmem e) (if_id u) (interface_t.argc u) (Some (map (user_copy e) args))
        = Inr (packet, word_of_nat (length packet))" "length packet < 2 ^ 31"
    and reply: "stream_of e k reply" "0 < length reply" "length reply < 2 ^ 31"
      "kgrant (kmem e) (length reply)"
      "unserialize_rpc_packet (kmem e) reply (word_of_nat (length reply)) = Inr (vs, c)"
      "length vs \<le> length ur"
  shows "\<exists>t. peer_ioctl e (int i) u s = Inr (0, map (\<lambda>v. (len v, attr_bytes v)) vs, t) \<and>
    trace t = [Sock_released k, Sock_received k (length reply), Sock_received k 4] @
      request_events k a packet @ trace s"
proof -
  let ?t = "peer_view i s ! j"
  obtain q where q: "find_interface (interfaces (peers_list s ! i)) (interface_count (peers_list s ! i)) (if_id u) s
      = Inr q" "q \<noteq> 0" "deref q s = Inr ?t" "if_id ?t = if_id u"
    using peer_table.lookup [OF ok j] .
  have n: "interface_t.argc ?t = interface_t.argc u" "retc ?t = retc u"
    using fits by (simp_all add: request_fits_def)
  define x where "x = ?t\<lparr>argv := Some (map (user_copy e) args)\<rparr>"
  define r where "r = next_ptr s"
  define s1 where "s1 = snd (new_interface x s)"
  have new: "new_interface x s = (r, s1)" "deref r s1 = Inr x" "trace s1 = trace s" "r \<noteq> 0"
    using ok by (auto simp: r_def s1_def new_interface_def deref_def peer_listed_def kernel_ok_def
        registry_ok_def mem_wf_def)
  have px: "serialize_rpc_packet (kmem e) (if_id x) (interface_t.argc x) (argv x)
      = Inr (packet, word_of_nat (length packet))"
    using p(1) by (simp add: x_def q(4) n)
  have "reachable_peer e (int i) a k s1" unfolding s1_def by (rule reachable_new [OF peer(1)])
  from remote_call_ok [OF this peer(2) new(2) px p(2) reply(1-5)]
  obtain err t where t: "execute_remote_interface e (int i) r s1 = Inr (err, t)"
      "heap t = (heap s1)(r \<mapsto> x\<lparr>retv := Some vs, retc := c\<rparr>)"
      "trace t = [Sock_released k, Sock_received k (length reply), Sock_received k 4] @
        request_events k a packet @ trace s1" by blast
  have dt: "deref r t = Inr (x\<lparr>retv := Some vs, retc := c\<rparr>)" using t(2) new(4) by (simp add: deref_def)
  have vs: "list_all attr_readable vs" "unat c = length vs"
    using unserialize_rpc_inv [OF reply(5)] attr_owned_readable by (fastforce simp: list_all_iff)+
  have "peer_ioctl e (int i) u s = Inr (0, map (\<lambda>v. (len v, attr_bytes v)) vs, release r t)"
    using copy_argv_all [of args _ e] copy_retv_all [OF vs(1) reply(6)] mem u
    by (simp add: peer_ioctl_def peer_at_listed [OF ok] q n x_def [symmetric] new(1) t(1) dt vs(2)
        request_fits_def)
  then show ?thesis using t(3) new(3) by simp
qed

text \<open>
  C27: a call through the device delivers: the arguments are copied from the caller and sent to
  the peer as one packet behind its length, and the values of the reply reach the caller, one
  by one; the call answers 0.
\<close>

theorem peer_ioctl_delivers:
  assumes ok: "peer_listed i s" and j: "index_of (if_id u) (peer_view i s) = Some j"
    and fits: "request_fits u (peer_view i s ! j)"
    and u: "argv u = Some args" "length args = unat (interface_t.argc u)" "retv u = Some ur"
    and mem: "kgrant (kmem e) SIZEOF_INTERFACE" "kgrant (kmem e) (16 * length args)"
    and peer: "reachable_peer e (int i) a k s" "sends_ok e k"
    and p: "serialize_rpc_packet (kmem e) (if_id u) (interface_t.argc u) (Some (map (user_copy e) args))
        = Inr (packet, word_of_nat (length packet))" "length packet < 2 ^ 31"
    and reply: "stream_of e k reply" "0 < length reply" "length reply < 2 ^ 31"
      "kgrant (kmem e) (length reply)"
      "unserialize_rpc_packet (kmem e) reply (word_of_nat (length reply)) = Inr (vs, c)"
      "length vs \<le> length ur"
  shows "\<exists>t. peer_ioctl e (int i) u s = Inr (0, map (\<lambda>v. (len v, attr_bytes v)) vs, t) \<and>
    trace t = [Sock_released k, Sock_received k (length reply), Sock_received k 4] @
      request_events k a packet @ trace s"
  by (rule device_call_ok [OF assms])

text \<open>
  A call to a peer that refuses the connection is not reported: the code of the remote call
  is dropped, and if the interface returns values the device reads them through the null
  pointer the list of interfaces came with.
\<close>

theorem peer_ioctl_unreachable_faults:
  assumes ok: "peer_listed i s" and j: "index_of (if_id u) (peer_view i s) = Some j"
    and fits: "request_fits u (peer_view i s ! j)"
    and u: "argv u = Some args" "length args = unat (interface_t.argc u)" "retv u = Some (w # ur)"
      "retc u \<noteq> 0" "retv (peer_view i s ! j) = None"
    and mem: "kgrant (kmem e) SIZEOF_INTERFACE" "kgrant (kmem e) (16 * length args)"
    and refused: "\<forall>tr. sock_create e tr = Inl err" "err < 0"
  shows "peer_ioctl e (int i) u s = Inl Null_deref"
proof -
  let ?t = "peer_view i s ! j"
  obtain q where q: "find_interface (interfaces (peers_list s ! i)) (interface_count (peers_list s ! i)) (if_id u) s
      = Inr q" "q \<noteq> 0" "deref q s = Inr ?t" "if_id ?t = if_id u"
    using peer_table.lookup [OF ok j] .
  have n: "interface_t.argc ?t = interface_t.argc u" "retc ?t = retc u"
    using fits by (simp_all add: request_fits_def)
  define x where "x = ?t\<lparr>argv := Some (map (user_copy e) args)\<rparr>"
  define r where "r = next_ptr s"
  define s1 where "s1 = snd (new_interface x s)"
  have new: "new_interface x s = (r, s1)" "deref r s1 = Inr x"
    using ok by (auto simp: r_def s1_def new_interface_def deref_def peer_listed_def kernel_ok_def
        registry_ok_def mem_wf_def)
  have sh: "table_shape s" "i < length (peers_list s)" using ok by (auto simp: peer_listed_def kernel_ok_def)
  have "peer_count s1 = peer_count s" by (simp add: s1_def new_interface_def)
  moreover have "int i < peer_count s" using length_peers_list [OF sh(1)] sh(2) by simp
  ultimately have "execute_remote_interface e (int i) r s1 = Inr (err, s1)"
    using refused by (simp add: execute_remote_interface_def init_socket_def)
  moreover obtain m where "unat (retc x) = Suc m"
    using u(4) n(2) by (cases "unat (retc x)") (auto simp: x_def)
  ultimately show ?thesis
    using copy_argv_all [of args _ e] mem u
    by (simp add: peer_ioctl_def peer_at_listed [OF ok] q n x_def [symmetric] new request_fits_def
        copy_retv_def) (simp add: x_def)
qed

section \<open>Examples\<close>

definition offered :: interface_t where
  "offered = interface_0\<lparr>if_id := 5, argc := 1, arg_flags := PBlk [0], retc := 1, ret_flags := PBlk [0]\<rparr>"

definition listed_peer :: peer_t where
  "listed_peer = peer_0\<lparr>peer_addr := 9, interfaces := Some [Some 1], interface_count := 1\<rparr>"

definition peer_kernel :: kstate where
  "peer_kernel = fresh_kernel\<lparr>heap := [1 \<mapsto> offered], next_ptr := 2,
     peers := Some (listed_peer # replicate 255 peer_0), peer_count := 1\<rparr>"

definition caller :: interface_t where
  "caller = offered\<lparr>argv := Some [\<lparr>len = 2, addr = PBlk [7, 8]\<rparr>], retv := Some [attr_value_0]\<rparr>"

definition reply_5 :: "byte list" where
  "reply_5 = [5,0,0,0, 1,0,0,0, 2,0,0,0, 65,0]"

definition packet_5 :: "byte list" where
  "packet_5 = [5,0,0,0, 1,0,0,0, 2,0,0,0, 7,8]"

definition calling_kernel :: kenv where
  "calling_kernel = kind_kernel\<lparr>sock_recvmsg := (\<lambda>tr k n. if n = 4 then (4, None, u32_bytes 14)
     else (14, None, reply_5))\<rparr>"

lemma peer_kernel_list: "peers_list peer_kernel = [listed_peer]"
  by (simp add: peers_list_def peer_kernel_def)

lemma peer_kernel_listed: "peer_listed 0 peer_kernel"
  by (simp add: peer_listed_def kernel_ok_def registry_ok_def table_shape_def owned_def peer_kernel_list)
    (simp add: peer_kernel_def fresh_kernel_def mem_wf_def slots_of_def live_slots_def
      interfaces_of_def listed_peer_def peer_0_def peer_slots_def live_def peer_ok_def)

lemma peer_kernel_view: "peer_view 0 peer_kernel = [offered]"
  by (simp add: peer_view_def peer_kernel_list) (simp add: listed_peer_def peer_slots_def peer_kernel_def)

lemma calling_kernel_mem: "kgrant (kmem calling_kernel) n \<longleftrightarrow> n \<le> 4194304"
  by (auto simp: calling_kernel_def kind_kernel_def kgrant_def kmalloc_max_def)

lemma packet_5_sent: "serialize_rpc_packet kmalloc_max 5 1 (Some [\<lparr>len = 2, addr = PBlk [7, 8]\<rparr>])
  = Inr (packet_5, word_of_nat (length packet_5))"
proof -
  have "rpc_fits kmalloc_max [\<lparr>len = 2, addr = PBlk [7, 8]\<rparr>]"
    by (auto simp: rpc_fits_def attr_sendable_def attr_readable_def enc_attr_def
        attr_codec.enc_list_def attr_bytes_def intro!: exI [of _ 64] roomy_kmalloc_max)
  from serialize_rpc_ok [OF this, of 1 5] show ?thesis
    by simp (simp add: packet_5_def rpc_bytes_def enc_attr_def attr_codec.enc_list_def attr_bytes_def
        u32_bytes_def drop_bit_eq_div)
qed

lemma reachable_peer_kernel: "reachable_peer calling_kernel 0 9 0 peer_kernel"
  by (simp add: reachable_peer_def calling_kernel_mem peer_at_def)
    (simp add: peer_kernel_def calling_kernel_def kind_kernel_def listed_peer_def fresh_kernel_def)






theorem peer_ioctl_delivers_witness:
  "\<exists>t. peer_ioctl calling_kernel (int 0) caller peer_kernel
      = Inr (0, map (\<lambda>v. (len v, attr_bytes v)) [\<lparr>len = 2, addr = PBlk [65, 0]\<rparr>], t) \<and>
    trace t = [Sock_released 0, Sock_received 0 (length reply_5), Sock_received 0 4] @
      request_events 0 9 packet_5 @ trace peer_kernel"
proof (rule peer_ioctl_delivers [OF peer_kernel_listed])
  show "index_of (if_id caller) (peer_view 0 peer_kernel) = Some 0"
    by (simp add: peer_kernel_view caller_def)
  show "request_fits caller (peer_view 0 peer_kernel ! 0)"
    by (simp add: peer_kernel_view caller_def request_fits_def)
  show "argv caller = Some [\<lparr>len = 2, addr = PBlk [7, 8]\<rparr>]" "retv caller = Some [attr_value_0]"
    by (simp_all add: caller_def)
  show "reachable_peer calling_kernel (int 0) 9 0 peer_kernel"
    using reachable_peer_kernel by simp
  show "serialize_rpc_packet (kmem calling_kernel) (if_id caller) (interface_t.argc caller)
      (Some (map (user_copy calling_kernel) [\<lparr>len = 2, addr = PBlk [7, 8]\<rparr>]))
      = Inr (packet_5, word_of_nat (length packet_5))"
    using packet_5_sent
    by (simp add: caller_def offered_def user_copy_def calling_kernel_def kind_kernel_def)
  show "stream_of calling_kernel 0 reply_5"
    by (simp add: stream_of_def calling_kernel_def reply_5_def)
  show "unserialize_rpc_packet (kmem calling_kernel) reply_5 (word_of_nat (length reply_5))
      = Inr ([\<lparr>len = 2, addr = PBlk [65, 0]\<rparr>], 1)"
    by (simp add: unserialize_rpc_packet_def rd_attr_def rd_mem_def calling_kernel_mem reply_5_def
        bytes_u32_def)
qed (simp_all add: calling_kernel_mem sends_ok_def caller_def offered_def packet_5_def reply_5_def,
    simp add: calling_kernel_def kind_kernel_def)

theorem peer_ioctl_unreachable_faults_witness:
  "peer_ioctl (kind_kernel\<lparr>sock_create := (\<lambda>tr. Inl (- 24))\<rparr>) (int 0) caller peer_kernel = Inl Null_deref"
  by (rule peer_ioctl_unreachable_faults [OF peer_kernel_listed, where j = 0 and err = "- 24" and
        args = "[\<lparr>len = 2, addr = PBlk [7, 8]\<rparr>]" and w = attr_value_0 and ur = "[]"])
    (simp_all add: peer_kernel_view caller_def offered_def request_fits_def interface_0_def
      kind_kernel_def kgrant_def kmalloc_max_def)

theorem peer_ioctl_refuses_witness:
  "\<exists>err < 0. peer_ioctl kind_kernel (int 0) (caller\<lparr>retc := 2\<rparr>) peer_kernel = Inr (err, [], peer_kernel)"
  by (rule peer_ioctl_refuses [OF peer_kernel_listed])
    (simp add: peer_kernel_view caller_def offered_def request_fits_def interface_0_def)

lemma length_peer_header:
  "length (peer_header (peer_0\<lparr>interface_count := 3\<rparr>) (ascii ''(null)'')) < PEER_READ_BUFFER"
  by (simp add: peer_header_def peer_0_def newline_def ascii_def fmt_ipv4_def u32_bytes_def
      dec_int_def dec_nat.simps)

theorem peer_heard_once_faults_witness:
  "peer_read 0 100 0 (peer_kernel\<lparr>peers := Some [peer_0\<lparr>interface_count := 3\<rparr>]\<rparr>) = Inl Null_deref \<and>
   peer_ioctl kind_kernel 0 caller (peer_kernel\<lparr>peers := Some [peer_0\<lparr>interface_count := 3\<rparr>]\<rparr>)
     = Inl Null_deref"
  by (rule peer_heard_once_faults [OF _ _ _ _ length_peer_header])
    (simp_all add: peer_at_def peer_0_def)

theorem peer_read_truncates_witness:
  "\<exists>ls. peer_read 0 5 0 peer_kernel = Inr (int 5, int (length ls), take 5 ls) \<and>
    peer_read 0 100 (int (length ls)) peer_kernel = Inr (0, int (length ls), [])"
proof -
  have "\<exists>ls. peer_listing 0 peer_kernel = Inr ls \<and> 5 < length ls"
    by (simp add: peer_listing_def peer_kernel_def peer_at_def listed_peer_def peer_0_def fmt_s_def
        sprintf_at_def peer_header_def newline_def ascii_def fmt_ipv4_def u32_bytes_def dec_int_def
        dec_nat.simps list_interface_def slot_def deref_def offered_def)
  then obtain ls where "peer_listing 0 peer_kernel = Inr ls" "5 < length ls" by blast
  from peer_read_truncates [OF this] show ?thesis by blast
qed

end
