(* ===== verification/Learning.thy ===== *)
theory Learning
  imports Broadcast Peer_Device
begin

text \<open>
  Discovery across two nodes: what the broadcast loop of one node (\<open>network/broadcast.c\<close>) sends
  arrives at the receive loop of another (\<open>network/discovery.c\<close>), and the peer device there
  (\<open>device/peer.c\<close>) offers the interfaces registered on the first.
\<close>

section \<open>Hearing twice\<close>

lemma heard_twice:
  fixes s :: "'z kstate_scheme"
  assumes ok: "kernel_ok s" and new: "addr_index a (peers_list s) = None"
    and room: "peers (peers_ready e s) \<noteq> None" "length (peers_list s) < 256"
    and h: "hears e (sock_no k) a xs" "\<not> sk_null k" "length b = 65536"
  shows "\<exists>b2 t q slots. discovery_run e (Some k) 2 (b, f, s) = Inr (b2, a, t) \<and> kernel_ok t \<and>
    peers_list t = peers_list s @ [q] \<and> peer_addr q = a \<and> interfaces q = Some slots \<and>
    describes slots t (map advert xs)"
proof -
  let ?b = "advert_bytes xs @ drop (length (advert_bytes xs)) b"
  obtain s1 p d where 1: "discovery_step e (Some k) (b, f, s) = Inr (?b, a, s1)" "kernel_ok s1"
      "peers_list s1 = peers_list s @ [new_peer (int (length (peers_list s))) a (word_of_nat (length xs)) d p]"
    using first_broadcast [OF ok new room h] by blast
  have known: "addr_index a (peers_list s1) = Some (length (peers_list s))"
    using new by (simp add: 1(3) addr_index_append new_peer_def)
  have "length ?b = 65536" using h(1,3) by (simp add: hears_def)
  from later_broadcast [OF 1(2) known h(1,2) this, of a] obtain b2 t c where
    2: "discovery_step e (Some k) (?b, a, s1) = Inr (b2, a, t)" "kernel_ok t"
      "peers_list t = (peers_list s1)[length (peers_list s) := (peers_list s1 ! length (peers_list s))
        \<lparr>interfaces := Some c, interface_count := int (length xs)\<rparr>]" "describes c t (map advert xs)"
    by blast
  define q where "q = (new_peer (int (length (peers_list s))) a (word_of_nat (length xs)) d p)
    \<lparr>interfaces := Some c, interface_count := int (length xs)\<rparr>"
  have "peers_list t = peers_list s @ [q]" "peer_addr q = a" "interfaces q = Some c"
    using 1(3) 2(3) by (simp_all add: q_def new_peer_def)
  then show ?thesis using 1(1) 2 by (auto simp: numeral_2_eq_2)
qed

lemma index_of_advert [simp]: "index_of i (map advert xs) = index_of i xs"
  by (induction xs) simp_all

section \<open>Properties\<close>

lemma interfaces_learned:
  assumes sender: "network_up e1" "advertises e1 s1" "length addrs \<le> 256"
      "\<forall>tr. (\<forall>d \<in> set (devs tr). is_loopback d \<or> ip_ptr d \<noteq> None) \<and> broadcast_targets (devs tr) = addrs"
      "length (interfaces_of s1) \<le> 256" "length (advert_bytes (interfaces_of s1)) \<le> 65536"
    and sent: "broadcast_loop e1 devs 2 s1 = Inr t1" "trace t1 = tr @ trace s1"
    and received: "\<forall>h. \<exists>x. (d, x) \<in> set (adverts_sent tr) \<and>
        sock_recvmsg e2 h (sock_no k) 65536 = (int (length x), Some a, x)" "\<not> sk_null k"
    and receiver: "kernel_ok s2" "addr_index a (peers_list s2) = None" "peers (peers_ready e2 s2) \<noteq> None"
      "length (peers_list s2) < 256" "adverts_granted (kmem e2) (interfaces_of s1)" "length b = 65536"
  shows "\<exists>b2 t2 q. discovery_run e2 (Some k) 2 (b, f, s2) = Inr (b2, a, t2) \<and>
    peers_list t2 = peers_list s2 @ [q] \<and> peer_addr q = a \<and> peer_listed (length (peers_list s2)) t2 \<and>
    peer_view (length (peers_list s2)) t2 = map advert (interfaces_of s1) \<and>
    interfaces_of t2 = interfaces_of s2 \<and> interfaces_of t1 = interfaces_of s1"
proof -
  let ?xs = "interfaces_of s1"
  obtain tr' where r: "trace t1 = tr' @ trace s1" "interfaces_of t1 = ?xs"
      "adverts_sent tr' = concat (replicate 2 (map (\<lambda>a. (a, advert_bytes ?xs)) addrs))"
    using broadcast_runs [OF sender(1,2,4,3), of 2] sent(1) by auto
  then have x: "(d, x) \<in> set (adverts_sent tr) \<Longrightarrow> x = advert_bytes ?xs" for x
    using sent(2) by auto
  have readable: "list_all interface_readable ?xs"
    using sender(2) by (auto simp: advertises_def adverts_fit_def list_all_iff interface_sendable_def)
  have h: "hears e2 (sock_no k) a ?xs"
    using readable received(1) sender(5,6) receiver(5) x by (simp add: hears_def) metis
  obtain b2 t2 q slots where t: "discovery_run e2 (Some k) 2 (b, f, s2) = Inr (b2, a, t2)" "kernel_ok t2"
      "peers_list t2 = peers_list s2 @ [q]" "peer_addr q = a" "interfaces q = Some slots"
      "describes slots t2 (map advert ?xs)"
    using heard_twice [OF receiver(1-4) h received(2) receiver(6)] by blast
  have "peer_listed (length (peers_list s2)) t2" using t by (simp add: peer_listed_def)
  moreover have "peer_view (length (peers_list s2)) t2 = map advert ?xs"
    using describes_unique [OF t(6)] t(3,5) by (simp add: peer_view_def peer_slots_def)
  moreover have "interfaces_of t2 = interfaces_of s2"
    using discovery_run_ok [OF _ t(1)] receiver(1,6) by (simp add: discovery_ok_def)
  ultimately show ?thesis using t(1,3,4) r(2) by blast
qed

text \<open>
  C13: a node learns the interfaces of another. After two turns of the sender's broadcast loop
  and two packets received of those it sent to the receiver's network, the receiver has one
  peer more, under the sender's address, and the device of this peer offers exactly the
  interfaces registered on the sender: the same identifiers in the same order, with their
  counts and flags. Neither node's own registry changes.
\<close>

theorem nodes_learn_interfaces:
  assumes sender: "network_up e1" "advertises e1 s1" "length addrs \<le> 256"
      "\<forall>tr. (\<forall>d \<in> set (devs tr). is_loopback d \<or> ip_ptr d \<noteq> None) \<and> broadcast_targets (devs tr) = addrs"
      "length (interfaces_of s1) \<le> 256" "length (advert_bytes (interfaces_of s1)) \<le> 65536"
    and sent: "broadcast_loop e1 devs 2 s1 = Inr t1" "trace t1 = tr @ trace s1"
    and received: "\<forall>h. \<exists>x. (d, x) \<in> set (adverts_sent tr) \<and>
        sock_recvmsg e2 h (sock_no k) 65536 = (int (length x), Some a, x)" "\<not> sk_null k"
    and receiver: "kernel_ok s2" "addr_index a (peers_list s2) = None" "peers (peers_ready e2 s2) \<noteq> None"
      "length (peers_list s2) < 256" "adverts_granted (kmem e2) (interfaces_of s1)" "length b = 65536"
  shows "\<exists>b2 t2 q. discovery_run e2 (Some k) 2 (b, f, s2) = Inr (b2, a, t2) \<and>
    peers_list t2 = peers_list s2 @ [q] \<and> peer_addr q = a \<and> peer_listed (length (peers_list s2)) t2 \<and>
    peer_view (length (peers_list s2)) t2 = map advert (interfaces_of s1) \<and>
    interfaces_of t2 = interfaces_of s2 \<and> interfaces_of t1 = interfaces_of s1"
  by (rule interfaces_learned [OF assms])

section \<open>Examples\<close>

definition learning_kernel :: kenv where
  "learning_kernel = kind_kernel\<lparr>sock_recvmsg := (\<lambda>tr k n.
     (int (length (advert_bytes (interfaces_of three_registry))), Some 9, advert_bytes (interfaces_of three_registry)))\<rparr>"

lemma three_advert_length: "length (advert_bytes (interfaces_of three_registry)) = 43"
  by (simp add: three_interfaces advert_bytes_def interface_codec.enc_list_def enc_interface_def
      stored_interface_def blank_interface_def flag_bytes_def)

theorem nodes_learn_interfaces_witness:
  "\<exists>t1 b2 t2 q. broadcast_loop kind_kernel (\<lambda>_. two_networks) 2 three_registry = Inr t1 \<and>
    discovery_run learning_kernel (Some (open_socket 4)) 2 (replicate 65536 0, 0, fresh_kernel) = Inr (b2, 9, t2) \<and>
    peers_list t2 = peers_list fresh_kernel @ [q] \<and> peer_addr q = 9 \<and>
    peer_listed (length (peers_list fresh_kernel)) t2 \<and>
    peer_view (length (peers_list fresh_kernel)) t2 = map advert (interfaces_of three_registry) \<and>
    interfaces_of t2 = interfaces_of fresh_kernel \<and> interfaces_of t1 = interfaces_of three_registry"
proof -
  have devs: "\<forall>tr :: event list. (\<forall>d \<in> set two_networks. is_loopback d \<or> ip_ptr d \<noteq> None) \<and>
      broadcast_targets two_networks = [0xFF01A8C0, 0xFFFFFF0A]"
    by (simp add: two_networks_targets) (simp add: two_networks_def is_loopback_def)
  obtain t1 tr where t1: "broadcast_loop kind_kernel (\<lambda>_. two_networks) 2 three_registry = Inr t1"
      "trace t1 = tr @ trace three_registry"
      "adverts_sent tr = concat (replicate 2 (map (\<lambda>a. (a, advert_bytes (interfaces_of three_registry)))
        [0xFF01A8C0, 0xFFFFFF0A]))"
    using broadcast_runs [OF kind_kernel_up three_advertised devs, of 2] by auto
  have mem: "kmem learning_kernel = kmalloc_max" by (simp add: learning_kernel_def kind_kernel_def)
  have granted: "adverts_granted (kmem learning_kernel) (interfaces_of three_registry)"
    by (simp add: mem adverts_granted_def three_interfaces kgrant_def kmalloc_max_def stored_interface_def
        blank_interface_def)
  have recv: "\<forall>h. \<exists>x. (0xFF01A8C0, x) \<in> set (adverts_sent tr) \<and>
      sock_recvmsg learning_kernel h (sock_no (open_socket 4)) 65536 = (int (length x), Some 9, x)"
    by (simp add: t1(3) learning_kernel_def numeral_2_eq_2)
  have room: "peers (peers_ready learning_kernel fresh_kernel) \<noteq> None"
    by (simp add: peers_ready_def init_peers_def kzalloc_array_def mem kgrant_def kmalloc_max_def fresh_kernel_def)
  have fresh: "peers_list fresh_kernel = []" by (simp add: peers_list_def fresh_kernel_def)
  show ?thesis
    using t1(1) nodes_learn_interfaces [OF kind_kernel_up three_advertised _ devs _ _ t1(1,2) recv _ fresh_kernel_ok
        _ room _ granted, of "replicate 65536 0" 0]
    by (simp add: three_interfaces three_advert_length [unfolded three_interfaces] fresh open_socket_def)
qed

end
