(* ===== verification/Lib_Netlink.thy ===== *)
theory Lib_Netlink
  imports Netlink
begin

text \<open>
  The user library's packets and messages, \<open>lib/src/packet.c\<close> and \<open>lib/src/netlink.c\<close>. The
  packet functions are those of the kernel on \<open>malloc\<close>ed memory, which is not cleared; a
  message is what the kernel's handler receives.
\<close>

section \<open>Call packets\<close>

text \<open>The library has a growing buffer of its own, on \<open>realloc\<close>.\<close>

definition lib_copy_to_buffer :: "(nat \<Rightarrow> bool) \<Rightarrow> dbuf \<Rightarrow> cptr \<Rightarrow> u32 \<Rightarrow> dbuf result" where
  "lib_copy_to_buffer ok b src src_length =
     (let b = (if bmax b < blen b + src_length
               then b\<lparr>bmax := bmax b + BUFFER_INC_SIZE,
                      bcap := kalloc ok (unat (bmax b + BUFFER_INC_SIZE))\<rparr>
               else b)
      in bindr (mem_read src (unat src_length)) (\<lambda>x.
         bindr (mem_write (bcap b) (unat (blen b)) (unat src_length)) (\<lambda>_.
         Inr (b\<lparr>bdata := bdata b @ x, blen := blen b + src_length\<rparr>))))"

definition lib_serialize_rpc_packet ::
  "(nat \<Rightarrow> bool) \<Rightarrow> u32 \<Rightarrow> u32 \<Rightarrow> attr_value list option \<Rightarrow> (byte list \<times> u32) result" where
  "lib_serialize_rpc_packet ok idv count values =
     bindr (lib_copy_to_buffer ok (new_buffer ok) (PBlk (u32_bytes idv)) 4) (\<lambda>b.
     bindr (lib_copy_to_buffer ok b (PBlk (u32_bytes count)) 4) (\<lambda>b.
     bindr (for_loop 0 (unat count) (\<lambda>i b.
         bindr (arr_get values i) (\<lambda>attrv.
         bindr (lib_copy_to_buffer ok b (PBlk (u32_bytes (len attrv))) 4) (\<lambda>b.
         if len attrv \<noteq> 0 then lib_copy_to_buffer ok b (addr attrv) (len attrv) else Inr b))) b) (\<lambda>b.
     Inr (bdata b, blen b))))"

text \<open>The address of an empty value is never written, so it stays indeterminate.\<close>

definition lib_rd_attr :: "(nat \<Rightarrow> bool) \<Rightarrow> byte list \<Rightarrow> (attr_value \<times> byte list) result" where
  "lib_rd_attr ok packet =
     bindr (rd_u32 packet) (\<lambda>(n, packet).
     if n \<noteq> 0 then
       bindr (require (kgrant ok (unat n)) Null_deref) (\<lambda>_.
       bindr (rd_mem (unat n) packet) (\<lambda>(x, packet).
       Inr (\<lparr>len = n, addr = PBlk x\<rparr>, packet)))
     else Inr (\<lparr>len = n, addr = PUninit\<rparr>, packet))"

definition lib_unserialize_rpc_packet ::
  "(nat \<Rightarrow> bool) \<Rightarrow> byte list \<Rightarrow> u32 \<Rightarrow> (u32 \<times> attr_value list \<times> u32) result" where
  "lib_unserialize_rpc_packet ok packet packet_length =
     bindr (rd_u32 packet) (\<lambda>(idv, packet).
     bindr (rd_u32 packet) (\<lambda>(attrc, packet).
     bindr (require (attrc = 0 \<or> kgrant ok (unat attrc * SIZEOF_ATTR_VALUE)) Null_deref) (\<lambda>_.
     bindr (rd_list (unat attrc) (lib_rd_attr ok) packet) (\<lambda>(attrv, _).
     Inr (idv, attrv, attrc)))))"

definition lib_interface_id :: "byte list \<Rightarrow> u32 result" where
  "lib_interface_id packet = bindr (rd_u32 packet) (\<lambda>(x, _). Inr x)"

lemma lib_copy_same: "lib_copy_to_buffer = copy_to_buffer"
  by (intro ext) (simp add: lib_copy_to_buffer_def copy_to_buffer_def)

lemma lib_serialize_same: "lib_serialize_rpc_packet = serialize_rpc_packet"
  unfolding lib_serialize_rpc_packet_def [abs_def] serialize_rpc_packet_def [abs_def] lib_copy_same by (rule refl)

lemma lib_interface_id_same: "lib_interface_id = interface_id"
  by (intro ext) (simp add: lib_interface_id_def interface_id_def)

text \<open>What the library reads of a value: as the kernel, but for the address of an empty one.\<close>

definition lib_copy :: "attr_value \<Rightarrow> attr_value" where
  "lib_copy v = \<lparr>len = len v, addr = (if len v = 0 then PUninit else PBlk (attr_bytes v))\<rparr>"

definition lib_owned :: "(nat \<Rightarrow> bool) \<Rightarrow> attr_value \<Rightarrow> bool" where
  "lib_owned ok v \<longleftrightarrow> (if len v = 0 then addr v = PUninit
     else kgrant ok (unat (len v)) \<and> (\<exists>x. addr v = PBlk x \<and> length x = unat (len v)))"

lemma attr_bytes_lib_copy [simp]: "attr_readable v \<Longrightarrow> attr_bytes (lib_copy v) = attr_bytes v"
  by (auto simp: lib_copy_def attr_bytes_def [of "\<lparr>len = _, addr = _\<rparr>"] length_attr_bytes)

lemma len_lib_copy [simp]: "len (lib_copy v) = len v"
  by (simp add: lib_copy_def)

lemma enc_attr_lib_copy: "attr_readable v \<Longrightarrow> enc_attr (lib_copy v) = enc_attr v"
  by (simp add: enc_attr_def)

lemma lib_owned_copy: "attr_readable v \<Longrightarrow> kgrant ok (unat (len v)) \<Longrightarrow> lib_owned ok (lib_copy v)"
  by (auto simp: lib_owned_def lib_copy_def length_attr_bytes)

interpretation lib_codec: codec enc_attr "lib_rd_attr ok" "lib_owned ok" for ok
proof unfold_locales
  fix v r assume v: "lib_owned ok v"
  then have "lib_rd_attr ok (enc_attr v @ r) = Inr (\<lparr>len = len v, addr = addr v\<rparr>, r)"
    by (auto simp: lib_rd_attr_def enc_attr_def lib_owned_def attr_bytes_def split: if_splits)
  then show "lib_rd_attr ok (enc_attr v @ r) = Inr (v, r)" by simp
qed

lemma lib_unserialize_ok:
  assumes "list_all attr_readable vs" and "attrs_granted ok vs" and "unat count = length vs"
  shows "lib_unserialize_rpc_packet ok (rpc_bytes idv count vs @ r) n = Inr (idv, map lib_copy vs, count)"
proof -
  have "attr_codec.enc_list vs = lib_codec.enc_list (map lib_copy vs)"
    using assms(1) by (induction vs) (simp_all add: enc_attr_lib_copy)
  moreover have "list_all (lib_owned ok) (map lib_copy vs)"
    using assms(1,2) by (auto simp: list_all_iff attrs_granted_def intro: lib_owned_copy)
  ultimately have "rd_list (unat count) (lib_rd_attr ok) (attr_codec.enc_list vs @ r) = Inr (map lib_copy vs, r)"
    using lib_codec.rd_list_enc [of ok "map lib_copy vs" r] assms(3) by simp
  then show ?thesis
    using assms(2,3) by (simp add: lib_unserialize_rpc_packet_def rpc_bytes_def attrs_granted_def)
qed

section \<open>Messages\<close>

definition nlmsg_align :: "nat \<Rightarrow> nat" where
  "nlmsg_align n = (n + 3) div 4 * 4"

abbreviation (input) NLMSG_HDRLEN :: nat where "NLMSG_HDRLEN \<equiv> 16"

definition nlmsg_space :: "nat \<Rightarrow> nat" where
  "nlmsg_space n = nlmsg_align (NLMSG_HDRLEN + n)"

definition get_portid :: "int \<Rightarrow> 64 word \<Rightarrow> u32" where
  "get_portid pid self = or (push_bit 16 (word_of_int pid)) (ucast (drop_bit 16 self))"

text \<open>
  The message written by \<open>netlink_sendto_kern\<close>: its length field counts the header and the
  padding, its payload is the type byte, the packet and zeros.
\<close>

definition netlink_sendto_kern :: "u32 \<Rightarrow> byte \<Rightarrow> cptr \<Rightarrow> u32 \<Rightarrow> nlmsg result" where
  "netlink_sendto_kern portid typ packet packet_length =
     (let packet_len = nlmsg_space (unat packet_length + 1) in
     bindr (mem_read packet (unat packet_length)) (\<lambda>x.
     Inr \<lparr>nlmsg_len = word_of_nat packet_len, nlmsg_pid = portid,
       nlmsg_data = typ # x @ replicate (packet_len - NLMSG_HDRLEN - 1 - unat packet_length) 0\<rparr>))"

text \<open>
  \<open>netlink_recvfrom_kern\<close> into a buffer: \<open>ret\<close> is the answer of \<open>recvmsg\<close> and \<open>msg\<close> what it put
  into the local array, which holds 8192 bytes, header included. The result is the value
  returned and the buffer.
\<close>

definition netlink_recvfrom_kern ::
  "int \<Rightarrow> nlmsg \<Rightarrow> byte list \<Rightarrow> u32 \<Rightarrow> (int \<times> byte list) result" where
  "netlink_recvfrom_kern ret msg packet packet_length =
     (if ret \<le> 0 then Inr (- 1, packet) else
     let payload_length = nlmsg_len msg - 16 in
     if packet_length < payload_length then Inr (- 1, packet) else
     bindr (rd_mem (unat payload_length) (nlmsg_data msg)) (\<lambda>(x, _).
     bindr (require (length x \<le> length packet) Out_of_bounds) (\<lambda>_.
     Inr (sint payload_length, x @ drop (length x) packet))))"

lemma nlmsg_align_props: "n \<le> nlmsg_align n" "nlmsg_align n < n + 4" "4 dvd nlmsg_align n"
  by (simp_all add: nlmsg_align_def)

lemma netlink_sendto_kern_ok:
  assumes "length packet = unat n" and "unat n < 2 ^ 31"
  obtains pad where "netlink_sendto_kern portid typ (PBlk (packet @ r)) n
      = Inr \<lparr>nlmsg_len = word_of_nat (17 + unat n + length pad), nlmsg_pid = portid,
          nlmsg_data = typ # packet @ pad\<rparr>" "length pad < 4"
proof -
  let ?l = "nlmsg_space (unat n + 1)"
  let ?pad = "replicate (?l - 16 - 1 - unat n) (0 :: byte)"
  have l: "17 + unat n \<le> ?l" "?l < 21 + unat n"
    using nlmsg_align_props [of "16 + (unat n + 1)"] by (simp_all add: nlmsg_space_def)
  have "netlink_sendto_kern portid typ (PBlk (packet @ r)) n
      = Inr \<lparr>nlmsg_len = word_of_nat ?l, nlmsg_pid = portid, nlmsg_data = typ # packet @ ?pad\<rparr>"
    using assms(1) by (simp add: netlink_sendto_kern_def Let_def)
  moreover have "?l = 17 + unat n + length ?pad" using l(1) by simp
  moreover have "length ?pad < 4" using l by simp
  ultimately show thesis using that by metis
qed

lemma netlink_recvfrom_kern_ok:
  assumes "0 < ret" and "length x \<le> unat n" and "length x \<le> length b" and "length x < 2 ^ 31"
  shows "netlink_recvfrom_kern ret \<lparr>nlmsg_len = word_of_nat (16 + length x), nlmsg_pid = p,
      nlmsg_data = x @ r\<rparr> b n = Inr (int (length x), x @ drop (length x) b)"
proof -
  have w: "word_of_nat (16 + length x) - (16 :: u32) = word_of_nat (length x)" by simp
  have u: "unat (word_of_nat (length x) :: u32) = length x" using assms(4) by (simp add: unat_of_nat_u32)
  then have s: "sint (word_of_nat (length x) :: u32) = int (length x)"
    using sint_small_u32 assms(4) by metis
  have "\<not> n < word_of_nat (length x)" using u assms(2) by (simp add: word_less_nat_alt)
  then show ?thesis
    using assms(1,3) by (simp only: netlink_recvfrom_kern_def nlmsg.simps w Let_def)
      (simp add: u s)
qed

end
