(* ===== verification/Lib_Rpc.thy ===== *)
theory Lib_Rpc
  imports Lib_Netlink Table
begin

text \<open>
  \<open>lib/src/interface.c\<close>: the process that serves interfaces. It activates them, then answers
  the calls the kernel passes on. The process has a heap of descriptors of its own, here the
  memory \<open>s\<close>; \<open>callbacks\<close> stands for its functions: by the address in the descriptor and the
  arguments, the code returned and what the array of results contains afterwards, or the fault
  the function ends in.
\<close>

section \<open>Descriptors\<close>

definition lib_find_interface :: "iarray option \<Rightarrow> int \<Rightarrow> u32 \<Rightarrow> 'z mem_scheme \<Rightarrow> ptr result" where
  "lib_find_interface interface_list count idv s = find_from interface_list 0 (nat count) idv s"

text \<open>
  \<open>malloc\<close> does not clear: names are indeterminate, and so are the values \<open>junk\<close> and the bytes
  \<open>block n\<close>.
\<close>

definition malloc_array :: "(nat \<Rightarrow> bool) \<Rightarrow> nat \<Rightarrow> nat \<Rightarrow> 'a \<Rightarrow> 'a list option" where
  "malloc_array ok sz n x = (if kgrant ok (sz * n) then Some (replicate n x) else None)"

definition attr_info_junk :: attr_info where
  "attr_info_junk = \<lparr>attr_name = PUninit, attr_description = PUninit\<rparr>"

abbreviation (input) MAX_PAYLOAD :: nat where "MAX_PAYLOAD \<equiv> 512"

definition lib_alloc_info :: "(nat \<Rightarrow> bool) \<Rightarrow> u32 \<Rightarrow> u32 \<Rightarrow> info_t result" where
  "lib_alloc_info ok argcv retcv =
     bindr (require (kgrant ok SIZEOF_INFO) Null_deref) (\<lambda>_.
     Inr (info_0\<lparr>arg_info := malloc_array ok SIZEOF_ATTR_INFO (unat argcv) attr_info_junk,
       ret_info := malloc_array ok SIZEOF_ATTR_INFO (unat retcv) attr_info_junk\<rparr>))"

definition lib_alloc_retv ::
  "(nat \<Rightarrow> bool) \<Rightarrow> attr_value \<Rightarrow> (nat \<Rightarrow> byte list) \<Rightarrow> u32 \<Rightarrow> attr_value list option result" where
  "lib_alloc_retv ok junk block retcv =
     (let buf = (if kgrant ok MAX_PAYLOAD then PBlk (block MAX_PAYLOAD) else PNull) in
     case malloc_array ok SIZEOF_ATTR_VALUE (unat retcv) junk of
       None \<Rightarrow> if retcv = 0 then Inr None else Inl Null_deref
     | Some vs \<Rightarrow> Inr (Some (map (\<lambda>v. v\<lparr>addr := buf\<rparr>) vs)))"

definition lib_flags :: "(nat \<Rightarrow> bool) \<Rightarrow> u32 \<Rightarrow> cptr result" where
  "lib_flags ok n = (if kgrant ok (unat n) then Inr (PBlk (replicate (unat n) 0)) else Inl Null_deref)"

definition lib_alloc_interface ::
  "(nat \<Rightarrow> bool) \<Rightarrow> attr_value \<Rightarrow> (nat \<Rightarrow> byte list) \<Rightarrow> u32 \<Rightarrow> u32 \<Rightarrow> bool \<Rightarrow> bool \<Rightarrow> bool \<Rightarrow>
   'z mem_scheme \<Rightarrow> (ptr \<times> 'z mem_scheme) result" where
  "lib_alloc_interface ok junk block argcv retcv init_info init_argv init_retv s =
     bindr (require (kgrant ok SIZEOF_INTERFACE) Null_deref) (\<lambda>_.
     bindr (require (kgrant ok SIZEOF_CTRL) Null_deref) (\<lambda>_.
     bindr (lib_flags ok argcv) (\<lambda>argf.
     bindr (lib_flags ok retcv) (\<lambda>retf.
     bindr (if init_info then bindr (lib_alloc_info ok argcv retcv) (\<lambda>i. Inr (Some i)) else Inr None) (\<lambda>infop.
     bindr (if init_retv then lib_alloc_retv ok junk block retcv else Inr None) (\<lambda>retvp.
     Inr (new_interface (interface_0\<lparr>if_id := - 1, argc := argcv, retc := retcv, arg_flags := argf,
       ret_flags := retf, ctrl := Some ctrl_0, info := infop,
       argv := (if init_argv then malloc_array ok SIZEOF_ATTR_VALUE (unat argcv) junk else None),
       retv := retvp\<rparr>) s)))))))"

text \<open>\<open>free_interface\<close> of the library frees the descriptor and then reads \<open>ctrl\<close> from it.\<close>

definition lib_free_interface :: "ptr \<Rightarrow> 'z mem_scheme \<Rightarrow> 'z mem_scheme result" where
  "lib_free_interface p s =
     bindr (deref p s) (\<lambda>_.
     let s = release p s in
     bindr (deref p s) (\<lambda>interface. Inr s))"

section \<open>Serving calls\<close>

type_synonym callbacks = "nat \<Rightarrow> attr_value list \<Rightarrow> attr_value list \<Rightarrow> (int \<times> attr_value list) result"

definition retv_blank :: attr_value where
  "retv_blank = \<lparr>len = - 1, addr = PNull\<rparr>"

text \<open>
  One turn of the loop of \<open>handle_rpc\<close>, for a message \<open>msg\<close> received with code \<open>r\<close>: the message
  sent back, if one is. The code of the receive becomes unsigned, so only 0 ends the turn
  early.
\<close>

definition rpc_step ::
  "(nat \<Rightarrow> bool) \<Rightarrow> callbacks \<Rightarrow> u32 \<Rightarrow> iarray option \<Rightarrow> int \<Rightarrow> int \<times> nlmsg \<Rightarrow> 'z mem_scheme \<Rightarrow>
   nlmsg option result" where
  "rpc_step ok callbacks portid managed count = (\<lambda>(r, msg) s.
     bindr (netlink_recvfrom_kern r msg (replicate MAX_PAYLOAD 0) (word_of_nat MAX_PAYLOAD)) (\<lambda>(n, packet).
     if (word_of_int n :: u32) = 0 then Inr None else
     bindr (lib_interface_id packet) (\<lambda>idv.
     bindr (lib_find_interface managed count idv s) (\<lambda>p.
     if p = 0 then Inr None else
     bindr (lib_unserialize_rpc_packet ok packet (word_of_int n)) (\<lambda>(idv, args, argcv).
     bindr (deref p s) (\<lambda>interface.
     if interface_t.argc interface \<noteq> argcv then Inr None else
     bindr (require (kgrant ok (SIZEOF_ATTR_VALUE * unat (retc interface))) Null_deref) (\<lambda>_.
     case ctrl interface of None \<Rightarrow> Inl Null_deref | Some c \<Rightarrow>
     bindr (callbacks (callback c) args (replicate (unat (retc interface)) retv_blank)) (\<lambda>(ret, vals).
     if ret < 0 then Inr None else
     bindr (lib_serialize_rpc_packet ok idv (retc interface) (Some vals)) (\<lambda>(ret_buffer, m).
     bindr (netlink_sendto_kern portid INCOME_RESULT (PBlk ret_buffer) m) (\<lambda>reply.
     Inr (Some reply)))))))))))"

text \<open>The loop over the messages the kernel sends, and the replies in their order.\<close>

fun handle_rpc ::
  "(nat \<Rightarrow> bool) \<Rightarrow> callbacks \<Rightarrow> u32 \<Rightarrow> iarray option \<Rightarrow> int \<Rightarrow> (int \<times> nlmsg) list \<Rightarrow> 'z mem_scheme \<Rightarrow>
   nlmsg list result" where
  "handle_rpc ok callbacks portid managed count [] s = Inr []"
| "handle_rpc ok callbacks portid managed count (m # ms) s =
     bindr (rpc_step ok callbacks portid managed count m s) (\<lambda>reply.
     bindr (handle_rpc ok callbacks portid managed count ms s) (\<lambda>replies.
     Inr (case reply of None \<Rightarrow> replies | Some x \<Rightarrow> x # replies)))"

text \<open>
  \<open>activate_and_listen\<close> up to the loop: the handshake with the identifiers of the managed
  interfaces.
\<close>

definition activation_message :: "(nat \<Rightarrow> bool) \<Rightarrow> u32 \<Rightarrow> iarray option \<Rightarrow> u32 \<Rightarrow> 'z mem_scheme \<Rightarrow> nlmsg result" where
  "activation_message ok portid managed count s =
     bindr (require (kgrant ok (4 * unat (count + 1))) Null_deref) (\<lambda>_.
     bindr (for_collect 0 (unat count) (\<lambda>i.
       bindr (slot managed i) (\<lambda>p. bindr (deref p s) (\<lambda>x. Inr (if_id x))))) (\<lambda>ids.
     let packet = u32_bytes count @ concat (map u32_bytes ids) in
     bindr (require (length packet \<le> 4 * unat (count + 1)) Out_of_bounds) (\<lambda>_.
     netlink_sendto_kern portid INCOME_HANDSHAKE (PBlk packet) (word_of_nat (4 * unat (count + 1))))))"

text \<open>
  The answers of the system calls are arguments: \<open>fd\<close> of \<open>socket\<close>, \<open>bound\<close> of \<open>bind\<close>, \<open>sent\<close>
  of the first \<open>sendmsg\<close>, and the messages received. The result is the messages sent.
\<close>

definition init_netlink_client :: "int \<Rightarrow> int \<Rightarrow> int" where
  "init_netlink_client fd bound = (if fd < 0 then - 1 else if bound < 0 then - 1 else fd)"

definition activate_and_listen ::
  "(nat \<Rightarrow> bool) \<Rightarrow> callbacks \<Rightarrow> int \<Rightarrow> int \<Rightarrow> u32 \<Rightarrow> iarray option \<Rightarrow> u32 \<Rightarrow> int \<Rightarrow>
   (int \<times> nlmsg) list \<Rightarrow> 'z mem_scheme \<Rightarrow> nlmsg list result" where
  "activate_and_listen ok callbacks fd bound portid managed count sent ms s =
     (if init_netlink_client fd bound < 0 then Inr [] else
     bindr (activation_message ok portid managed count s) (\<lambda>hello.
     if sent < 0 then Inr [hello] else
     bindr (handle_rpc ok callbacks portid managed (sint count) ms s) (\<lambda>replies. Inr (hello # replies))))"

section \<open>The managed interfaces as a table\<close>

definition managed_ok :: "interface_t list \<Rightarrow> iarray \<times> 'z mem_scheme \<Rightarrow> bool" where
  "managed_ok xs = (\<lambda>(a, s). describes a s xs)"

interpretation managed_table: interface_table "\<lambda>(a, s). Some a" "\<lambda>(a, s). int (length a)" snd
  "\<lambda>_. xs" "managed_ok xs" for xs
proof unfold_locales
  fix t :: "iarray \<times> 'a mem_scheme" and idv
  assume ok: "managed_ok xs t"
  obtain a s where t: "t = (a, s)" by (cases t)
  have d: "describes a s xs" using ok by (simp add: managed_ok_def t)
  have f: "find_interface (Some a) (int (length a)) idv s
      = Inr (case index_of idv xs of None \<Rightarrow> 0 | Some j \<Rightarrow> the (a ! j))"
    using find_interface_describes [OF d, where b = "[]"] describes_length [OF d] by simp
  show "\<exists>p. find_interface (case t of (a, s) \<Rightarrow> Some a) (case t of (a, s) \<Rightarrow> int (length a)) idv (snd t)
      = Inr p \<and> p \<noteq> 0 \<and> heap (snd t) p = Some (xs ! j)" if j: "index_of idv xs = Some j" for j
  proof -
    have "j < length xs" using index_of_SomeD [OF j] by simp
    then show ?thesis using f j d by (fastforce simp: t describes_def list_all2_conv_all_nth)
  qed
  show "find_interface (case t of (a, s) \<Rightarrow> Some a) (case t of (a, s) \<Rightarrow> int (length a)) idv (snd t) = Inr 0"
    if "index_of idv xs = None"
    using f that by (simp add: t)
qed

lemma lib_find_same: "lib_find_interface = find_interface"
  by (intro ext) (simp add: lib_find_interface_def find_interface_def)

section \<open>Properties\<close>

text \<open>
  \<open>free_interface\<close> of the library cannot be called: it reads the control block's address
  from the descriptor it has just freed.
\<close>

theorem lib_free_faults:
  assumes "deref p s = Inr x"
  shows "lib_free_interface p s = Inl Use_after_free"
  using assms by (simp add: lib_free_interface_def deref_eq_Inr)
    (simp add: Let_def deref_def release_def)

definition call_message :: "byte list \<Rightarrow> byte list \<Rightarrow> u32 \<Rightarrow> nlmsg" where
  "call_message packet r p = \<lparr>nlmsg_len = word_of_nat (16 + length packet), nlmsg_pid = p,
     nlmsg_data = packet @ r\<rparr>"

definition result_message :: "byte list \<Rightarrow> byte list \<Rightarrow> u32 \<Rightarrow> nlmsg" where
  "result_message packet pad p = \<lparr>nlmsg_len = word_of_nat (17 + length packet + length pad),
     nlmsg_pid = p, nlmsg_data = INCOME_RESULT # packet @ pad\<rparr>"

lemma recv_call:
  assumes "length packet \<le> MAX_PAYLOAD" and "0 < r"
  shows "netlink_recvfrom_kern r (call_message packet tl1 p) (replicate MAX_PAYLOAD 0) (word_of_nat MAX_PAYLOAD)
    = Inr (int (length packet), packet @ replicate (MAX_PAYLOAD - length packet) 0)"
  using netlink_recvfrom_kern_ok [OF assms(2), of packet "word_of_nat MAX_PAYLOAD" "replicate MAX_PAYLOAD 0" p tl1]
    assms(1) by (simp add: call_message_def drop_replicate)

text \<open>
  A process answers a call with \<open>vals\<close>: the arguments are as many as the interface has, and its
  callback succeeds and leaves as many values as it has results, in a packet the buffer takes.
\<close>

definition process_answers ::
  "(nat \<Rightarrow> bool) \<Rightarrow> callbacks \<Rightarrow> interface_t \<Rightarrow> attr_value list \<Rightarrow> attr_value list \<Rightarrow> bool" where
  "process_answers ok callbacks x args vals \<longleftrightarrow> unat (interface_t.argc x) = length args \<and>
     unat (retc x) = length vals \<and>
     (\<exists>c ret. ctrl x = Some c \<and> callbacks (callback c) (map lib_copy args)
        (replicate (length vals) retv_blank) = Inr (ret, vals) \<and> 0 \<le> ret) \<and>
     rpc_fits ok vals \<and> length (rpc_bytes (if_id x) (retc x) vals) < 2 ^ 31 \<and>
     kgrant ok (SIZEOF_ATTR_VALUE * length vals)"

text \<open>
  A call packet that fits the buffer reaches the callback of its interface, with the arguments
  it carries.
\<close>

lemma rpc_step_calls:
  assumes m: "describes a s xs" and j: "index_of idv xs = Some j"
    and args: "list_all attr_readable args" "attrs_granted ok args"
      "length (rpc_bytes idv (interface_t.argc (xs ! j)) args) \<le> MAX_PAYLOAD" "0 < r"
    and x: "unat (interface_t.argc (xs ! j)) = length args" "ctrl (xs ! j) = Some c"
      "kgrant ok (SIZEOF_ATTR_VALUE * unat (retc (xs ! j)))"
  shows "rpc_step ok callbacks portid (Some a) (int (length a))
      (r, call_message (rpc_bytes idv (interface_t.argc (xs ! j)) args) tl1 p) s
    = bindr (callbacks (callback c) (map lib_copy args) (replicate (unat (retc (xs ! j))) retv_blank)) (\<lambda>(ret, vals).
      if ret < 0 then Inr None else
      bindr (serialize_rpc_packet ok idv (retc (xs ! j)) (Some vals)) (\<lambda>(ret_buffer, m).
      bindr (netlink_sendto_kern portid INCOME_RESULT (PBlk ret_buffer) m) (\<lambda>reply. Inr (Some reply))))"
proof -
  let ?argc = "interface_t.argc (xs ! j)"
  let ?p = "rpc_bytes idv ?argc args"
  let ?buf = "?p @ replicate (MAX_PAYLOAD - length ?p) 0"
  have ok: "managed_ok xs (a, s)" using m by (simp add: managed_ok_def)
  obtain q where q: "find_interface (Some a) (int (length a)) idv s = Inr q" "q \<noteq> 0"
      "deref q s = Inr (xs ! j)"
    using managed_table.lookup [OF ok j] by auto
  have ne: "(word_of_int (int (length ?p)) :: u32) \<noteq> 0"
  proof -
    have "0 < length ?p" by (simp add: rpc_bytes_def)
    moreover have "unat (word_of_int (int (length ?p)) :: u32) = length ?p"
      using args(3) by (simp add: unat_of_nat_u32 del: length_0_conv)
    ultimately show ?thesis by (metis less_irrefl unsigned_0)
  qed
  have idp: "interface_id ?buf = Inr idv" by simp
  have un: "lib_unserialize_rpc_packet ok ?buf n = Inr (idv, map lib_copy args, ?argc)" for n
    by (rule lib_unserialize_ok [OF args(1,2) x(1)])
  show ?thesis
    using recv_call [OF args(3,4), of tl1 p] ne x q
    by (simp add: rpc_step_def lib_interface_id_same idp lib_find_same un lib_serialize_same cong: if_cong)
qed

text \<open>What the process sends: the callback's values in a packet with the identifier called.\<close>

lemma rpc_step_ok:
  assumes m: "describes a s xs" and j: "index_of idv xs = Some j"
    and args: "list_all attr_readable args" "attrs_granted ok args"
      "length (rpc_bytes idv (interface_t.argc (xs ! j)) args) \<le> MAX_PAYLOAD" "0 < r"
    and cb: "process_answers ok callbacks (xs ! j) args vals"
  shows "\<exists>pad. rpc_step ok callbacks portid (Some a) (int (length a))
      (r, call_message (rpc_bytes idv (interface_t.argc (xs ! j)) args) tl1 p) s
    = Inr (Some (result_message (rpc_bytes idv (retc (xs ! j)) vals) pad portid)) \<and> length pad < 4"
proof -
  let ?res = "rpc_bytes idv (retc (xs ! j)) vals"
  have idj: "if_id (xs ! j) = idv" using index_of_SomeD [OF j] by simp
  obtain c ret where cb': "ctrl (xs ! j) = Some c" "callbacks (callback c) (map lib_copy args)
        (replicate (length vals) retv_blank) = Inr (ret, vals)" "0 \<le> ret"
      "unat (interface_t.argc (xs ! j)) = length args" "unat (retc (xs ! j)) = length vals" "rpc_fits ok vals"
      "length ?res < 2 ^ 31" "kgrant ok (SIZEOF_ATTR_VALUE * length vals)"
    using cb idj by (auto simp: process_answers_def)
  have ser: "serialize_rpc_packet ok idv (retc (xs ! j)) (Some vals) = Inr (?res, word_of_nat (length ?res))"
    by (rule serialize_rpc_ok [OF cb'(6,5)])
  have len: "length ?res = unat (word_of_nat (length ?res) :: u32)"
    using cb'(7) by (simp add: unat_of_nat_u32)
  obtain pad where pad: "netlink_sendto_kern portid INCOME_RESULT (PBlk ?res) (word_of_nat (length ?res))
      = Inr (result_message ?res pad portid)" "length pad < 4"
    using netlink_sendto_kern_ok [OF len, of portid INCOME_RESULT "[]"] cb'(7) len
    by (auto simp: result_message_def)
  have "kgrant ok (SIZEOF_ATTR_VALUE * unat (retc (xs ! j)))" using cb'(5,8) by simp
  from rpc_step_calls [OF m j args cb'(4,1) this] show ?thesis
    using cb'(2,3,5) ser pad by auto
qed

text \<open>
  A call whose packet is longer than 512 bytes is lost in the process: the receive reports
  an error, the error code is taken for a length, and the cleared buffer names the interface 0,
  which no process manages. No reply is sent, so the caller waits.
\<close>

theorem rpc_step_long_call_lost:
  assumes "describes a s xs" and "index_of 0 xs = None" and "MAX_PAYLOAD < length packet"
    and "length packet < 2 ^ 31"
  shows "rpc_step ok callbacks portid (Some a) (int (length a)) (r, call_message packet tl1 p) s = Inr None"
proof -
  have "word_of_nat (16 + length packet) - (16 :: u32) = word_of_nat (length packet)" by simp
  moreover have "(512 :: u32) < word_of_nat (length packet)"
    using assms(3,4) by (simp add: word_less_nat_alt unat_of_nat_u32)
  ultimately have "netlink_recvfrom_kern r (call_message packet tl1 p) (replicate MAX_PAYLOAD 0) (word_of_nat MAX_PAYLOAD)
      = Inr (- 1, replicate MAX_PAYLOAD 0)"
    by (simp only: netlink_recvfrom_kern_def call_message_def nlmsg.simps Let_def) simp
  moreover have "interface_id (replicate MAX_PAYLOAD 0) = Inr 0"
    by (simp add: interface_id_def numeral_eq_Suc bytes_u32_def)
  moreover have "find_interface (Some a) (int (length a)) 0 s = Inr 0"
    using managed_table.find_miss [of xs "(a, s)"] assms(1,2) by (simp add: managed_ok_def)
  ultimately show ?thesis
    by (simp add: rpc_step_def lib_interface_id_same lib_find_same)
qed

lemma activation_message_ok:
  assumes m: "describes a s xs" and n: "length xs < 2 ^ 28" and g: "kgrant ok (4 * (length xs + 1))"
  shows "\<exists>pad. activation_message ok portid (Some a) (word_of_nat (length xs)) s
    = Inr \<lparr>nlmsg_len = word_of_nat (21 + 4 * length xs + length pad), nlmsg_pid = portid,
        nlmsg_data = INCOME_HANDSHAKE # u32_bytes (word_of_nat (length xs)) @
          u32_codec.enc_list (map if_id xs) @ pad\<rparr> \<and> length pad < 4"
proof -
  have un: "unat (word_of_nat (length xs) :: u32) = length xs" using n by (simp add: unat_of_nat_u32)
  then have un1: "unat (word_of_nat (length xs) + 1 :: u32) = length xs + 1"
    using n by (subst unat_add_u32) simp_all
  have "for_collect 0 (length xs) (\<lambda>i. bindr (slot (Some a) i) (\<lambda>p. bindr (deref p s) (\<lambda>x. Inr (if_id x))))
      = Inr (map (\<lambda>i. if_id (xs ! i)) [0..<0 + length xs])"
    by (rule for_collect_map) (use describes_nth [OF m, where b = "[]"] in fastforce)
  also have "map (\<lambda>i. if_id (xs ! i)) [0..<0 + length xs] = map if_id xs"
    by (intro nth_equalityI) simp_all
  finally have ids: "for_collect 0 (length xs) (\<lambda>i. bindr (slot (Some a) i) (\<lambda>p. bindr (deref p s)
      (\<lambda>x. Inr (if_id x)))) = Inr (map if_id xs)" .
  let ?p = "u32_bytes (word_of_nat (length xs)) @ u32_codec.enc_list (map if_id xs)"
  have len: "length ?p = unat (word_of_nat (4 * (length xs + 1)) :: u32)"
    using n by (simp add: unat_of_nat_u32 del: of_nat_mult of_nat_add of_nat_Suc)
  obtain pad where pad: "netlink_sendto_kern portid INCOME_HANDSHAKE (PBlk ?p) (word_of_nat (4 * (length xs + 1)))
      = Inr \<lparr>nlmsg_len = word_of_nat (17 + unat (word_of_nat (4 * (length xs + 1)) :: u32) + length pad),
          nlmsg_pid = portid, nlmsg_data = INCOME_HANDSHAKE # ?p @ pad\<rparr>" "length pad < 4"
    using netlink_sendto_kern_ok [OF len, of portid INCOME_HANDSHAKE "[]"] n len by auto
  have "17 + unat (word_of_nat (4 * (length xs + 1)) :: u32) + length pad = 21 + 4 * length xs + length pad"
    using len by simp
  with pad show ?thesis
    using ids g len
    by (auto simp: activation_message_def un un1 u32_codec.enc_list_def [symmetric] simp del: of_nat_add of_nat_mult)
qed

lemma handshake_ok:
  assumes "describes a s xs" and "length xs < 2 ^ 28" and "kgrant ok (4 * (length xs + 1))"
    and "registry_ok k" and "distinct (map if_id (interfaces_of k))"
  shows "\<exists>msg t. activation_message ok portid (Some a) (word_of_nat (length xs)) s = Inr msg \<and>
    handle_netlink_income e msg k = Inr t \<and> registry_ok t \<and>
    interfaces_of t = activated_by portid (map if_id xs) (interfaces_of k)"
proof -
  let ?ids = "map if_id xs"
  obtain pad where m: "activation_message ok portid (Some a) (word_of_nat (length xs)) s
      = Inr \<lparr>nlmsg_len = word_of_nat (21 + 4 * length xs + length pad), nlmsg_pid = portid,
        nlmsg_data = INCOME_HANDSHAKE # u32_bytes (word_of_nat (length ?ids)) @ u32_codec.enc_list ?ids @ pad\<rparr>"
      and pad: "length pad < 4"
    using activation_message_ok [OF assms(1-3), of portid] by auto
  define n :: u32 where "n = word_of_nat (21 + 4 * length xs + length pad) - 1"
  have "unat n = 20 + 4 * length xs + length pad"
  proof -
    have "n = word_of_nat (20 + 4 * length xs + length pad)" by (simp add: n_def)
    moreover have "20 + 4 * length xs + length pad < 4294967296" using assms(2) pad by simp
    ultimately show ?thesis by (simp only: unat_of_nat_u32)
  qed
  then have run: "length ?ids + 1 < 2 ^ 32" "4 * (length ?ids + 1) \<le> unat n" using assms(2) by auto
  obtain t where t: "handle_activate_interface
      (u32_bytes (word_of_nat (length ?ids)) @ u32_codec.enc_list ?ids @ pad) n portid k = Inr t"
      "registry_ok t" "interfaces_of t = activated_by portid ?ids (interfaces_of k)"
    using activate_loop [OF assms(4,5) order_refl, of ?ids pad portid] activation_run [OF run, of pad portid k]
    by auto
  then have "handle_netlink_income e \<lparr>nlmsg_len = word_of_nat (21 + 4 * length xs + length pad),
      nlmsg_pid = portid, nlmsg_data = INCOME_HANDSHAKE # u32_bytes (word_of_nat (length ?ids)) @
        u32_codec.enc_list ?ids @ pad\<rparr> k = Inr t"
    unfolding handle_netlink_income_def nlmsg.simps Let_def n_def [symmetric]
    by (simp add: rd_mem_def del: length_map)
  then show ?thesis using m t(2,3) by blast
qed

text \<open>
  C21: the handshake of a process does what it is for: the message built from its managed
  interfaces, received by the kernel, makes exactly these the process's own.
\<close>

theorem handshake_activates:
  assumes "describes a s xs" and "length xs < 2 ^ 28" and "kgrant ok (4 * (length xs + 1))"
    and "registry_ok k" and "distinct (map if_id (interfaces_of k))"
  shows "\<exists>msg t. activation_message ok portid (Some a) (word_of_nat (length xs)) s = Inr msg \<and>
    handle_netlink_income e msg k = Inr t \<and> registry_ok t \<and>
    interfaces_of t = activated_by portid (map if_id xs) (interfaces_of k)"
  by (rule handshake_ok [OF assms])

section \<open>Examples\<close>

lemma three_describes: "describes [Some 1, Some 2, Some 3] three_registry (interfaces_of three_registry)"
  unfolding three_interfaces by (simp add: describes_def three_registry_def)

theorem lib_free_faults_witness: "lib_free_interface 2 three_registry = Inl Use_after_free"
  by (rule lib_free_faults [of _ _ "stored_interface 2"]) (simp add: deref_def three_registry_def)

theorem rpc_step_long_call_lost_witness:
  "rpc_step kmalloc_max (\<lambda>_ args vals. Inr (0, vals)) 77 (Some [Some 1, Some 2, Some 3])
    (int (length [Some (1 :: nat), Some 2, Some 3])) (1, call_message (replicate 600 1) [] 0) three_registry = Inr None"
  by (rule rpc_step_long_call_lost [OF three_describes])
    (simp_all add: three_interfaces stored_interface_def)

theorem handshake_activates_witness:
  "\<exists>msg t. activation_message kmalloc_max 77 (Some [Some 1, Some 2, Some 3])
      (word_of_nat (length (interfaces_of three_registry))) three_registry = Inr msg \<and>
    handle_netlink_income kind_kernel msg three_registry = Inr t \<and> registry_ok t \<and>
    interfaces_of t = activated_by 77 (map if_id (interfaces_of three_registry)) (interfaces_of three_registry)"
  by (rule handshake_activates [OF three_describes _ _ three_registry_ok three_distinct])
    (simp_all add: three_interfaces kgrant_def kmalloc_max_def)

end
