(* ===== verification/Node_Call.thy ===== *)
theory Node_Call
  imports Lib_Rpc Service
begin

text \<open>
  A call on its way through one node: the connection of the caller, the kernel, the process that
  serves the interface, and the result back through the connection. The functions are those of
  the service server, the netlink handlers and the user library.
\<close>

section \<open>A call through a node and its process\<close>

text \<open>A message in the kernel's memory: the block goes on after what the process sent.\<close>

definition in_kernel :: "byte list \<Rightarrow> nlmsg \<Rightarrow> nlmsg" where
  "in_kernel behind m = m\<lparr>nlmsg_data := nlmsg_data m @ behind\<rparr>"

lemma result_printable:
  assumes "rpc_fits ok vals" and "attrs_granted (kmem e) vals" and "unat n = length vals"
    and "vals \<noteq> []" and "fmt_s (addr (attr_copy (hd vals))) = Inr x"
  shows "printable_result e idv (rpc_bytes idv n vals @ r)"
proof -
  have rd: "list_all attr_readable vals" by (rule rpc_fits_readable [OF assms(1)])
  have "unserialize_rpc_packet (kmem e) (rpc_bytes idv n (map attr_copy vals) @ r) 0 = Inr (map attr_copy vals, n)"
    by (rule unserialize_rpc_ok [OF attr_copies_owned [OF rd assms(2)]])
      (use assms in \<open>simp_all add: attrs_granted_def\<close>)
  then show ?thesis using rd assms(4,5) by (simp add: printable_result_def hd_map)
qed

lemma result_income:
  assumes "length res + length pad + 17 < 2 ^ 31"
  shows "handle_netlink_income e (in_kernel behind (result_message res pad p)) s
    = handle_interface_result e (res @ pad @ behind) (word_of_nat (16 + length res + length pad)) p s"
proof -
  have "word_of_nat (17 + length res + length pad) - (1 :: u32) = word_of_nat (16 + length res + length pad)"
    by simp
  then show ?thesis
    by (simp only: handle_netlink_income_def in_kernel_def result_message_def Let_def nlmsg.simps
        nlmsg.select_convs) (simp add: rd_mem_def)
qed

lemma forward_body:
  assumes "table_ok s" and "index_of idv (interfaces_of s) = Some j"
    and "ctrl (interfaces_of s ! j) = Some c" "socket c = Some k" "\<not> sk_null k"
    and "printable_result e idv (body @ rest)" and "length body < 2 ^ 31"
  shows "handle_interface_result e (body @ rest) (word_of_nat (length body)) portid s
    = Inr (emit (Sock_sent (sock_no k) None body)
        (emit (Sock_sent (sock_no k) None (u32_bytes (word_of_nat (length body)))) s))"
proof -
  have "unat (word_of_nat (length body) :: u32) = length body" using assms(7) by (simp add: unat_of_nat_u32)
  then show ?thesis
    using result_forwarded [OF assms(1-6), of "word_of_nat (length body)"] assms(7) by simp
qed

lemma node_serves:
  assumes node: "table_ok s" "distinct (map if_id (interfaces_of s))" "KERN_NETLINK s = Some nl"
      "index_of idv (interfaces_of s) = Some j" "ctrl (interfaces_of s ! j) = Some c" "idv \<noteq> 0"
    and conn: "req = rpc_bytes idv (interface_t.argc (xs ! i)) args" "stream_of e (sock_no k) req"
      "\<not> sk_null k" "0 \<le> sock_getname e (trace s) (sock_no k)" "kgrant (kmem e) (length req)"
      "\<forall>tr. nlmsg_new e tr (word_of_nat (length req))" "length req \<le> MAX_PAYLOAD"
    and process: "describes a u xs" "index_of idv xs = Some i" "list_all attr_readable args"
      "attrs_granted ok args" "process_answers ok callbacks (xs ! i) args vals" "0 < r"
    and result: "attrs_granted (kmem e) vals" "vals \<noteq> []" "fmt_s (addr (attr_copy (hd vals))) = Inr x"
      "length (rpc_bytes idv (retc (xs ! i)) vals) + 20 < 2 ^ 31" "16 \<le> length behind"
  shows "\<exists>n t reply v pad. handle_connection e k s = Inr (n, t) \<and>
    trace t = Nl_unicast nl (client_portid c) req # Sock_received (sock_no k) (length req) #
      Sock_received (sock_no k) 4 # trace s \<and>
    rpc_step ok callbacks (client_portid c) (Some a) (int (length a)) (r, call_message req [] 0) u
      = Inr (Some reply) \<and>
    handle_netlink_income e (in_kernel behind reply) t = Inr v \<and> length pad < 4 \<and>
    (let body = rpc_bytes idv (retc (xs ! i)) vals @ pad @ take 16 behind in
      trace v = [Sock_sent (sock_no k) None body,
        Sock_sent (sock_no k) None (u32_bytes (word_of_nat (length body)))] @ trace t \<and>
      (\<forall>g. attrs_granted g vals \<longrightarrow> unserialize_rpc_packet g body (word_of_nat (length body))
        = Inr (map attr_copy vals, retc (xs ! i))))"
proof -
  let ?s = "emit (Sock_received (sock_no k) (length req)) (emit (Sock_received (sock_no k) 4) s)"
  let ?res = "rpc_bytes idv (retc (xs ! i)) vals"
  have len: "0 < length req" "length req < 2 ^ 31" using conn(7) by (simp_all add: conn(1) rpc_bytes_def)
  have u: "unat (word_of_nat (length req) :: u32) = length req" using len by (simp add: unat_of_nat_u32)
  have idr: "interface_id req = Inr idv" by (simp add: conn(1))
  obtain n t where t: "execute_interface e req (word_of_nat (length req)) (Some k) ?s = Inr (n, t)" "table_ok t"
      "interfaces_of t = (interfaces_of s)[j := wait_on (Some k) (interfaces_of s ! j)]"
      "trace t = Nl_unicast nl (client_portid c) req # trace ?s"
    using execute_known [of ?s req idv "word_of_nat (length req)" j c nl e "Some k"] node conn(6) idr u by auto
  have conn_ok: "handle_connection e k s = Inr (sock_getname e (trace s) (sock_no k), t)"
    using connection_executes [OF conn(2,3) len conn(5,4)] t(1) by simp
  obtain pad where pad: "rpc_step ok callbacks (client_portid c) (Some a) (int (length a))
      (r, call_message req [] 0) u = Inr (Some (result_message ?res pad (client_portid c)))" "length pad < 4"
    using rpc_step_ok [OF process(1-4) _ process(6,5)] conn(1,7) by blast
  have fits: "rpc_fits ok vals" "unat (retc (xs ! i)) = length vals"
    using process(5) by (simp_all add: process_answers_def)
  let ?body = "?res @ pad @ take 16 behind"
  have j: "index_of idv (interfaces_of t) = Some j" unfolding t(3) by (rule index_of_waiting [OF node(4)])
  have cj: "ctrl (interfaces_of t ! j) = Some (c\<lparr>socket := Some k\<rparr>)"
    using t(3) index_of_SomeD [OF node(4)] node(5) by (simp add: wait_on_def)
  have blen: "length ?body = 16 + length ?res + length pad" using result(5) by simp
  have pr: "printable_result e idv (?res @ pad @ behind)"
    by (rule result_printable [OF fits(1) result(1) fits(2) result(2,3)])
  have "handle_netlink_income e (in_kernel behind (result_message ?res pad (client_portid c))) t
      = handle_interface_result e (?res @ pad @ behind) (word_of_nat (length ?body)) (client_portid c) t"
    unfolding blen by (rule result_income) (use result(4) pad(2) in simp)
  also have "\<dots> = Inr (emit (Sock_sent (sock_no k) None ?body)
      (emit (Sock_sent (sock_no k) None (u32_bytes (word_of_nat (length ?body)))) t))"
  proof -
    have split: "?res @ pad @ behind = ?body @ drop 16 behind" by simp
    have "printable_result e idv (?body @ drop 16 behind)" using pr unfolding split .
    moreover have "length ?body < 2 ^ 31" using result(4) pad(2) unfolding blen by simp
    ultimately show ?thesis unfolding split by (intro forward_body [OF t(2) j cj _ conn(3)]) simp_all
  qed
  finally have fwd: "handle_netlink_income e (in_kernel behind (result_message ?res pad (client_portid c))) t = \<dots>" .
  have "unserialize_rpc_packet g ?body (word_of_nat (length ?body)) = Inr (map attr_copy vals, retc (xs ! i))"
    if "attrs_granted g vals" for g
  proof -
    have rd: "list_all attr_readable vals" by (rule rpc_fits_readable [OF fits(1)])
    have "unserialize_rpc_packet g (rpc_bytes idv (retc (xs ! i)) (map attr_copy vals) @ pad @ take 16 behind) n
        = Inr (map attr_copy vals, retc (xs ! i))" for n
      by (rule unserialize_rpc_ok [OF attr_copies_owned [OF rd that]])
        (use that fits(2) in \<open>simp_all add: attrs_granted_def\<close>)
    then show ?thesis using rd by simp
  qed
  then show ?thesis
    unfolding Let_def
    using conn_ok t(4) pad fwd by (intro exI conjI) (assumption | simp | blast)+
qed

text \<open>
  C2: a call arrives on a connection, passes through the kernel to the process and comes back: the
  process receives the packet the other node sent, and what leaves through the connection
  after its answer is a packet from which the other node reads the values the callback left.
  The packet is followed by the padding of the message and by 16 bytes of kernel memory
  behind the message, which the caller gets as well.
\<close>

theorem call_served:
  assumes node: "table_ok s" "distinct (map if_id (interfaces_of s))" "KERN_NETLINK s = Some nl"
      "index_of idv (interfaces_of s) = Some j" "ctrl (interfaces_of s ! j) = Some c" "idv \<noteq> 0"
    and conn: "req = rpc_bytes idv (interface_t.argc (xs ! i)) args" "stream_of e (sock_no k) req"
      "\<not> sk_null k" "0 \<le> sock_getname e (trace s) (sock_no k)" "kgrant (kmem e) (length req)"
      "\<forall>tr. nlmsg_new e tr (word_of_nat (length req))" "length req \<le> MAX_PAYLOAD"
    and process: "describes a u xs" "index_of idv xs = Some i" "list_all attr_readable args"
      "attrs_granted ok args" "process_answers ok callbacks (xs ! i) args vals" "0 < r"
    and result: "attrs_granted (kmem e) vals" "vals \<noteq> []" "fmt_s (addr (attr_copy (hd vals))) = Inr x"
      "length (rpc_bytes idv (retc (xs ! i)) vals) + 20 < 2 ^ 31" "16 \<le> length behind"
  shows "\<exists>n t reply v pad. handle_connection e k s = Inr (n, t) \<and>
    trace t = Nl_unicast nl (client_portid c) req # Sock_received (sock_no k) (length req) #
      Sock_received (sock_no k) 4 # trace s \<and>
    rpc_step ok callbacks (client_portid c) (Some a) (int (length a)) (r, call_message req [] 0) u
      = Inr (Some reply) \<and>
    handle_netlink_income e (in_kernel behind reply) t = Inr v \<and> length pad < 4 \<and>
    (let body = rpc_bytes idv (retc (xs ! i)) vals @ pad @ take 16 behind in
      trace v = [Sock_sent (sock_no k) None body,
        Sock_sent (sock_no k) None (u32_bytes (word_of_nat (length body)))] @ trace t \<and>
      (\<forall>g. attrs_granted g vals \<longrightarrow> unserialize_rpc_packet g body (word_of_nat (length body))
        = Inr (map attr_copy vals, retc (xs ! i))))"
  by (rule node_serves [OF assms])

section \<open>Examples\<close>

definition greeter :: interface_t where
  "greeter = (blank_interface 1 1)\<lparr>if_id := 2\<rparr>"

definition greeter_memory :: mem where
  "greeter_memory = \<lparr>heap = [1 \<mapsto> greeter], next_ptr = 2, trace = []\<rparr>"

definition greeting :: "attr_value list" where
  "greeting = [\<lparr>len = 3, addr = PBlk [72, 105, 0]\<rparr>]"

definition greeted :: "attr_value list" where
  "greeted = [\<lparr>len = 1, addr = PBlk [7]\<rparr>]"

definition greet_request :: "byte list" where
  "greet_request = rpc_bytes 2 1 greeted"

definition serving_kernel :: kenv where
  "serving_kernel = kind_kernel\<lparr>sock_recvmsg := (\<lambda>tr k n. if n = 4 then (4, None, u32_bytes 13)
     else (13, None, greet_request))\<rparr>"

lemma length_greet_request [simp]: "length greet_request = 13"
  by (simp add: greet_request_def greeted_def rpc_bytes_def attr_codec.enc_list_def enc_attr_def attr_bytes_def)

lemma greeting_fits: "rpc_fits kmalloc_max greeting"
  by (auto simp: greeting_def rpc_fits_def attr_sendable_def attr_readable_def enc_attr_def
      attr_codec.enc_list_def attr_bytes_def intro!: exI [of _ 64] roomy_kmalloc_max)

lemma greeter_answers:
  "process_answers kmalloc_max (\<lambda>_ args vals. Inr (0, greeting)) ([greeter] ! 0) greeted greeting"
  using greeting_fits
  by (simp add: process_answers_def greeter_def blank_interface_def greeted_def ctrl_0_def)
    (simp add: greeting_def rpc_bytes_def attr_codec.enc_list_def enc_attr_def attr_bytes_def
      kgrant_def kmalloc_max_def)

theorem call_served_witness:
  "\<exists>n t reply v pad. handle_connection serving_kernel (open_socket 4) three_registry = Inr (n, t) \<and>
    trace t = Nl_unicast 0 (client_portid ctrl_0) greet_request #
      Sock_received (sock_no (open_socket 4)) (length greet_request) #
      Sock_received (sock_no (open_socket 4)) 4 # trace three_registry \<and>
    rpc_step kmalloc_max (\<lambda>_ args vals. Inr (0, greeting)) (client_portid ctrl_0) (Some [Some 1])
      (int (length [Some (1 :: nat)])) (1, call_message greet_request [] 0) greeter_memory
      = Inr (Some reply) \<and>
    handle_netlink_income serving_kernel (in_kernel (replicate 16 9) reply) t = Inr v \<and> length pad < 4 \<and>
    (let body = rpc_bytes 2 (retc ([greeter] ! 0)) greeting @ pad @ take 16 (replicate 16 9) in
      trace v = [Sock_sent (sock_no (open_socket 4)) None body,
        Sock_sent (sock_no (open_socket 4)) None (u32_bytes (word_of_nat (length body)))] @ trace t \<and>
      (\<forall>g. attrs_granted g greeting \<longrightarrow>
        unserialize_rpc_packet g body (word_of_nat (length body))
        = Inr (map attr_copy greeting, retc ([greeter] ! 0))))"
proof (rule call_served [OF three_table three_distinct _ three_second three_second_ctrl _ _ _ _ _ _ _ _ _ _
      _ _ greeter_answers, where x = "[72, 105]"])
  show "greet_request = rpc_bytes 2 (interface_t.argc ([greeter] ! 0)) greeted"
    by (simp add: greet_request_def greeter_def blank_interface_def)
  show "stream_of serving_kernel (sock_no (open_socket 4)) greet_request"
    by (simp add: stream_of_def serving_kernel_def)
  show "describes [Some 1] greeter_memory [greeter]"
    by (simp add: describes_def greeter_memory_def)
  show "fmt_s (addr (attr_copy (hd greeting))) = Inr [72, 105]"
    by (simp add: greeting_def attr_copy_def attr_bytes_def fmt_s_def strlen_def cstrlen_def)
  show "length (rpc_bytes 2 (retc ([greeter] ! 0)) greeting) + 20 < 2 ^ 31"
    by (simp add: greeting_def rpc_bytes_def attr_codec.enc_list_def enc_attr_def attr_bytes_def)
qed (simp_all add: three_registry_def serving_kernel_def kind_kernel_def kgrant_def kmalloc_max_def
    open_socket_def greeter_def greeted_def greeting_def attr_readable_def attrs_granted_def)

end
