(* ===== verification/Manager_Device.thy ===== *)
theory Manager_Device
  imports Peer_Device Resources
begin

text \<open>
  \<open>module/device/manager.c\<close>: the device through which processes register and remove interfaces
  and try a call on their own node, and the creation and removal of the device.
\<close>

section \<open>Requests\<close>

abbreviation (input) CMD_MAGIC_NUM :: u32 where "CMD_MAGIC_NUM \<equiv> 100"

text \<open>
  A request code of \<open>_IOW\<close>: the direction in bits 30 and 31, the size of the argument from bit
  16, the magic number from bit 8 and the number of the command.
\<close>

definition IOW :: "u32 \<Rightarrow> u32 \<Rightarrow> u32 \<Rightarrow> u32" where
  "IOW magic nr sz = or (push_bit 30 1) (or (push_bit 16 sz) (or (push_bit 8 magic) nr))"

definition REG_INTERFACE_CMD :: u32 where "REG_INTERFACE_CMD = IOW CMD_MAGIC_NUM 1 8"
definition REMOVE_INTERFACE_CMD :: u32 where "REMOVE_INTERFACE_CMD = IOW CMD_MAGIC_NUM 3 4"
definition TEST_EXECUTE_REMOTE_CMD :: u32 where "TEST_EXECUTE_REMOTE_CMD = IOW CMD_MAGIC_NUM 4 8"

lemma command_codes [simp]:
  "REG_INTERFACE_CMD = 1074291713" "REMOVE_INTERFACE_CMD = 1074029571"
  "TEST_EXECUTE_REMOTE_CMD = 1074291716"
  by (simp_all add: REG_INTERFACE_CMD_def REMOVE_INTERFACE_CMD_def TEST_EXECUTE_REMOTE_CMD_def IOW_def)

text \<open>
  The argument is a 64-bit number: an address of the calling process, whose memory of
  descriptors is \<open>user\<close>, or an identifier.
\<close>

type_synonym user_memory = "64 word \<Rightarrow> interface_t option"

definition user_deref :: "user_memory \<Rightarrow> 64 word \<Rightarrow> interface_t result" where
  "user_deref user p = (case user p of None \<Rightarrow> Inl Bad_pointer | Some x \<Rightarrow> Inr x)"

text \<open>The call of \<open>TEST_EXECUTE_REMOTE_CMD\<close>: the descriptor it allocates is never freed.\<close>

definition test_execute ::
  "kenv \<Rightarrow> interface_t \<Rightarrow> 'z registry_scheme \<Rightarrow> (int \<times> 'z registry_scheme) result" where
  "test_execute e u s =
     bindr (alloc_interface (kmem e) (interface_t.argc u) (retc u) False True False s) (\<lambda>(p, s).
     bindr (deref p s) (\<lambda>x.
     bindr (for_collect 0 (unat (interface_t.argc u)) (copy_argv e (argv x) (argv u))) (\<lambda>args.
     let s = store p (x\<lparr>if_id := if_id u, argv := Some args\<rparr>) s in
     bindr (serialize_rpc_packet (kmem e) (if_id u) (interface_t.argc x) (Some args)) (\<lambda>(packet, packet_len).
     bindr (execute_interface e packet packet_len None s) (\<lambda>(_, s). Inr (0, s))))))"

definition manager_ioctl ::
  "kenv \<Rightarrow> int \<Rightarrow> user_memory \<Rightarrow> u32 \<Rightarrow> 64 word \<Rightarrow> 'z registry_scheme \<Rightarrow>
   (int \<times> 'z registry_scheme) result" where
  "manager_ioctl e pid user ioctl_num ioctl_param s =
     (if ioctl_num = REG_INTERFACE_CMD then
        bindr (user_deref user ioctl_param) (\<lambda>u.
        bindr (register_interface e pid u s) (\<lambda>(r, s). Inr (uint r, s)))
      else if ioctl_num = REMOVE_INTERFACE_CMD then
        bindr (remove_interface (ucast ioctl_param) s) (\<lambda>(r, s). Inr (uint r, s))
      else if ioctl_num = TEST_EXECUTE_REMOTE_CMD then
        bindr (user_deref user ioctl_param) (\<lambda>u. test_execute e u s)
      else Inr (0, s))"

section \<open>Creating and removing the device\<close>

record mstate = kstate +
  manager_major :: "nat option"
  manager_class :: "nat option"

definition register_manager_device :: "kenv \<Rightarrow> 'z mstate_scheme \<Rightarrow> int \<times> 'z mstate_scheme" where
  "register_manager_device e s =
     (case alloc_chrdev_region e (trace s) of Inl err \<Rightarrow> (err, s) | Inr m \<Rightarrow>
     let s = (emit (Chrdev_allocated m) s)\<lparr>manager_major := Some m\<rparr> in
     case class_create e (trace s) of None \<Rightarrow> (- 1, emit (Chrdev_unregistered m) s) | Some c \<Rightarrow>
     let s = (emit (Class_created c) s)\<lparr>manager_class := Some c\<rparr> in
     if \<not> device_create e (trace s) c 0 then
       (- 1, emit (Chrdev_freed m) (emit (Class_destroyed c) s)) else
     let s = emit (Device_created c 0) s in
     if cdev_add e (trace s) m < 0 then
       (- 1, emit (Chrdev_freed m) (emit (Class_destroyed c) (emit (Device_destroyed c 0) s)))
     else (0, emit (Cdev_added m) s))"

text \<open>The variables are null pointers and zero when the device was never created.\<close>

definition unregister_manager_device :: "'z mstate_scheme \<Rightarrow> (int \<times> 'z mstate_scheme) result" where
  "unregister_manager_device s =
     (case (manager_major s, manager_class s) of
        (Some m, Some c) \<Rightarrow> Inr (0, emit (Chrdev_freed m) (emit (Class_destroyed c)
          (emit (Device_destroyed c 0) (emit (Cdev_deleted m) s))))
      | _ \<Rightarrow> Inl Bad_pointer)"

section \<open>The device comes and goes\<close>

lemma mstate_fields_emit [simp]:
  "manager_major (emit ev s) = manager_major s" "manager_class (emit ev s) = manager_class s"
  by (simp_all add: emit_def)

text \<open>
  C25: the creation of the manager device either succeeds and holds a device number, a class, a
  node and a character device, or gives back what it took, except in one case: when the class
  cannot be created the device number is passed to a function that expects a major number, and
  it stays allocated.
\<close>

theorem manager_device_rollback:
  assumes "\<forall>tr err. alloc_chrdev_region e tr = Inl err \<longrightarrow> err < 0"
    and "register_manager_device e s = (r, t)"
  shows "(r = 0 \<and> (\<exists>m c. manager_major t = Some m \<and> manager_class t = Some c \<and> held (trace t) =
      held (trace s) + {#Chrdev_held m, Class_held c, Device_node c 0, Cdev_live m#})) \<or>
    (r < 0 \<and> held (trace t) = held (trace s)) \<or>
    (r < 0 \<and> (\<exists>m. alloc_chrdev_region e (trace s) = Inr m \<and>
      class_create e (Chrdev_allocated m # trace s) = None \<and>
      held (trace t) = add_mset (Chrdev_held m) (held (trace s))))"
proof (cases "alloc_chrdev_region e (trace s)")
  case (Inl err)
  then show ?thesis using assms by (auto simp: register_manager_device_def)
next
  case (Inr m)
  show ?thesis
  proof (cases "class_create e (Chrdev_allocated m # trace s)")
    case (Some c)
    then show ?thesis
      using assms(2) Inr
      by (auto simp: register_manager_device_def Let_def add_mset_commute split: if_splits)
  qed (use assms(2) Inr in \<open>auto simp: register_manager_device_def\<close>)
qed

text \<open>Removing the device after its creation gives back exactly what the creation took.\<close>

theorem manager_device_roundtrip:
  assumes "register_manager_device e s = (0, t)" and "alloc_chrdev_region e (trace s) = Inr m"
  shows "\<exists>u. unregister_manager_device t = Inr (0, u) \<and> held (trace u) = held (trace s)"
  using assms
  by (auto simp: register_manager_device_def unregister_manager_device_def Let_def split: if_splits option.splits)

section \<open>A trial call\<close>

lemma new_interface_frame:
  assumes "table_ok s" and "new_interface x s = (p, t)"
  shows "table_ok t \<and> interfaces_of t = interfaces_of s \<and> KERN_NETLINK t = KERN_NETLINK s \<and>
    trace t = trace s \<and> deref p t = Inr x \<and> Some p \<notin> set (live_slots s)"
proof -
  have ok: "registry_ok s" using assms(1) by (simp add: table_ok_def)
  have wf: "mem_wf s" using ok by (simp add: registry_ok_def)
  have p: "p = next_ptr s" "t = snd (new_interface x s)" using assms(2) by (auto simp: new_interface_def)
  have fresh: "Some p \<notin> set (live_slots s)"
    using wf live_slots_live [OF ok] by (fastforce simp: p live_def mem_wf_def)
  have "registry_ok t \<and> interfaces_of t = interfaces_of s \<and> live_slots t = live_slots s"
    using ok
  proof (rule registry_frame)
    show "mem_wf t" using wf by (auto simp: p(2) new_interface_def mem_wf_def less_Suc_eq)
    show "heap t q = heap s q" if "Some q \<in> set (live_slots s)" for q
      using that fresh by (auto simp: p(2) new_interface_def p(1))
  qed (simp_all add: p(2) new_interface_def)
  then show ?thesis
    using assms(1) wf fresh by (auto simp: table_ok_def p new_interface_def deref_def mem_wf_def)
qed

lemma store_frame:
  assumes "table_ok s" and "Some p \<notin> set (live_slots s)" and "0 < p" "p < next_ptr s"
  shows "table_ok (store p y s) \<and> interfaces_of (store p y s) = interfaces_of s"
proof -
  have ok: "registry_ok s" using assms(1) by (simp add: table_ok_def)
  have "registry_ok (store p y s) \<and> interfaces_of (store p y s) = interfaces_of s \<and>
      live_slots (store p y s) = live_slots s"
    using ok
  proof (rule registry_frame)
    show "mem_wf (store p y s)" using ok assms(3,4) by (auto simp: registry_ok_def mem_wf_def store_def)
    show "heap (store p y s) q = heap s q" if "Some q \<in> set (live_slots s)" for q
      using that assms(2) by (auto simp: store_def)
  qed (simp_all add: store_def)
  then show ?thesis using assms(1) by (simp add: table_ok_def)
qed

text \<open>
  The trial call sends the caller's arguments to the process that serves the interface, and
  the result goes nowhere: the interface waits on no socket afterwards, so the handler of
  results drops what the process answers and the caller never learns it.
\<close>

theorem trial_call_result_lost:
  fixes s :: "'z registry_scheme"
  assumes node: "table_ok s" "distinct (map if_id (interfaces_of s))" "KERN_NETLINK s = Some nl"
      "index_of (if_id u) (interfaces_of s) = Some j" "ctrl (interfaces_of s ! j) = Some c" "if_id u \<noteq> 0"
    and call: "user p = Some u" "argv u = Some args" "length args = unat (interface_t.argc u)"
      "kgrant (kmem e) SIZEOF_INTERFACE" "kgrant (kmem e) (16 * length args)"
      "rpc_fits (kmem e) (map (user_copy e) args)" "\<forall>tr n. nlmsg_new e tr n"
      "packet = rpc_bytes (if_id u) (interface_t.argc u) (map (user_copy e) args)" "length packet < 2 ^ 31"
  shows "\<exists>t. manager_ioctl e pid user TEST_EXECUTE_REMOTE_CMD p s = Inr (0, t) \<and>
    trace t = Nl_unicast nl (client_portid c) packet # trace s \<and> table_ok t \<and>
    (\<forall>res m port. printable_result e (if_id u) res \<longrightarrow> handle_interface_result e res m port t = Inr t)"
proof -
  let ?args = "map (user_copy e) args"
  define x where "x = interface_0\<lparr>if_id := - 1, argc := interface_t.argc u, retc := retc u,
    arg_flags := kzalloc_bytes (kmem e) (unat (interface_t.argc u)),
    ret_flags := kzalloc_bytes (kmem e) (unat (retc u)),
    ctrl := (if kgrant (kmem e) SIZEOF_CTRL then Some ctrl_0 else None),
    argv := kzalloc_array (kmem e) SIZEOF_ATTR_VALUE (unat (interface_t.argc u)) attr_value_0\<rparr>"
  obtain q s1 where q: "new_interface x s = (q, s1)" by fastforce
  have al: "alloc_interface (kmem e) (interface_t.argc u) (retc u) False True False s = Inr (q, s1)"
    using call(4) q by (simp add: alloc_interface_def x_def interface_0_def)
  note f1 = new_interface_frame [OF node(1) q]
  let ?y = "x\<lparr>if_id := if_id u, argv := Some ?args\<rparr>"
  have f2: "table_ok (store q ?y s1) \<and> interfaces_of (store q ?y s1) = interfaces_of s1"
  proof (rule store_frame)
    have "live_slots s1 = live_slots s" using q by (auto simp: new_interface_def live_slots_def slots_of_def)
    then show "Some q \<notin> set (live_slots s1)" using f1 by simp
  qed (use f1 q node(1) in \<open>auto simp: new_interface_def table_ok_def registry_ok_def mem_wf_def\<close>)
  have len: "unat (word_of_nat (length packet) :: u32) = length packet" using call(9) by (simp add: unat_of_nat_u32)
  have ser: "serialize_rpc_packet (kmem e) (if_id u) (interface_t.argc u) (Some ?args)
      = Inr (packet, word_of_nat (length packet))"
    unfolding call(8) by (rule serialize_rpc_ok [OF call(6)]) (simp add: call(3))
  have idp: "interface_id packet = Inr (if_id u)" by (simp add: call(8))
  obtain r t where t: "execute_interface e packet (word_of_nat (length packet)) None (store q ?y s1) = Inr (r, t)"
      "table_ok t" "interfaces_of t = (interfaces_of s)[j := wait_on None (interfaces_of s ! j)]"
      "trace t = Nl_unicast nl (client_portid c) packet # trace s"
    using execute_known [of "store q ?y s1" packet "if_id u" "word_of_nat (length packet)" j c nl e None]
      f1 f2 node call(7) idp len by (auto simp: store_def)
  have io: "manager_ioctl e pid user TEST_EXECUTE_REMOTE_CMD p s = Inr (0, t)"
  proof -
    have x: "argv x = kzalloc_array (kmem e) SIZEOF_ATTR_VALUE (unat (interface_t.argc u)) attr_value_0"
        "interface_t.argc x = interface_t.argc u" by (simp_all add: x_def)
    have "for_collect 0 (unat (interface_t.argc u)) (copy_argv e (argv x) (argv u)) = Inr ?args"
      unfolding x(1) call(2) by (rule copy_argv_all [OF call(3)]) (use call(3,5) in simp)
    then show ?thesis
      using f1 by (simp add: manager_ioctl_def user_deref_def call(1) test_execute_def al x(2) ser t(1))
  qed
  have "handle_interface_result e res m port t = Inr t" if "printable_result e (if_id u) res" for res m port
  proof -
    have "index_of (if_id u) (interfaces_of t) = Some j" unfolding t(3) by (rule index_of_waiting [OF node(4)])
    moreover have "ctrl (interfaces_of t ! j) = Some (c\<lparr>socket := None\<rparr>)"
      using t(3) index_of_SomeD [OF node(4)] node(5) by (simp add: wait_on_def)
    ultimately show ?thesis by (rule result_dropped [OF t(2) _ _ _ that]) simp
  qed
  with io t(2,4) show ?thesis by blast
qed

section \<open>Examples\<close>

definition fresh_node :: mstate where
  "fresh_node = kstate.extend fresh_kernel (mstate.fields None None)"

definition managed_node :: mstate where
  "managed_node = snd (register_manager_device kind_kernel fresh_node)"

lemma fresh_node_trace: "trace fresh_node = []"
  by (simp add: fresh_node_def fresh_kernel_def kstate.defs)

lemma managed_node_created: "register_manager_device kind_kernel fresh_node = (0, managed_node)"
  by (simp add: managed_node_def register_manager_device_def kind_kernel_def)

theorem manager_device_rollback_witness:
  "((0::int) = 0 \<and> (\<exists>m c. manager_major managed_node = Some m \<and> manager_class managed_node = Some c \<and>
      held (trace managed_node) =
      held (trace fresh_node) + {#Chrdev_held m, Class_held c, Device_node c 0, Cdev_live m#})) \<or>
    ((0::int) < 0 \<and> held (trace managed_node) = held (trace fresh_node)) \<or>
    ((0::int) < 0 \<and> (\<exists>m. alloc_chrdev_region kind_kernel (trace fresh_node) = Inr m \<and>
      class_create kind_kernel (Chrdev_allocated m # trace fresh_node) = None \<and>
      held (trace managed_node) = add_mset (Chrdev_held m) (held (trace fresh_node))))"
  by (rule manager_device_rollback [OF _ managed_node_created]) (simp add: kind_kernel_def)

theorem manager_device_roundtrip_witness:
  "\<exists>u. unregister_manager_device managed_node = Inr (0, u) \<and> held (trace u) = held (trace fresh_node)"
  by (rule manager_device_roundtrip [OF managed_node_created, of 0])
    (simp add: kind_kernel_def fresh_node_trace)

definition trial_caller :: interface_t where
  "trial_caller = interface_0\<lparr>if_id := 2, argc := 1, argv := Some [\<lparr>len = 1, addr = PBlk [65]\<rparr>]\<rparr>"

lemma trial_caller_copies:
  "map (user_copy kind_kernel) [\<lparr>len = 1, addr = PBlk [65]\<rparr>] = [\<lparr>len = 1, addr = PBlk [65]\<rparr>]"
  by (simp add: user_copy_def kind_kernel_def)

theorem trial_call_result_lost_witness:
  "\<exists>t. manager_ioctl kind_kernel 42 (\<lambda>_. Some trial_caller) TEST_EXECUTE_REMOTE_CMD 4096 three_registry
      = Inr (0, t) \<and>
    trace t = Nl_unicast 0 (client_portid ctrl_0) (rpc_bytes 2 1 [\<lparr>len = 1, addr = PBlk [65]\<rparr>]) #
      trace three_registry \<and> table_ok t \<and>
    (\<forall>res m port. printable_result kind_kernel (if_id trial_caller) res \<longrightarrow>
      handle_interface_result kind_kernel res m port t = Inr t)"
proof (rule trial_call_result_lost [OF three_table three_distinct _ _ three_second_ctrl,
      where args = "[\<lparr>len = 1, addr = PBlk [65]\<rparr>]"])
  show "rpc_fits (kmem kind_kernel) (map (user_copy kind_kernel) [\<lparr>len = 1, addr = PBlk [65]\<rparr>])"
    unfolding trial_caller_copies
    by (auto simp: kind_kernel_def rpc_fits_def attr_sendable_def attr_readable_def enc_attr_def
        attr_codec.enc_list_def attr_bytes_def intro!: exI [of _ 64] roomy_kmalloc_max)
  show "index_of (if_id trial_caller) (interfaces_of three_registry) = Some 1"
    using three_second by (simp add: trial_caller_def)
  show "length (rpc_bytes 2 1 [\<lparr>len = 1, addr = PBlk [65]\<rparr>]) < 2 ^ 31"
    by (simp add: rpc_bytes_def attr_codec.enc_list_def enc_attr_def attr_bytes_def)
  show "rpc_bytes 2 1 [\<lparr>len = 1, addr = PBlk [65]\<rparr>] = rpc_bytes (if_id trial_caller)
      (interface_t.argc trial_caller) (map (user_copy kind_kernel) [\<lparr>len = 1, addr = PBlk [65]\<rparr>])"
    unfolding trial_caller_copies by (simp add: trial_caller_def)
qed (simp_all add: trial_caller_def three_registry_def kind_kernel_def kgrant_def kmalloc_max_def)

end
