(* ===== verification/Applications.thy ===== *)
theory Applications
  imports Lib_Rpc Manager_Device
begin

text \<open>
  The programs of \<open>test/\<close> that use the system: \<open>activate_add.c\<close> and \<open>activate_greet_user.c\<close> serve
  an interface each, \<open>register_interface.c\<close> only registers one, and \<open>execute_remote_add.c\<close>,
  \<open>execute_remote_greet_user.c\<close> and \<open>execute_greet_user.c\<close> call them. The devices they open are
  arguments: a driver takes a request code, the descriptor passed and the kernel's state.
\<close>

section \<open>Numbers in strings\<close>

text \<open>
  \<open>atoi\<close>: spaces, a sign and digits, up to the first other character. It reads until there is
  one, and a value that is no \<open>int\<close> is undefined.
\<close>

abbreviation (input) is_digit :: "byte \<Rightarrow> bool" where "is_digit c \<equiv> 48 \<le> unat c \<and> unat c \<le> 57"

fun scan_digits :: "nat \<Rightarrow> byte list \<Rightarrow> nat result" where
  "scan_digits v [] = Inl Out_of_bounds"
| "scan_digits v (c # cs) = (if is_digit c then scan_digits (10 * v + (unat c - 48)) cs else Inr v)"

fun skip_spaces :: "byte list \<Rightarrow> byte list" where
  "skip_spaces [] = []"
| "skip_spaces (c # cs) = (if c = 32 \<or> 9 \<le> c \<and> c \<le> 13 then skip_spaces cs else c # cs)"

definition int_range :: "int \<Rightarrow> bool" where
  "int_range v \<longleftrightarrow> - (2 ^ 31) \<le> v \<and> v < 2 ^ 31"

definition atoi :: "cptr \<Rightarrow> int result" where
  "atoi p = bindr (mem_block p) (\<lambda>b.
     bindr (case skip_spaces b of [] \<Rightarrow> Inl Out_of_bounds
       | c # cs \<Rightarrow>
         if c = 45 then bindr (scan_digits 0 cs) (\<lambda>v. Inr (- int v))
         else bindr (scan_digits 0 (if c = 43 then cs else c # cs)) (\<lambda>v. Inr (int v))) (\<lambda>v.
     bindr (require (int_range v) Int_overflow) (\<lambda>_. Inr v)))"

lemma scan_digits_append:
  "\<forall>d \<in> set ds. is_digit d \<Longrightarrow> \<not> is_digit c \<Longrightarrow>
   scan_digits v (ds @ c # r) = Inr (foldl (\<lambda>v d. 10 * v + (unat d - 48)) v ds)"
  by (induction ds arbitrary: v) auto

lemma scan_dec_nat: "scan_digits 0 (dec_nat n @ 0 # r) = Inr n"
  using scan_digits_append [of "dec_nat n" 0 0 r] dec_nat_digits [of _ n] dec_value_dec_nat [of n]
  by (auto simp: dec_value_def)

text \<open>What \<open>sprintf\<close> writes for \<open>%d\<close>, \<open>atoi\<close> reads back.\<close>

lemma atoi_dec_int:
  assumes "int_range n"
  shows "atoi (PBlk (cstring (dec_int n) @ r)) = Inr n"
proof (cases "n < 0")
  case True
  then show ?thesis
    using assms scan_dec_nat [of "nat (- n)" r] by (simp add: atoi_def dec_int_def cstring_def)
next
  case False
  let ?m = "nat n"
  obtain d ds where d: "dec_nat ?m = d # ds" by (cases "dec_nat ?m") (simp_all add: dec_nat.simps [of ?m] split: if_splits)
  then have "is_digit d" using dec_nat_digits [of d ?m] by simp
  then have n: "d \<noteq> 32" "\<not> (9 \<le> d \<and> d \<le> 13)" "d \<noteq> 45" "d \<noteq> 43"
    by (auto simp: word_le_nat_alt)
  have skip: "skip_spaces (d # x) = d # x" for x using n(1,2) by auto
  have "scan_digits 0 (d # (ds @ 0 # r)) = Inr ?m" using scan_dec_nat [of ?m r] by (simp add: d)
  then show ?thesis
    using assms False n(3,4) d skip by (simp add: atoi_def dec_int_def cstring_def del: scan_digits.simps)
qed

section \<open>The functions served\<close>

text \<open>
  \<open>activate_add.c\<close> and \<open>activate_greet_user.c\<close>: each function formats its result into an array of
  256 bytes on the stack, and copies it to a block for \<open>retv[0]\<close>.
\<close>

abbreviation (input) SIZEOF_TMP :: nat where "SIZEOF_TMP \<equiv> 256"

definition return_text ::
  "(nat \<Rightarrow> bool) \<Rightarrow> byte list \<Rightarrow> attr_value list \<Rightarrow> (int \<times> attr_value list) result" where
  "return_text ok text vals =
     (let tmp = cstring text in
     bindr (require (length tmp \<le> SIZEOF_TMP) Out_of_bounds) (\<lambda>_.
     bindr (arr_get (Some vals) 0) (\<lambda>_.
     bindr (require (kgrant ok (length tmp)) Null_deref) (\<lambda>_.
     Inr (0, vals[0 := \<lparr>len = word_of_nat (length tmp), addr = PBlk tmp\<rparr>])))))"

definition add :: "(nat \<Rightarrow> bool) \<Rightarrow> attr_value list \<Rightarrow> attr_value list \<Rightarrow> (int \<times> attr_value list) result" where
  "add ok args vals =
     bindr (arr_get (Some args) 0) (\<lambda>a. bindr (atoi (addr a)) (\<lambda>num1.
     bindr (arr_get (Some args) 1) (\<lambda>a. bindr (atoi (addr a)) (\<lambda>num2.
     bindr (require (int_range (num1 + num2)) Int_overflow) (\<lambda>_.
     return_text ok (dec_int (num1 + num2)) vals)))))"

definition greet_user :: "(nat \<Rightarrow> bool) \<Rightarrow> attr_value list \<Rightarrow> attr_value list \<Rightarrow> (int \<times> attr_value list) result" where
  "greet_user ok args vals =
     bindr (arr_get (Some args) 0) (\<lambda>a. bindr (fmt_s (addr a)) (\<lambda>name.
     return_text ok (ascii ''Hello '' @ name) vals))"

section \<open>Registering\<close>

text \<open>
  A driver answers a request of a process: the value of \<open>unlocked_ioctl\<close> and the kernel's state
  after it. A request on a file that could not be opened reaches no driver; the C library
  turns the errors into -1 and the rest into an \<open>int\<close>.
\<close>

type_synonym 'k driver = "u32 \<Rightarrow> interface_t \<Rightarrow> 'k \<Rightarrow> (int \<times> 'k) result"

definition sys_ioctl :: "'k driver \<Rightarrow> int \<Rightarrow> u32 \<Rightarrow> interface_t \<Rightarrow> 'k \<Rightarrow> (int \<times> 'k) result" where
  "sys_ioctl driver fd cmd x k =
     (if fd < 0 then Inr (- 1, k) else
     bindr (driver cmd x k) (\<lambda>(r, k).
     Inr (if - 4096 < r \<and> r < 0 then - 1 else sint (word_of_int r :: u32), k)))"

text \<open>The manager device behind \<open>/dev/dcm\<close>, for a process whose descriptor is at some address.\<close>

definition manager_driver :: "kenv \<Rightarrow> int \<Rightarrow> 'z registry_scheme driver" where
  "manager_driver e pid cmd x k = manager_ioctl e pid (\<lambda>_. Some x) cmd 4096 k"

abbreviation (input) lit :: "string \<Rightarrow> cptr" where "lit s \<equiv> PBlk (cstring (ascii s))"

definition set_name :: "string \<times> string \<Rightarrow> attr_info" where
  "set_name = (\<lambda>(name, description). \<lparr>attr_name = lit name, attr_description = lit description\<rparr>)"

text \<open>The assignments to the names of \<open>arg_info[0]\<close>, \<open>arg_info[1]\<close> and so on.\<close>

definition set_names :: "(string \<times> string) list \<Rightarrow> attr_info list option \<Rightarrow> attr_info list option result" where
  "set_names names infos = (case infos of
       None \<Rightarrow> if names = [] then Inr None else Inl Null_deref
     | Some xs \<Rightarrow> bindr (require (length names \<le> length xs) Out_of_bounds) (\<lambda>_.
         Inr (Some (map set_name names @ drop (length names) xs))))"

definition set_info ::
  "string \<Rightarrow> string \<Rightarrow> (string \<times> string) list \<Rightarrow> (string \<times> string) list \<Rightarrow> interface_t \<Rightarrow> interface_t result" where
  "set_info name description args rets x = (case info x of None \<Rightarrow> Inl Null_deref | Some i \<Rightarrow>
     bindr (set_names args (arg_info i)) (\<lambda>ai.
     bindr (set_names rets (ret_info i)) (\<lambda>ri.
     Inr (x\<lparr>info := Some \<lparr>info_name = lit name, info_description = lit description,
       arg_info = ai, ret_info = ri\<rparr>\<rparr>))))"

text \<open>
  The request, and the identifier noted in the descriptor. Without one the program ends; the
  result is then \<open>None\<close>.
\<close>

definition note_id :: "ptr \<Rightarrow> interface_t \<Rightarrow> int \<Rightarrow> 'z mem_scheme \<Rightarrow> ptr option \<times> 'z mem_scheme" where
  "note_id p x ret_val s =
     (if ret_val < 0 then (None, s) else (Some p, store p (x\<lparr>if_id := word_of_int ret_val\<rparr>) s))"

definition set_callback :: "nat \<Rightarrow> interface_t \<Rightarrow> interface_t result" where
  "set_callback f x = (case ctrl x of None \<Rightarrow> Inl Null_deref
     | Some c \<Rightarrow> Inr (x\<lparr>ctrl := Some (c\<lparr>callback := f\<rparr>)\<rparr>))"

definition register_add_interface ::
  "(nat \<Rightarrow> bool) \<Rightarrow> attr_value \<Rightarrow> (nat \<Rightarrow> byte list) \<Rightarrow> nat \<Rightarrow> 'k driver \<Rightarrow> int \<Rightarrow> 'z mem_scheme \<Rightarrow> 'k \<Rightarrow>
   ((ptr option \<times> 'z mem_scheme) \<times> 'k) result" where
  "register_add_interface ok junk block f driver fd s k =
     bindr (lib_alloc_interface ok junk block 2 1 True False False s) (\<lambda>(p, s).
     if fd = 0 then Inr ((None, s), k) else
     bindr (deref p s) (\<lambda>x.
     bindr (set_info ''add_number'' ''Add number'' [(''num1'', ''Number 1''), (''num2'', ''Number 2'')]
       [(''return'', ''Result of num1+num2'')] x) (\<lambda>x.
     bindr (set_callback f x) (\<lambda>x.
     bindr (sys_ioctl driver fd REG_INTERFACE_CMD x k) (\<lambda>(ret_val, k).
     Inr (note_id p x ret_val (store p x s), k))))))"

definition register_greet_interface ::
  "(nat \<Rightarrow> bool) \<Rightarrow> attr_value \<Rightarrow> (nat \<Rightarrow> byte list) \<Rightarrow> nat \<Rightarrow> 'k driver \<Rightarrow> int \<Rightarrow> 'z mem_scheme \<Rightarrow> 'k \<Rightarrow>
   ((ptr option \<times> 'z mem_scheme) \<times> 'k) result" where
  "register_greet_interface ok junk block f driver fd s k =
     bindr (lib_alloc_interface ok junk block 1 1 True False False s) (\<lambda>(p, s).
     if fd = 0 then Inr ((None, s), k) else
     bindr (deref p s) (\<lambda>x.
     bindr (set_info ''GreetUser'' ''Say hello to the user :)''
       [(''Username'', ''username of ther user to greet'')]
       [(''Return Value'', ''the formated greeting'')] x) (\<lambda>x.
     bindr (set_callback f x) (\<lambda>x.
     bindr (sys_ioctl driver fd REG_INTERFACE_CMD x k) (\<lambda>(ret_val, k).
     Inr (note_id p x ret_val (store p x s), k))))))"

text \<open>\<open>register_interface\<close> of the library only opens the device and passes the descriptor on.\<close>

definition lib_register_interface :: "'k driver \<Rightarrow> int \<Rightarrow> interface_t \<Rightarrow> 'k \<Rightarrow> (int \<times> 'k) result" where
  "lib_register_interface driver fd x k = sys_ioctl driver fd REG_INTERFACE_CMD x k"

definition register_test_interface ::
  "(nat \<Rightarrow> bool) \<Rightarrow> attr_value \<Rightarrow> (nat \<Rightarrow> byte list) \<Rightarrow> 'k driver \<Rightarrow> int \<Rightarrow> 'z mem_scheme \<Rightarrow> 'k \<Rightarrow>
   ((ptr option \<times> 'z mem_scheme) \<times> 'k) result" where
  "register_test_interface ok junk block driver fd s k =
     bindr (lib_alloc_interface ok junk block 2 1 True False False s) (\<lambda>(p, s).
     bindr (deref p s) (\<lambda>x.
     bindr (set_info ''Test'' ''This interface is used for test''
       [(''Arg0'', ''Argument0''), (''Arg1'', ''Argument1'')] [(''Ret0'', ''Return0'')] x) (\<lambda>x.
     bindr (lib_register_interface driver fd x k) (\<lambda>(ret_val, k).
     Inr (note_id p x ret_val (store p x s), k)))))"

section \<open>Serving\<close>

text \<open>
  \<open>main\<close> of \<open>activate_add.c\<close> and \<open>activate_greet_user.c\<close> after the registration: the array of one
  descriptor, and the library's loop. The result is the messages the process sends.
\<close>

definition activate_main ::
  "(nat \<Rightarrow> bool) \<Rightarrow> callbacks \<Rightarrow> int \<Rightarrow> int \<Rightarrow> u32 \<Rightarrow> int \<Rightarrow> (int \<times> nlmsg) list \<Rightarrow>
   ((ptr option \<times> 'z mem_scheme) \<times> 'k) result \<Rightarrow> (nlmsg list \<times> 'k) result" where
  "activate_main ok callbacks fd bound portid sent ms m =
     bindr m (\<lambda>((p, s), k). case p of None \<Rightarrow> Inr ([], k) | Some p \<Rightarrow>
     bindr (activate_and_listen ok callbacks fd bound portid (Some [Some p]) 1 sent ms s) (\<lambda>msgs.
     Inr (msgs, k)))"

section \<open>Calling\<close>

text \<open>
  The device of a peer answers with a code and what it stored through the array of results: per
  result the length and the bytes.
\<close>

type_synonym 'k call_driver = "u32 \<Rightarrow> interface_t \<Rightarrow> 'k \<Rightarrow> (int \<times> (u32 \<times> byte list) list \<times> 'k) result"

definition EXEC_INTERFACE_CMD :: u32 where "EXEC_INTERFACE_CMD = IOW 101 1 8"

definition peer_driver :: "kenv \<Rightarrow> int \<Rightarrow> 'z kstate_scheme call_driver" where
  "peer_driver e i cmd x k = (if cmd = EXEC_INTERFACE_CMD then peer_ioctl e i x k else Inr (0, [], k))"

text \<open>
  An argument: \<open>malloc(sizeof(length))\<close>, which is four bytes whatever the length of the string,
  and \<open>strcpy\<close> into it.
\<close>

definition string_arg :: "(nat \<Rightarrow> bool) \<Rightarrow> (nat \<Rightarrow> byte list) \<Rightarrow> byte list \<Rightarrow> attr_value result" where
  "string_arg ok block x =
     bindr (require (kgrant ok 4) Null_deref) (\<lambda>_.
     bindr (require (length (cstring x) \<le> 4) Out_of_bounds) (\<lambda>_.
     Inr \<lparr>len = word_of_nat (length (cstring x)), addr = PBlk (cstring x @ drop (length (cstring x)) (block 4))\<rparr>))"

text \<open>What stands in \<open>retv[0].addr\<close> after the call, whose block has \<open>MAX_PAYLOAD\<close> bytes.\<close>

definition result_block :: "attr_value list option \<Rightarrow> (u32 \<times> byte list) list \<Rightarrow> cptr result" where
  "result_block rets stored = bindr (arr_get rets 0) (\<lambda>v. case stored of [] \<Rightarrow> Inr (addr v)
     | (n, x) # _ \<Rightarrow> if x = [] then Inr (addr v) else bindr (mem_block (addr v)) (\<lambda>b.
         bindr (require (length x \<le> length b) Out_of_bounds) (\<lambda>_. Inr (PBlk (x @ drop (length x) b)))))"

text \<open>
  The calling programs: the descriptor with its arguments, the request, and the text printed.
  The code of the request is not looked at.
\<close>

definition execute_add_user ::
  "(nat \<Rightarrow> bool) \<Rightarrow> attr_value \<Rightarrow> (nat \<Rightarrow> byte list) \<Rightarrow> 'k call_driver \<Rightarrow> int \<Rightarrow> u32 \<Rightarrow>
   byte list \<Rightarrow> byte list \<Rightarrow> 'z mem_scheme \<Rightarrow> 'k \<Rightarrow> (byte list \<times> 'k) result" where
  "execute_add_user ok junk block driver fd idv num1 num2 s k =
     bindr (lib_alloc_interface ok junk block 2 1 False True True s) (\<lambda>(p, s).
     bindr (deref p s) (\<lambda>x.
     bindr (arr_get (argv x) 0) (\<lambda>_. bindr (string_arg ok block num1) (\<lambda>a0.
     bindr (arr_get (argv x) 1) (\<lambda>_. bindr (string_arg ok block num2) (\<lambda>a1.
     if fd = 0 then Inr ([], k) else
     bindr (if fd < 0 then Inr (- 1, [], k)
       else driver EXEC_INTERFACE_CMD (x\<lparr>if_id := idv, argv := Some [a0, a1]\<rparr>) k) (\<lambda>(_, stored, k).
     bindr (result_block (retv x) stored) (\<lambda>r.
     bindr (fmt_s r) (\<lambda>text. Inr (text, k))))))))))"

definition execute_greet_user ::
  "(nat \<Rightarrow> bool) \<Rightarrow> attr_value \<Rightarrow> (nat \<Rightarrow> byte list) \<Rightarrow> 'k call_driver \<Rightarrow> int \<Rightarrow> u32 \<Rightarrow>
   byte list \<Rightarrow> 'z mem_scheme \<Rightarrow> 'k \<Rightarrow> (byte list \<times> 'k) result" where
  "execute_greet_user ok junk block driver fd idv username s k =
     bindr (lib_alloc_interface ok junk block 1 1 False True True s) (\<lambda>(p, s).
     bindr (deref p s) (\<lambda>x.
     bindr (arr_get (argv x) 0) (\<lambda>_. bindr (string_arg ok block username) (\<lambda>a0.
     if fd = 0 then Inr ([], k) else
     bindr (if fd < 0 then Inr (- 1, [], k)
       else driver EXEC_INTERFACE_CMD (x\<lparr>if_id := idv, argv := Some [a0]\<rparr>) k) (\<lambda>(_, stored, k).
     bindr (result_block (retv x) stored) (\<lambda>r.
     bindr (fmt_s r) (\<lambda>text. Inr (text, k))))))))"

text \<open>\<open>execute_greet_user.c\<close> calls through the manager device, prints nothing and ends.\<close>

definition trial_greet_user ::
  "(nat \<Rightarrow> bool) \<Rightarrow> attr_value \<Rightarrow> (nat \<Rightarrow> byte list) \<Rightarrow> 'k driver \<Rightarrow> int \<Rightarrow> u32 \<Rightarrow>
   byte list \<Rightarrow> 'z mem_scheme \<Rightarrow> 'k \<Rightarrow> 'k result" where
  "trial_greet_user ok junk block driver fd idv username s k =
     bindr (lib_alloc_interface ok junk block 1 1 False True False s) (\<lambda>(p, s).
     bindr (deref p s) (\<lambda>x.
     bindr (arr_get (argv x) 0) (\<lambda>_. bindr (string_arg ok block username) (\<lambda>a0.
     if fd = 0 then Inr k else
     bindr (sys_ioctl driver fd TEST_EXECUTE_REMOTE_CMD (x\<lparr>if_id := idv, argv := Some [a0]\<rparr>) k) (\<lambda>(_, k).
     Inr k)))))"

text \<open>\<open>main\<close> of this program: an identifier and a name, or nothing happens.\<close>

definition trial_main ::
  "(nat \<Rightarrow> bool) \<Rightarrow> attr_value \<Rightarrow> (nat \<Rightarrow> byte list) \<Rightarrow> 'k driver \<Rightarrow> int \<Rightarrow> byte list list \<Rightarrow>
   'z mem_scheme \<Rightarrow> 'k \<Rightarrow> 'k result" where
  "trial_main ok junk block driver fd args s k =
     (if length args \<noteq> 3 then Inr k else
     bindr (atoi (PBlk (cstring (args ! 1)))) (\<lambda>idv.
     trial_greet_user ok junk block driver fd (word_of_int idv) (args ! 2) s k))"

end
