(* ===== verification/Add_Service.thy ===== *)
theory Add_Service
  imports Applications
begin

text \<open>
  The programs of \<open>test/\<close> at work: strings as the values of a call, the functions on them, the
  registration and activation of \<open>activate_add\<close>, and what a calling program prints.
\<close>

section \<open>Strings as values\<close>

lemma replicate_two [simp]: "replicate 2 x = [x, x]"
  by (simp add: numeral_2_eq_2)

definition text_value :: "byte list \<Rightarrow> attr_value" where
  "text_value x = \<lparr>len = word_of_nat (Suc (length x)), addr = PBlk (cstring x)\<rparr>"

text \<open>A block that begins with a terminated string counts as that string, whatever follows.\<close>

definition string_value :: "byte list \<Rightarrow> attr_value \<Rightarrow> bool" where
  "string_value x v \<longleftrightarrow> Suc (length x) < 2 ^ 32 \<and> len v = word_of_nat (Suc (length x)) \<and>
     (\<exists>r. addr v = PBlk (cstring x @ r))"

lemma string_value_simps:
  assumes "string_value x v"
  shows "attr_readable v" "attr_bytes v = cstring x" "lib_copy v = text_value x"
    "unat (len v) = Suc (length x)" "length (enc_attr v) = 5 + length x" "enc_attr v = enc_attr (text_value x)"
proof -
  obtain r where r: "Suc (length x) < 2 ^ 32" "len v = word_of_nat (Suc (length x))" "addr v = PBlk (cstring x @ r)"
    using assms by (auto simp: string_value_def simp del: of_nat_Suc)
  show u: "unat (len v) = Suc (length x)" using r(1,2) by (simp add: unat_of_nat_u32 del: of_nat_Suc)
  then have n: "len v \<noteq> 0" by (metis nat.distinct(1) unsigned_0)
  show rd: "attr_readable v" using u r(3) by (simp add: attr_readable_def)
  show b: "attr_bytes v = cstring x" using u r(3) by (simp add: attr_bytes_def)
  show "lib_copy v = text_value x"
    using n b r(2) by (simp add: lib_copy_def text_value_def del: of_nat_Suc)
  show "length (enc_attr v) = 5 + length x" by (simp add: enc_attr_def b)
  have "attr_bytes (text_value x) = cstring x"
    using u r(2) by (simp add: attr_bytes_def text_value_def del: of_nat_Suc)
  then show "enc_attr v = enc_attr (text_value x)"
    using b r(2) by (simp add: enc_attr_def text_value_def del: of_nat_Suc)
qed

lemma string_value_text: "Suc (length x) < 2 ^ 32 \<Longrightarrow> string_value x (text_value x)"
  by (simp add: string_value_def text_value_def)

lemma string_values:
  assumes "list_all2 string_value xs vs"
  shows "rpc_bytes idv n vs = rpc_bytes idv n (map text_value xs)" "list_all attr_readable vs"
    "map lib_copy vs = map text_value xs"
  using assms
  by (induction rule: list_all2_induct)
    (auto simp: rpc_bytes_def attr_codec.enc_list_def dest: string_value_simps)

lemma strings_fit:
  assumes "roomy ok 4096" and "list_all2 string_value xs vs" and "length xs \<le> 2"
    and "\<forall>x \<in> set xs. length x < 1000"
  shows "rpc_fits ok vs" "attrs_granted ok vs" "length (rpc_bytes idv n vs) < 2100"
proof -
  have l: "length vs = length xs" using list_all2_lengthD [OF assms(2)] by simp
  have v: "\<exists>x. string_value x v \<and> length x < 1000" if "v \<in> set vs" for v
  proof -
    obtain i where "i < length vs" "v = vs ! i" using \<open>v \<in> set vs\<close> by (auto simp: in_set_conv_nth)
    then show ?thesis using assms(2,4) l by (metis list_all2_nthD2 nth_mem)
  qed
  have "list_all attr_sendable vs"
    using v string_value_simps by (fastforce simp: list_all_iff attr_sendable_def)
  moreover have e: "length (attr_codec.enc_list vs) \<le> 1004 * length vs"
  proof -
    have "\<forall>v \<in> set vs. length (enc_attr v) \<le> 1004" using v string_value_simps(5) by fastforce
    then show ?thesis by (induction vs) (auto simp: attr_codec.enc_list_def)
  qed
  moreover have "8 + length (attr_codec.enc_list vs) \<le> 4096" using e l assms(3) by simp
  ultimately show "rpc_fits ok vs" using assms(1,3) l by (auto simp: rpc_fits_def)
  show "attrs_granted ok vs"
    using v string_value_simps(4) roomy_grants [OF assms(1)] l assms(3)
    by (fastforce simp: attrs_granted_def list_all_iff)
  show "length (rpc_bytes idv n vs) < 2100" using e l assms(3) by (simp add: rpc_bytes_def)
qed

lemma return_text_ok:
  "roomy ok 4096 \<Longrightarrow> length x < 256 \<Longrightarrow> vals \<noteq> [] \<Longrightarrow>
   return_text ok x vals = Inr (0, vals[0 := text_value x])"
  using roomy_grants [of ok 4096 "Suc (length x)"]
  by (simp add: return_text_def text_value_def)

lemma length_dec_int: "int_range n \<Longrightarrow> length (dec_int n) \<le> 11"
proof -
  assume "int_range n"
  then have "nat n < 10 ^ Suc 9" "nat (- n) < 10 ^ Suc 9" by (auto simp: int_range_def)
  from this [THEN length_dec_nat] show ?thesis by (auto simp: dec_int_def)
qed

lemma add_ok:
  assumes "roomy ok 4096" and "int_range a" "int_range b" "int_range (a + b)" and "vals \<noteq> []"
  shows "add ok [text_value (dec_int a), text_value (dec_int b)] vals
    = Inr (0, vals[0 := text_value (dec_int (a + b))])"
  using return_text_ok [OF assms(1) _ assms(5), of "dec_int (a + b)"] length_dec_int [OF assms(4)]
    atoi_dec_int [OF assms(2), of "[]"] atoi_dec_int [OF assms(3), of "[]"] assms(4)
  by (simp add: add_def text_value_def)

lemma greet_overflows:
  assumes "0 \<notin> set name" and "250 \<le> length name"
  shows "greet_user ok [text_value name] vals = Inl Out_of_bounds"
proof -
  have "fmt_s (PBlk (cstring name)) = Inr name"
    using assms(1) by (simp add: fmt_s_def) (simp add: cstring_def)
  then show ?thesis using assms(2) by (simp add: greet_user_def text_value_def return_text_def ascii_def)
qed

lemma lib_alloc_called:
  assumes "roomy ok 4096" and "unat a \<le> 16" and "mem_wf s"
  shows "\<exists>x s'. lib_alloc_interface ok junk block a 1 False True True s = Inr (next_ptr s, s') \<and>
    deref (next_ptr s) s' = Inr x \<and> interface_t.argc x = a \<and> retc x = 1 \<and>
    argv x = Some (replicate (unat a) junk) \<and> retv x = Some [junk\<lparr>addr := PBlk (block MAX_PAYLOAD)\<rparr>]"
  using assms(2,3) roomy_grants [OF assms(1)]
  by (simp add: lib_alloc_interface_def lib_flags_def lib_alloc_retv_def malloc_array_def new_interface_def
      deref_def mem_wf_def)

section \<open>The calling side\<close>

lemma fmt_s_cstring: "0 \<notin> set x \<Longrightarrow> fmt_s (PBlk (cstring x @ r)) = Inr x"
  by (simp add: fmt_s_def strlen_def) (simp add: cstring_def)

lemma string_arg_ok:
  assumes "roomy ok 4096" and "length x \<le> 3"
  shows "\<exists>v. string_arg ok block x = Inr v \<and> string_value x v"
  using roomy_grants [OF assms(1), of 4] assms(2) by (simp add: string_arg_def string_value_def)

text \<open>What the program hands to the device of the peer.\<close>

definition add_request :: "u32 \<Rightarrow> byte list \<Rightarrow> byte list \<Rightarrow> interface_t \<Rightarrow> bool" where
  "add_request idv num1 num2 u \<longleftrightarrow> if_id u = idv \<and> interface_t.argc u = 2 \<and> retc u = 1 \<and>
     (\<exists>v0 v1 w. argv u = Some [v0, v1] \<and> string_value num1 v0 \<and> string_value num2 v1 \<and> retv u = Some [w])"

lemma add_client_prints:
  assumes ok: "roomy ok 4096" "mem_wf s" "0 < fd" "length (block MAX_PAYLOAD) = MAX_PAYLOAD"
    and args: "length num1 \<le> 3" "length num2 \<le> 3"
    and driver: "\<And>u. add_request idv num1 num2 u \<Longrightarrow>
      \<exists>k'. driver EXEC_INTERFACE_CMD u k = Inr (0, [(n, cstring x)], k') \<and> P k'"
    and x: "0 \<notin> set x" "length x < MAX_PAYLOAD"
  shows "\<exists>k'. execute_add_user ok junk block driver fd idv num1 num2 s k = Inr (x, k') \<and> P k'"
proof -
  obtain d s' where d: "lib_alloc_interface ok junk block 2 1 False True True s = Inr (next_ptr s, s')"
      "deref (next_ptr s) s' = Inr d" "interface_t.argc d = 2" "retc d = 1" "argv d = Some [junk, junk]"
      "retv d = Some [junk\<lparr>addr := PBlk (block MAX_PAYLOAD)\<rparr>]"
    using lib_alloc_called [OF ok(1), of 2 s junk block] ok(2) by auto
  obtain v0 v1 where v: "string_arg ok block num1 = Inr v0" "string_value num1 v0"
      "string_arg ok block num2 = Inr v1" "string_value num2 v1"
    using string_arg_ok [OF ok(1) args(1)] string_arg_ok [OF ok(1) args(2)] by blast
  let ?u = "d\<lparr>if_id := idv, argv := Some [v0, v1]\<rparr>"
  have "add_request idv num1 num2 ?u" using d v by (simp add: add_request_def)
  from driver [OF this] obtain k' where k': "driver EXEC_INTERFACE_CMD ?u k = Inr (0, [(n, cstring x)], k')" "P k'"
    by blast
  have "execute_add_user ok junk block driver fd idv num1 num2 s k = Inr (x, k')"
    using ok(3,4) x
    by (simp add: execute_add_user_def d v k' result_block_def fmt_s_cstring)
  with k'(2) show ?thesis by blast
qed

lemma user_copy_string:
  assumes "user_blocks_copied e" and "string_value x v"
  shows "user_copy e v = text_value x"
proof -
  obtain r where r: "addr v = PBlk (cstring x @ r)" "len v = word_of_nat (Suc (length x))"
    using assms(2) by (auto simp: string_value_def simp del: of_nat_Suc)
  have "memdup_user e (PBlk (cstring x @ r)) (len v) = PBlk (cstring x)"
    using assms(1) string_value_simps(4) [OF assms(2)] by (simp add: user_blocks_copied_def)
  then show ?thesis by (simp add: user_copy_def text_value_def r del: of_nat_Suc)
qed

lemma device_adds:
  assumes ok: "peer_listed i s" and j: "index_of idv (peer_view i s) = Some j"
    and t: "interface_t.argc (peer_view i s ! j) = 2" "retc (peer_view i s ! j) = 1"
    and e: "roomy (kmem e) 4096" "user_blocks_copied e"
    and peer: "reachable_peer e (int i) a k s" "sends_ok e k"
    and u: "add_request idv num1 num2 u" "length num1 < 1000" "length num2 < 1000"
    and reply: "stream_of e k body" "0 < length body" "length body < 4096"
      "unserialize_rpc_packet (kmem e) body (word_of_nat (length body)) = Inr ([attr_copy (text_value x)], c)"
      "Suc (length x) < 2 ^ 32"
  shows "\<exists>w. peer_driver e (int i) EXEC_INTERFACE_CMD u s
      = Inr (0, [(word_of_nat (Suc (length x)), cstring x)], w) \<and>
    trace w = [Sock_released k, Sock_received k (length body), Sock_received k 4] @
      request_events k a (rpc_bytes idv 2 [text_value num1, text_value num2]) @ trace s"
proof -
  obtain v0 v1 r where u': "if_id u = idv" "interface_t.argc u = 2" "retc u = 1" "argv u = Some [v0, v1]"
      "string_value num1 v0" "string_value num2 v1" "retv u = Some [r]"
    using u(1) by (auto simp: add_request_def)
  let ?args = "map (user_copy e) [v0, v1]" and ?p = "rpc_bytes idv 2 [text_value num1, text_value num2]"
  note cp = user_copy_string [OF e(2) u'(5)] user_copy_string [OF e(2) u'(6)]
  have "list_all2 string_value [num1, num2] ?args"
    using u(2,3) by (simp add: cp string_value_text)
  note fit = strings_fit [OF e(1) this]
  have fits: "rpc_fits (kmem e) ?args" and len: "length ?p < 2 ^ 31"
    using fit(1) fit(3) [of idv 2] u(2,3) by (simp_all add: cp)
  have ser: "serialize_rpc_packet (kmem e) (if_id u) (interface_t.argc u) (Some ?args) = Inr (?p, word_of_nat (length ?p))"
    using serialize_rpc_ok [OF fits, of 2 idv] by (simp add: u' cp)
  have g: "kgrant (kmem e) n" if "n \<le> 4096" for n using roomy_grants [OF e(1)] that by simp
  have view: "index_of (if_id u) (peer_view i s) = Some j" "request_fits u (peer_view i s ! j)"
    using j t u' by (simp_all add: request_fits_def)
  have sv: "string_value x (text_value x)" by (rule string_value_text [OF reply(5)])
  obtain w where w: "peer_ioctl e (int i) u s
      = Inr (0, map (\<lambda>v. (len v, attr_bytes v)) [attr_copy (text_value x)], w)"
      "trace w = [Sock_released k, Sock_received k (length body), Sock_received k 4] @
        request_events k a ?p @ trace s"
    using device_call_ok [OF ok view u'(4) _ u'(7) _ _ peer ser len reply(1,2) _ _ reply(4)] g reply(3) u'(2)
    by auto
  have "len (text_value x) = word_of_nat (Suc (length x))" by (simp add: text_value_def)
  with w string_value_simps(1,2) [OF sv] show ?thesis by (simp add: peer_driver_def del: of_nat_Suc)
qed

section \<open>Properties\<close>

text \<open>
  C39: a name of 250 to 495 characters, which the kernel passes on like any other, overflows the
  stack of the process that serves \<open>greet_user\<close>.
\<close>

theorem long_name_smashes_process:
  assumes "describes a s xs" and "index_of idv xs = Some j" and "ctrl (xs ! j) = Some c"
    and "interface_t.argc (xs ! j) = 1" and "retc (xs ! j) = 1" and "callbacks (callback c) = greet_user ok"
    and "roomy ok 4096" and "0 < r"
    and "0 \<notin> set name" and "250 \<le> length name" and "length name \<le> 495"
  shows "rpc_step ok callbacks portid (Some a) (int (length a))
      (r, call_message (rpc_bytes idv 1 [text_value name]) behind p) s = Inl Out_of_bounds"
proof -
  have v: "string_value name (text_value name)" using assms(11) by (intro string_value_text) simp
  then have vs: "list_all2 string_value [name] [text_value name]" by simp
  have granted: "attrs_granted ok [text_value name]"
    by (rule strings_fit [OF assms(7) vs]) (use assms(11) in simp_all)
  have len: "length (rpc_bytes idv (interface_t.argc (xs ! j)) [text_value name]) \<le> MAX_PAYLOAD"
    using string_value_simps(5) [OF v] assms(11) by (simp add: rpc_bytes_def attr_codec.enc_list_def)
  have "kgrant ok (SIZEOF_ATTR_VALUE * unat (retc (xs ! j)))" using roomy_grants [OF assms(7)] assms(5) by simp
  from rpc_step_calls [OF assms(1,2) string_values(2) [OF vs] granted len assms(8) _ assms(3) this]
  show ?thesis
    using assms(4-6) string_values(3) [OF vs] greet_overflows [OF assms(9,10)] by simp
qed

lemma lib_alloc_arguments:
  assumes "roomy ok 4096" and "unat a \<le> 16" and "mem_wf s"
  shows "\<exists>x s'. lib_alloc_interface ok junk block a 1 False True b s = Inr (next_ptr s, s') \<and>
    deref (next_ptr s) s' = Inr x \<and> argv x = Some (replicate (unat a) junk)"
  using assms(2,3) roomy_grants [OF assms(1)]
  by (cases b) (simp_all add: lib_alloc_interface_def lib_flags_def lib_alloc_retv_def malloc_array_def new_interface_def
      deref_def mem_wf_def)

text \<open>
  C40: each of the three calling programs reserves four bytes for an argument, whatever its length:
  a number or a name of more than three characters is written past the end of its block,
  before anything is called.
\<close>

theorem client_argument_overflows:
  assumes "roomy ok 4096" and "mem_wf s"
  shows "(4 \<le> length num1 \<or> 4 \<le> length num2 \<longrightarrow>
      execute_add_user ok junk block driver fd idv num1 num2 s k = Inl Out_of_bounds) \<and>
    (4 \<le> length username \<longrightarrow>
      execute_greet_user ok junk block driver fd idv username s k = Inl Out_of_bounds \<and>
      trial_greet_user ok junk block manager fd idv username s k = Inl Out_of_bounds)"
proof (intro conjI impI)
  have arg: "string_arg ok block x = (if 4 \<le> length x then Inl Out_of_bounds else
      Inr \<lparr>len = word_of_nat (length (cstring x)), addr = PBlk (cstring x @ drop (length (cstring x)) (block 4))\<rparr>)" for x
    using roomy_grants [OF assms(1)] by (simp add: string_arg_def not_le)
  show "execute_add_user ok junk block driver fd idv num1 num2 s k = Inl Out_of_bounds"
    if "4 \<le> length num1 \<or> 4 \<le> length num2"
    using that lib_alloc_arguments [OF assms(1) _ assms(2), of 2 junk block True]
    by (auto simp: execute_add_user_def arg)
  assume name: "4 \<le> length username"
  show "execute_greet_user ok junk block driver fd idv username s k = Inl Out_of_bounds"
    using name lib_alloc_arguments [OF assms(1) _ assms(2), of 1 junk block True]
    by (auto simp: execute_greet_user_def arg)
  show "trial_greet_user ok junk block manager fd idv username s k = Inl Out_of_bounds"
    using name lib_alloc_arguments [OF assms(1) _ assms(2), of 1 junk block False]
    by (auto simp: trial_greet_user_def arg)
qed

section \<open>A process that serves\<close>

definition add_info :: info_t where
  "add_info = \<lparr>info_name = lit ''add_number'', info_description = lit ''Add number'',
     arg_info = Some (map set_name [(''num1'', ''Number 1''), (''num2'', ''Number 2'')]),
     ret_info = Some [set_name (''return'', ''Result of num1+num2'')]\<rparr>"

definition add_descriptor :: "nat \<Rightarrow> interface_t" where
  "add_descriptor f = interface_0\<lparr>if_id := - 1, argc := 2, retc := 1, arg_flags := PBlk [0, 0],
     ret_flags := PBlk [0], ctrl := Some (ctrl_0\<lparr>callback := f\<rparr>), info := Some add_info\<rparr>"

lemma string_copied:
  "user_strings_copied e \<Longrightarrow> 0 \<notin> set x \<Longrightarrow> length x < 65535 \<Longrightarrow> dup_user e (PBlk (cstring x)) = PBlk (cstring x)"
  using dup_user_string [of e x "[]"] by simp

lemma add_info_copied: "user_strings_copied e \<Longrightarrow> copied_info e add_info = add_info"
  by (simp add: copied_info_def copied_attr_def add_info_def set_name_def string_copied ascii_def)

lemma add_descriptor_ok: "user_descriptor_ok (add_descriptor f)"
  by (simp add: user_descriptor_ok_def add_descriptor_def add_info_def attr_array_ok_def)

lemma add_registered:
  assumes "roomy ok 4096" and "mem_wf s" and "0 < fd"
    and "registry_ok k" and "kmem_upto e (112 + 8 * (unat (INTERFACE_CAPACITY k) + 10))"
    and "unat (INTERFACE_COUNT k) < 2 ^ 31" and "unat (ALLOCATED_ID k) < 2 ^ 31"
  shows "\<exists>s' k'. register_add_interface ok junk block f (manager_driver e pid) fd s k
      = Inr ((Some (next_ptr s), s'), k') \<and> registry_ok k' \<and>
    interfaces_of k' = interfaces_of k @ [registered e pid (add_descriptor f) k] \<and>
    describes [Some (next_ptr s)] s' [(add_descriptor f)\<lparr>if_id := ALLOCATED_ID k\<rparr>] \<and>
    KERN_NETLINK k' = KERN_NETLINK k"
proof -
  have g: "kgrant ok n" if "n \<le> 4096" for n using roomy_grants [OF assms(1)] that by simp
  have "kmem_upto e (register_bytes (add_descriptor f) k)"
    using assms(5) by (simp add: register_bytes_def add_descriptor_def)
  from register_run [OF assms(4) add_descriptor_ok this assms(6)] obtain k' where
    k': "register_interface e pid (add_descriptor f) k = Inr (ALLOCATED_ID k, k')" "registry_ok k'"
      "interfaces_of k' = interfaces_of k @ [registered e pid (add_descriptor f) k]"
      "KERN_NETLINK k' = KERN_NETLINK k" by blast
  let ?p = "next_ptr s"
  let ?s = "store ?p ((add_descriptor f)\<lparr>if_id := ALLOCATED_ID k\<rparr>)
    (store ?p (add_descriptor f) (snd (new_interface (add_descriptor f) s)))"
  have p: "?p \<noteq> 0" using assms(2) by (simp add: mem_wf_def)
  have id: "\<not> sint (ALLOCATED_ID k) < 0" using sint_small_u32 [OF assms(7)] by simp
  have dr: "manager_driver e pid REG_INTERFACE_CMD (add_descriptor f) k = Inr (uint (ALLOCATED_ID k), k')"
    by (simp add: manager_driver_def manager_ioctl_def user_deref_def k')
  define x0 where "x0 = interface_0\<lparr>if_id := - 1, argc := 2, retc := 1, arg_flags := PBlk [0, 0],
    ret_flags := PBlk [0], ctrl := Some ctrl_0,
    info := Some (info_0\<lparr>arg_info := Some [attr_info_junk, attr_info_junk], ret_info := Some [attr_info_junk]\<rparr>)\<rparr>"
  have al: "lib_alloc_interface ok junk block 2 1 True False False s = Inr (new_interface x0 s)"
    by (simp add: lib_alloc_interface_def lib_flags_def lib_alloc_info_def malloc_array_def g interface_0_def x0_def)
  have named: "set_info ''add_number'' ''Add number'' [(''num1'', ''Number 1''), (''num2'', ''Number 2'')]
      [(''return'', ''Result of num1+num2'')] x0 = Inr ((add_descriptor f)\<lparr>ctrl := Some ctrl_0\<rparr>)"
    by (simp add: set_info_def set_names_def add_descriptor_def add_info_def interface_0_def info_0_def x0_def)
  have called: "set_callback f ((add_descriptor f)\<lparr>ctrl := Some ctrl_0\<rparr>) = Inr (add_descriptor f)"
    by (simp add: set_callback_def add_descriptor_def)
  have "deref ?p (snd (new_interface x0 s)) = Inr x0" using p by (simp add: new_interface_def deref_def)
  moreover have "store ?p y (snd (new_interface x0 s)) = store ?p y (snd (new_interface (add_descriptor f) s))" for y
    by (simp add: new_interface_def store_def)
  ultimately have "register_add_interface ok junk block f (manager_driver e pid) fd s k = Inr ((Some ?p, ?s), k')"
    using assms(3) id dr
    by (simp add: register_add_interface_def al named called sys_ioctl_def note_id_def new_interface_def [of x0])
  moreover have "describes [Some ?p] ?s [(add_descriptor f)\<lparr>if_id := ALLOCATED_ID k\<rparr>]"
    using p by (simp add: describes_def store_def)
  ultimately show ?thesis using k'(2-4) by blast
qed

text \<open>
  The whole start of the program: its memory \<open>s'\<close> holds the descriptor with the identifier, and
  the kernel's list ends with the activated copy of it.
\<close>

lemma add_started:
  assumes "roomy ok 4096" and "mem_wf s" and "0 < fd"
    and "registry_ok k" and "kmem_upto e (112 + 8 * (unat (INTERFACE_CAPACITY k) + 10))"
    and "unat (INTERFACE_COUNT k) < 2 ^ 31" and "unat (ALLOCATED_ID k) < 2 ^ 31"
    and "distinct (map if_id (interfaces_of k))" and "ALLOCATED_ID k \<notin> if_id ` set (interfaces_of k)"
    and "0 \<le> sfd" and "0 \<le> bound" and "0 \<le> sent"
  shows "\<exists>hello s' k' t. register_add_interface ok junk block f (manager_driver e pid) fd s k
      = Inr ((Some (next_ptr s), s'), k') \<and>
    activate_main ok callbacks sfd bound portid sent []
      (register_add_interface ok junk block f (manager_driver e pid) fd s k) = Inr ([hello], k') \<and>
    handle_netlink_income e hello k' = Inr t \<and> registry_ok t \<and>
    interfaces_of t = interfaces_of k @ [set_ctrl (activate portid) (registered e pid (add_descriptor f) k)] \<and>
    describes [Some (next_ptr s)] s' [(add_descriptor f)\<lparr>if_id := ALLOCATED_ID k\<rparr>] \<and>
    KERN_NETLINK k' = KERN_NETLINK k"
proof -
  let ?y = "registered e pid (add_descriptor f) k"
  obtain s' k' where k': "register_add_interface ok junk block f (manager_driver e pid) fd s k
      = Inr ((Some (next_ptr s), s'), k')" "registry_ok k'" "interfaces_of k' = interfaces_of k @ [?y]"
      "describes [Some (next_ptr s)] s' [(add_descriptor f)\<lparr>if_id := ALLOCATED_ID k\<rparr>]"
      "KERN_NETLINK k' = KERN_NETLINK k"
    using add_registered [OF assms(1-7)] by blast
  have y: "if_id ?y = ALLOCATED_ID k" by (simp add: registered_def)
  have d: "distinct (map if_id (interfaces_of k'))" using assms(8,9) by (simp add: k'(3) y)
  have "kgrant ok (4 * (length [(add_descriptor f)\<lparr>if_id := ALLOCATED_ID k\<rparr>] + 1))"
    using roomy_grants [OF assms(1)] by simp
  from handshake_ok [where portid = portid and e = e, OF k'(4) _ this k'(2) d] obtain hello t where
    h: "activation_message ok portid (Some [Some (next_ptr s)]) 1 s' = Inr hello"
      "handle_netlink_income e hello k' = Inr t" "registry_ok t"
      "interfaces_of t = activated_by portid [ALLOCATED_ID k] (interfaces_of k @ [?y])"
    by (auto simp: k'(3))
  have "interfaces_of t = interfaces_of k @ [set_ctrl (activate portid) ?y]"
    using assms(9) y unfolding h(4) by (auto simp: activated_by_def image_iff intro!: map_idI)
  moreover have "activate_main ok callbacks sfd bound portid sent []
      (register_add_interface ok junk block f (manager_driver e pid) fd s k) = Inr ([hello], k')"
    using assms(10-12) by (simp add: activate_main_def k'(1) activate_and_listen_def init_netlink_client_def h(1))
  ultimately show ?thesis using h(2,3) k' by blast
qed

text \<open>
  C9: \<open>activate_add\<close> becomes callable: it registers with the kernel, notes the identifier it
  gets, and its handshake activates exactly this interface; the list then ends with an
  interface of two arguments and one result, under the names the program gave it, that leads to
  the port of the process. The other interfaces are as before.
\<close>

theorem add_application_ready:
  assumes "roomy ok 4096" and "mem_wf s" and "0 < fd"
    and "registry_ok k" and "kmem_upto e (112 + 8 * (unat (INTERFACE_CAPACITY k) + 10))"
    and "unat (INTERFACE_COUNT k) < 2 ^ 31" and "unat (ALLOCATED_ID k) < 2 ^ 31"
    and "distinct (map if_id (interfaces_of k))" and "ALLOCATED_ID k \<notin> if_id ` set (interfaces_of k)"
    and "user_strings_copied e" and "0 \<le> sfd" and "0 \<le> bound" and "0 \<le> sent"
  shows "\<exists>hello k' t x c. activate_main ok callbacks sfd bound portid sent []
      (register_add_interface ok junk block f (manager_driver e pid) fd s k) = Inr ([hello], k') \<and>
    handle_netlink_income e hello k' = Inr t \<and> registry_ok t \<and>
    interfaces_of t = interfaces_of k @ [x] \<and> if_id x = ALLOCATED_ID k \<and> interface_t.argc x = 2 \<and>
    retc x = 1 \<and> info x = Some add_info \<and> ctrl x = Some c \<and> activated c = 1 \<and>
    client_portid c = portid \<and> bind_pid c = pid"
proof -
  let ?x = "set_ctrl (activate portid) (registered e pid (add_descriptor f) k)"
  have "if_id ?x = ALLOCATED_ID k \<and> interface_t.argc ?x = 2 \<and> retc ?x = 1 \<and> info ?x = Some add_info"
    using assms(10) by (simp add: registered_def blank_interface_def add_descriptor_def add_info_copied)
  moreover have "ctrl ?x = Some (activate portid (ctrl_0\<lparr>bind_pid := pid, proc_entry := entry_for e pid k\<rparr>))"
    by (simp add: registered_def)
  ultimately show ?thesis
    using add_started [where callbacks = callbacks and portid = portid and junk = junk and block = block
        and f = f and pid = pid, OF assms(1-9,11-13)] by (fastforce simp: activate_def)
qed

section \<open>Examples\<close>

definition greet_memory :: mem where
  "greet_memory = \<lparr>heap = [1 \<mapsto> (blank_interface 1 1)\<lparr>if_id := 2\<rparr>], next_ptr = 2, trace = []\<rparr>"

definition new_process :: mem where
  "new_process = \<lparr>heap = Map.empty, next_ptr = 1, trace = []\<rparr>"

theorem long_name_smashes_process_witness:
  "rpc_step kmalloc_max (\<lambda>_. greet_user kmalloc_max) 77 (Some [Some 1]) (int (length [Some (1 :: nat)]))
     (1, call_message (rpc_bytes 2 1 [text_value (replicate 300 65)]) [] 0) greet_memory = Inl Out_of_bounds"
  by (rule long_name_smashes_process [where xs = "[(blank_interface 1 1)\<lparr>if_id := 2\<rparr>]" and j = 0 and c = ctrl_0])
    (simp_all add: describes_def greet_memory_def blank_interface_def roomy_kmalloc_max)

theorem client_argument_overflows_witness:
  "execute_add_user kmalloc_max attr_value_0 (\<lambda>n. replicate n 0) (\<lambda>cmd x k. Inr (0, [], k)) 3 2
     (dec_int 1234) (dec_int 5) new_process () = Inl Out_of_bounds \<and>
   execute_greet_user kmalloc_max attr_value_0 (\<lambda>n. replicate n 0) (\<lambda>cmd x k. Inr (0, [], k)) 3 2
     (ascii ''alice'') new_process () = Inl Out_of_bounds \<and>
   trial_greet_user kmalloc_max attr_value_0 (\<lambda>n. replicate n 0) (\<lambda>cmd x k. Inr (0, k)) 3 2
     (ascii ''alice'') new_process () = Inl Out_of_bounds"
proof -
  have "roomy kmalloc_max 4096" "mem_wf new_process"
    by (simp_all add: roomy_kmalloc_max new_process_def mem_wf_def)
  moreover have "4 \<le> length (dec_int 1234)" "4 \<le> length (ascii ''alice'')"
    by (simp_all add: dec_int_def dec_nat.simps ascii_def)
  ultimately show ?thesis by (intro conjI) (simp_all add: client_argument_overflows)
qed

theorem add_application_ready_witness:
  "\<exists>hello k' t x c. activate_main kmalloc_max (\<lambda>_. add kmalloc_max) 3 0 77 0 []
      (register_add_interface kmalloc_max attr_value_0 (\<lambda>n. replicate n 0) 1 (manager_driver kind_kernel 42) 4
        new_process empty_registry) = Inr ([hello], k') \<and>
    handle_netlink_income kind_kernel hello k' = Inr t \<and> registry_ok t \<and>
    interfaces_of t = interfaces_of empty_registry @ [x] \<and> if_id x = ALLOCATED_ID empty_registry \<and>
    interface_t.argc x = 2 \<and> retc x = 1 \<and> info x = Some add_info \<and> ctrl x = Some c \<and> activated c = 1 \<and>
    client_portid c = 77 \<and> bind_pid c = 42"
proof (rule add_application_ready [OF _ _ _ empty_registry_ok _ _ _ _ _ kind_kernel_copies])
  show "kmem_upto kind_kernel (112 + 8 * (unat (INTERFACE_CAPACITY empty_registry) + 10))"
    by (rule kind_kernel_mem) (simp add: empty_registry_def)
qed (simp_all add: roomy_kmalloc_max new_process_def mem_wf_def empty_registry_def interfaces_of_def
    live_slots_def slots_of_def)

end
