(* ===== verification/Procfs_Entries.thy ===== *)
theory Procfs_Entries
  imports Registry Resources
begin

text \<open>
  What the procfs side of the module does on a well-formed registry: the text of an entry is the
  concatenation of the texts of the process's interfaces, an interface with a long description
  overflows the buffer of the formatter, and unloading removes a shared entry more than once.
\<close>

section \<open>The text of an interface\<close>

definition shown :: "cptr \<Rightarrow> byte list" where
  "shown p = (case fmt_s p of Inl _ \<Rightarrow> [] | Inr x \<Rightarrow> x)"

definition showable :: "cptr \<Rightarrow> bool" where
  "showable p \<longleftrightarrow> fmt_s p \<in> range Inr"

definition attr_line :: "string \<Rightarrow> attr_info list option \<Rightarrow> cptr \<Rightarrow> nat \<Rightarrow> byte list" where
  "attr_line what infos flags i = (case (infos, flags) of
     (Some as, PBlk f) \<Rightarrow> attr_text what i (f ! i) (shown (attr_name (as ! i))) (shown (attr_description (as ! i)))
   | _ \<Rightarrow> [])"

definition attrs_showable :: "string \<Rightarrow> attr_info list option \<Rightarrow> cptr \<Rightarrow> u32 \<Rightarrow> bool" where
  "attrs_showable what infos flags n \<longleftrightarrow> n = 0 \<or> (\<exists>as f. infos = Some as \<and> flags = PBlk f \<and>
     unat n \<le> length as \<and> unat n \<le> length f \<and>
     (\<forall>i<unat n. showable (attr_name (as ! i)) \<and> showable (attr_description (as ! i)) \<and>
        length (attr_line what infos flags i) < 1280))"

definition interface_text :: "interface_t \<Rightarrow> byte list" where
  "interface_text x = (case info x of None \<Rightarrow> [] | Some i \<Rightarrow>
     header_text (if_id x) (shown (info_name i)) (shown (info_description i)) @
     section_text ''arguments:'' @
     concat (map (attr_line ''arg'' (arg_info i) (arg_flags x)) [0..<unat (argc x)]) @
     section_text ''return_values:'' @
     concat (map (attr_line ''ret'' (ret_info i) (ret_flags x)) [0..<unat (retc x)]))"

definition interface_showable :: "interface_t \<Rightarrow> bool" where
  "interface_showable x \<longleftrightarrow> (\<exists>i. info x = Some i \<and> showable (info_name i) \<and>
     showable (info_description i) \<and>
     length (header_text (if_id x) (shown (info_name i)) (shown (info_description i))) < 1280 \<and>
     attrs_showable ''arg'' (arg_info i) (arg_flags x) (argc x) \<and>
     attrs_showable ''ret'' (ret_info i) (ret_flags x) (retc x))"

lemma fmt_s_shown: "showable p \<Longrightarrow> fmt_s p = Inr (shown p)"
  by (auto simp: showable_def shown_def)

lemma ascii_null [simp]: "0 \<notin> set (ascii ''(null)'')"
  by (simp add: ascii_def)

lemma shown_PNull [simp]: "shown PNull = ascii ''(null)''"
  by (simp add: shown_def fmt_s_def)

lemma shown_no_nul: "0 \<notin> set (shown p)"
proof (cases "showable p")
  case True
  then have "fmt_s p = Inr (shown p)" by (rule fmt_s_shown)
  then show ?thesis
    by (cases "p = PNull") (auto simp: fmt_s_def bindr_eq_Inr strlen_eq_Inr cstring_def)
next
  case False
  then show ?thesis by (cases "fmt_s p") (auto simp: shown_def showable_def)
qed

lemma dec_nat_no_nul [simp]: "0 \<notin> set (dec_nat n)"
  using dec_nat_digits [of 0 n] by auto

lemma dec_int_no_nul [simp]: "0 \<notin> set (dec_int i)"
  by (simp add: dec_int_def)

lemma texts_no_nul [simp]:
  "0 \<notin> set name \<Longrightarrow> 0 \<notin> set description \<Longrightarrow> 0 \<notin> set (header_text idv name description)"
  "0 \<notin> set name \<Longrightarrow> 0 \<notin> set description \<Longrightarrow> 0 \<notin> set (attr_text ''arg'' i flag name description)"
  "0 \<notin> set name \<Longrightarrow> 0 \<notin> set description \<Longrightarrow> 0 \<notin> set (attr_text ''ret'' i flag name description)"
  "0 \<notin> set (section_text ''arguments:'')" "0 \<notin> set (section_text ''return_values:'')"
  by (simp_all add: header_text_def attr_text_def section_text_def ascii_def)

lemma length_sections [simp]:
  "length (section_text ''arguments:'') = 12" "length (section_text ''return_values:'') = 16"
  by (simp_all add: section_text_def ascii_def)

section \<open>Formatting within the limits\<close>

lemma copy_text_holds:
  assumes "holds xs b" and "0 \<notin> set x" and "length x < 1280" and "length xs + length x \<le> L"
    and "roomy ok L"
  shows "post (copy_text ok b (PBlk (cstring x))) (holds (xs @ x))"
proof -
  have n: "unat (word_of_nat (length x) :: u32) = length x" using assms(3) by (simp add: unat_of_nat_u32)
  have "mem_read (PBlk (cstring x)) (length x) = Inr x" by (simp add: cstring_def)
  then have "post (copy_to_buffer ok b (PBlk (cstring x)) (word_of_nat (length x))) (holds (xs @ x))"
    by (intro copy_to_buffer_holds [OF assms(1) _ _ _ assms(5)]) (use n assms(3,4) in simp_all)
  then show ?thesis using assms(2) by (simp add: copy_text_def)
qed

lemma format_attr_holds:
  assumes "holds xs b" and "attrs_showable what infos flags n" and "i < unat n"
    and "what = ''arg'' \<or> what = ''ret''"
    and "length xs + length (attr_line what infos flags i) \<le> L" and "roomy ok L"
  shows "post (format_attr ok what infos flags i b) (holds (xs @ attr_line what infos flags i))"
proof -
  obtain as f where a: "infos = Some as" "flags = PBlk f" "i < length as" "i < length f"
      "showable (attr_name (as ! i))" "showable (attr_description (as ! i))"
      "length (attr_line what infos flags i) < 1280"
    using assms(2,3) by (auto simp: attrs_showable_def)
  let ?t = "attr_line what infos flags i"
  have t: "?t = attr_text what i (f ! i) (shown (attr_name (as ! i))) (shown (attr_description (as ! i)))"
    by (simp add: attr_line_def a(1,2))
  have "0 \<notin> set ?t" using assms(4) shown_no_nul by (auto simp: t)
  then have "post (copy_text ok b (PBlk (cstring ?t))) (holds (xs @ ?t))"
    by (rule copy_text_holds [OF assms(1) _ a(7) assms(5,6)])
  moreover have "sprintf_tmp ?t = Inr (PBlk (cstring ?t))" using a(7) by (simp add: sprintf_tmp_def)
  then have "format_attr ok what infos flags i b = copy_text ok b (PBlk (cstring ?t))"
    unfolding t by (simp add: format_attr_def a(1-6) fmt_s_shown)
  ultimately show ?thesis by simp
qed

lemma format_attrs_holds:
  assumes "holds xs b" and "attrs_showable what infos flags n" and "what = ''arg'' \<or> what = ''ret''"
    and "length xs + length (concat (map (attr_line what infos flags) [0..<unat n])) \<le> L" and "roomy ok L"
  shows "post (for_loop 0 (unat n) (format_attr ok what infos flags) b)
    (holds (xs @ concat (map (attr_line what infos flags) [0..<unat n])))"
proof -
  let ?g = "attr_line what infos flags"
  have "post (for_loop 0 (length [0..<unat n]) (format_attr ok what infos flags) b)
      (holds (xs @ concat (map ?g [0..<unat n])))"
  proof (rule append_loop [OF assms(1)])
    fix j b assume j: "j < length [0..<unat n]"
      and b: "holds (xs @ concat (map ?g (take j [0..<unat n]))) b"
      and le: "length (concat (map ?g (take j [0..<unat n]))) + length (?g ([0..<unat n] ! j))
        \<le> length (concat (map ?g [0..<unat n]))"
    show "post (format_attr ok what infos flags j b)
        (holds ((xs @ concat (map ?g (take j [0..<unat n]))) @ ?g ([0..<unat n] ! j)))"
      using format_attr_holds [OF b assms(2) _ assms(3) _ assms(5), of j] j le assms(4) by simp
  qed
  then show ?thesis by simp
qed

lemma format_interface_holds:
  assumes b: "holds xs b" and x: "interface_showable x"
    and L: "length xs + length (interface_text x) \<le> L" "roomy ok L"
  shows "post (format_interface ok b x) (\<lambda>(r, d). holds (xs @ interface_text x) d)"
proof -
  obtain i where i: "info x = Some i" "showable (info_name i)" "showable (info_description i)"
      "length (header_text (if_id x) (shown (info_name i)) (shown (info_description i))) < 1280"
      "attrs_showable ''arg'' (arg_info i) (arg_flags x) (argc x)"
      "attrs_showable ''ret'' (ret_info i) (ret_flags x) (retc x)"
    using x by (auto simp: interface_showable_def)
  let ?h = "header_text (if_id x) (shown (info_name i)) (shown (info_description i))"
  have nn: "0 \<notin> set ?h" by (simp add: shown_no_nul)
  have le: "length (interface_text x) = length ?h + 12 +
      length (concat (map (attr_line ''arg'' (arg_info i) (arg_flags x)) [0..<unat (argc x)])) + 16 +
      length (concat (map (attr_line ''ret'' (ret_info i) (ret_flags x)) [0..<unat (retc x)]))"
    by (simp add: interface_text_def i(1) del: length_concat)
  show ?thesis
    unfolding format_interface_def i(1) option.case fmt_s_shown [OF i(2)] fmt_s_shown [OF i(3)] bindr_Inr
    apply (simp add: sprintf_tmp_def i(4) Suc_le_eq)
    apply (rule post_bindr [OF copy_text_holds [OF b nn i(4) _ L(2)]], use le L(1) in simp)
    apply (rule post_bindr [OF copy_text_holds [OF _ _ _ _ L(2)]], assumption, simp, simp, use le L(1) in simp)
    apply (rule post_bindr [OF format_attrs_holds [OF _ i(5) _ _ L(2)]], assumption, simp,
        use le L(1) in \<open>simp del: length_concat\<close>)
    apply (rule post_bindr [OF copy_text_holds [OF _ _ _ _ L(2)]], assumption, simp, simp,
        use le L(1) in \<open>simp del: length_concat\<close>)
    apply (rule post_bindr [OF format_attrs_holds [OF _ i(6) _ _ L(2)]], assumption, simp,
        use le L(1) in \<open>simp del: length_concat\<close>)
    apply (simp add: interface_text_def i(1))
    done
qed

section \<open>Reading an entry\<close>

definition belongs :: "nat \<Rightarrow> interface_t \<Rightarrow> bool" where
  "belongs en x \<longleftrightarrow> proc_entry (the (ctrl x)) = Some en"

definition entry_text :: "nat \<Rightarrow> 'z registry_scheme \<Rightarrow> byte list" where
  "entry_text en s = concat (map interface_text (filter (belongs en) (interfaces_of s)))"

lemma concat_filter: "concat (map f (filter P xs)) = concat (map (\<lambda>x. if P x then f x else []) xs)"
  by (induction xs) auto

lemma registered_at:
  assumes "registry_ok s" and "j < length (interfaces_of s)"
  obtains p c where "slot (INTERFACE_LIST s) j = Inr p" "p \<noteq> 0" "deref p s = Inr (interfaces_of s ! j)"
    "ctrl (interfaces_of s ! j) = Some c" "read_ctrl p s = Inr c"
proof -
  have "INTERFACE_LIST s \<noteq> None"
    using registry_empty [OF assms(1)] length_interfaces_of [OF assms(1)] assms(2)
    by (cases "INTERFACE_LIST s") simp_all
  then obtain p where p: "slot (INTERFACE_LIST s) j = Inr p" "p \<noteq> 0" "deref p s = Inr (interfaces_of s ! j)"
    using describes_nth [OF registry_ok_describes [OF assms(1)] assms(2)] registry_list [OF assms(1)] by metis
  moreover obtain c where "ctrl (interfaces_of s ! j) = Some c"
    using assms by (auto simp: registry_ok_def list_all_length descriptor_ok_def)
  ultimately show thesis using that by (simp add: read_ctrl_def)
qed

lemma format_entry:
  assumes ok: "registry_ok s" and x: "\<forall>x \<in> set (interfaces_of s). belongs en x \<longrightarrow> interface_showable x"
    and L: "length (entry_text en s) \<le> L" "roomy (kmem e) L"
  shows "post (for_loop 0 (unat (INTERFACE_COUNT s)) (format_registered e en s) (new_buffer (kmem e)))
    (holds (entry_text en s))"
proof -
  let ?g = "\<lambda>x. if belongs en x then interface_text x else []"
  have t: "entry_text en s = concat (map ?g (interfaces_of s))" by (simp add: entry_text_def concat_filter)
  have "post (for_loop 0 (length (interfaces_of s)) (format_registered e en s) (new_buffer (kmem e)))
      (holds ([] @ concat (map ?g (interfaces_of s))))"
  proof (rule append_loop [OF holds_new_buffer [OF L(2)]])
    fix j b assume j: "j < length (interfaces_of s)"
      and b: "holds ([] @ concat (map ?g (take j (interfaces_of s)))) b"
      and le: "length (concat (map ?g (take j (interfaces_of s)))) + length (?g (interfaces_of s ! j))
        \<le> length (concat (map ?g (interfaces_of s)))"
    obtain p c where p: "slot (INTERFACE_LIST s) j = Inr p" "deref p s = Inr (interfaces_of s ! j)"
        "ctrl (interfaces_of s ! j) = Some c" "read_ctrl p s = Inr c"
      using registered_at [OF ok j] by metis
    show "post (format_registered e en s j b)
        (holds (([] @ concat (map ?g (take j (interfaces_of s)))) @ ?g (interfaces_of s ! j)))"
    proof (cases "belongs en (interfaces_of s ! j)")
      case True
      then have "interface_showable (interfaces_of s ! j)" using x j by simp
      from format_interface_holds [OF b this _ L(2)] le L(1) True
      have "post (format_interface (kmem e) b (interfaces_of s ! j))
          (\<lambda>(r, d). holds (([] @ concat (map ?g (take j (interfaces_of s)))) @ interface_text (interfaces_of s ! j)) d)"
        by (simp add: t)
      then show ?thesis using True p by (auto simp: format_registered_def belongs_def post_def)
    next
      case False
      then show ?thesis using p b by (simp add: format_registered_def belongs_def)
    qed
  qed
  then show ?thesis by (simp add: t length_interfaces_of [OF ok])
qed

text \<open>
  C24: reading a process's entry from the start returns the texts of exactly its interfaces, in
  the order of registration, and the next read reports the end; but only a buffer that takes
  the whole text gets any of it, with a smaller one every read fails with -1.
\<close>

theorem proc_read_lists:
  assumes "registry_ok s" and "\<forall>x \<in> set (interfaces_of s). belongs en x \<longrightarrow> interface_showable x"
    and "length (entry_text en s) \<le> L" "roomy (kmem e) L"
    and "\<forall>p x. copy_to_user e p x = 0"
  shows "proc_read e en u_buf sz 0 s = (if sz < length (entry_text en s) then Inr (- 1, 0, [])
      else Inr (int (length (entry_text en s)), int (length (entry_text en s)), entry_text en s)) \<and>
    (entry_text en s \<noteq> [] \<longrightarrow> proc_read e en u_buf sz (int (length (entry_text en s))) s
      = Inr (0, int (length (entry_text en s)), []))"
proof -
  obtain d where d: "for_loop 0 (unat (INTERFACE_COUNT s)) (format_registered e en s) (new_buffer (kmem e)) = Inr d"
      "holds (entry_text en s) d"
    using format_entry [OF assms(1-4)] by (auto simp: post_def)
  then have "unat (blen d) = length (entry_text en s)" "bdata d = entry_text en s"
    by (simp_all add: holds_def)
  then show ?thesis using assms(5) by (simp add: proc_read_def d(1))
qed

section \<open>A description that is too long\<close>

lemma shown_cstring: "0 \<notin> set x \<Longrightarrow> shown (PBlk (cstring x @ r)) = x \<and> showable (PBlk (cstring x @ r))"
  by (simp add: shown_def showable_def fmt_s_def strlen_def) (simp add: cstring_def)

text \<open>
  C38: a process may register a description of up to 65534 characters; one of 1280 or more makes
  every read of its procfs entry write past the formatter's local array.
\<close>

theorem long_description_overflows:
  assumes "registry_ok s" and "interfaces_of s = []" and "user_descriptor_ok u"
    and "kmem_upto e (register_bytes u s)" and "user_strings_copied e"
    and "info u = Some i" "info_name i = PBlk (cstring name @ r1)" "0 \<notin> set name" "length name < 65535"
    and "info_description i = PBlk (cstring d @ r2)" "0 \<notin> set d" "1280 \<le> length d" "length d < 65535"
    and "proc_create e (trace s) (dec_int pid) = Some en"
  shows "\<exists>t. register_interface e pid u s = Inr (ALLOCATED_ID s, t) \<and>
    (\<forall>u_buf sz. proc_read e en u_buf sz 0 t = Inl Out_of_bounds)"
proof -
  have "unat (INTERFACE_COUNT s) < 2 ^ 31" using length_interfaces_of [OF assms(1)] assms(2) by simp
  from register_appends [OF assms(1,3,4) this] obtain t where
    t: "register_interface e pid u s = Inr (ALLOCATED_ID s, t)" "registry_ok t"
      "interfaces_of t = [registered e pid u s]" using assms(2) by auto
  have n: "unat (INTERFACE_COUNT t) = 1" using length_interfaces_of [OF t(2)] t(3) by simp
  obtain p c where p: "slot (INTERFACE_LIST t) 0 = Inr p" "deref p t = Inr (registered e pid u s)"
      "read_ctrl p t = Inr c" "ctrl (registered e pid u s) = Some c"
    using registered_at [OF t(2), of 0] t(3) by (metis length_greater_0_conv list.distinct(1) nth_Cons_0)
  have en: "proc_entry c = Some en"
    using p(4) assms(2,14) by (auto simp: registered_def entry_for_def entry_owner_def)
  have dup: "dup_user e (info_name i) = PBlk (cstring name)" "dup_user e (info_description i) = PBlk (cstring d)"
    using assms(5-13) by (simp_all add: dup_user_string)
  have x: "info (registered e pid u s) = Some (copied_info e i)" by (simp add: registered_def assms(6))
  have s: "fmt_s (PBlk (cstring name)) = Inr name" "fmt_s (PBlk (cstring d)) = Inr d"
    using fmt_s_shown shown_cstring [of name "[]"] shown_cstring [of d "[]"] assms(8,11)
    by (metis append_Nil2)+
  have "1280 < length (header_text (ALLOCATED_ID s) name d) + 1"
    using assms(12) by (simp add: header_text_def)
  then have "format_interface (kmem e) b (registered e pid u s) = Inl Out_of_bounds" for b
    by (simp add: format_interface_def x copied_info_def dup s sprintf_tmp_def require_def)
  then have "for_loop 0 1 (format_registered e en t) b = Inl Out_of_bounds" for b
    using p en by (simp add: format_registered_def)
  then show ?thesis using t(1) by (simp add: proc_read_def n)
qed

section \<open>Removing the entries\<close>

definition entries_of :: "'z registry_scheme \<Rightarrow> nat list" where
  "entries_of s = List.map_filter (\<lambda>x. proc_entry (the (ctrl x))) (interfaces_of s)"

lemma map_filter_take_Suc:
  "j < length xs \<Longrightarrow> List.map_filter f (take (Suc j) xs)
    = List.map_filter f (take j xs) @ (case f (xs ! j) of None \<Rightarrow> [] | Some y \<Rightarrow> [y])"
  by (simp add: take_Suc_conv_app_nth List.map_filter_def split: option.split)

lemma remove_entries:
  fixes s :: "'z registry_scheme"
  assumes ok: "registry_ok s"
  shows "\<exists>t. for_loop 0 (unat (INTERFACE_COUNT s)) remove_entry_of s = Inr t \<and>
    trace t = rev (map Proc_removed (entries_of s)) @ trace s"
proof -
  let ?f = "\<lambda>x. proc_entry (the (ctrl x))"
  let ?s = "\<lambda>n. s\<lparr>trace := rev (map Proc_removed (List.map_filter ?f (take n (interfaces_of s)))) @ trace s\<rparr>"
  have "for_loop 0 n remove_entry_of s = Inr (?s n)" if "n \<le> length (interfaces_of s)" for n
    using that
  proof (induction n)
    case 0
    then show ?case by (simp add: List.map_filter_def)
  next
    case (Suc n)
    obtain p c where p: "slot (INTERFACE_LIST s) n = Inr p" "ctrl (interfaces_of s ! n) = Some c"
        "read_ctrl p s = Inr c"
      using registered_at [OF ok, of n] Suc.prems by (metis Suc_le_eq)
    have "deref p (?s n) = deref p s" by (simp add: deref_def cong: option.case_cong)
    then have "read_ctrl p (?s n) = Inr c" using p(3) by (simp add: read_ctrl_def)
    then have "remove_entry_of n (?s n) = Inr (?s (Suc n))"
      using p(1,2) Suc.prems
      by (cases "proc_entry c") (simp_all add: remove_entry_of_def map_filter_take_Suc emit_def)
    then show ?case using for_loop_append [of 0 n 1 remove_entry_of s] Suc by simp
  qed
  from this [of "length (interfaces_of s)"] show ?thesis
    by (simp add: length_interfaces_of [OF ok] entries_of_def)
qed

lemma removed_counts:
  "count (held (rev (map Proc_removed es) @ tr)) (Proc_entry en) = count (held tr) (Proc_entry en) - count_list es en \<and>
   count (over_released (rev (map Proc_removed es) @ tr)) (Proc_entry en)
     = count (over_released tr) (Proc_entry en) + (count_list es en - count (held tr) (Proc_entry en))"
  by (induction es rule: rev_induct) (auto simp: count_list_append not_in_iff simp flip: count_greater_zero_iff)

lemma count_entries: "count_list (entries_of s) en = length (filter (belongs en) (interfaces_of s))"
proof -
  have "count_list (List.map_filter (\<lambda>x. proc_entry (the (ctrl x))) xs) en = length (filter (belongs en) xs)" for xs
    by (induction xs) (auto simp: List.map_filter_def belongs_def split: option.splits)
  then show ?thesis by (simp add: entries_of_def)
qed

text \<open>
  Unloading removes an entry once per interface of the process, not once: an entry shared by
  \<open>n\<close> interfaces and held once is removed \<open>n - 1\<close> times after it is gone.
\<close>

theorem shared_entry_removed_again:
  assumes "registry_ok s" and "home \<noteq> Some en"
  shows "\<exists>t. fint_procfs home s = Inr (0, t) \<and>
    count (over_released (trace t)) (Proc_entry en) = count (over_released (trace s)) (Proc_entry en) +
      (length (filter (belongs en) (interfaces_of s)) - count (held (trace s)) (Proc_entry en))"
proof -
  obtain t where t: "for_loop 0 (unat (INTERFACE_COUNT s)) remove_entry_of s = Inr t"
      "trace t = rev (map Proc_removed (entries_of s)) @ trace s"
    using remove_entries [OF assms(1)] by blast
  have c: "count (over_released (trace t)) (Proc_entry en) = count (over_released (trace s)) (Proc_entry en) +
      (length (filter (belongs en) (interfaces_of s)) - count (held (trace s)) (Proc_entry en))"
    unfolding t(2) using removed_counts [of "entries_of s" "trace s" en] by (simp add: count_entries)
  let ?u = "case home of None \<Rightarrow> t | Some h \<Rightarrow> emit (Proc_removed h) t"
  have "fint_procfs home s = Inr (0, ?u)" by (simp add: fint_procfs_def t(1))
  moreover have "count (over_released (trace ?u)) (Proc_entry en) = count (over_released (trace t)) (Proc_entry en)"
    using assms(2) by (cases home) auto
  ultimately show ?thesis using c by auto
qed

section \<open>Examples\<close>

definition served_interface :: "u32 \<Rightarrow> interface_t" where
  "served_interface i = (stored_interface i)\<lparr>ctrl := Some (ctrl_0\<lparr>proc_entry := Some 8\<rparr>)\<rparr>"

definition shared_registry :: registry where
  "shared_registry = three_registry\<lparr>heap := [1 \<mapsto> stored_interface 1, 2 \<mapsto> served_interface 2,
     3 \<mapsto> served_interface 3], trace := [Proc_created [52, 50] 8]\<rparr>"

lemma shared_interfaces:
  "interfaces_of shared_registry = [stored_interface 1, served_interface 2, served_interface 3]"
  by (simp add: interfaces_of_def shared_registry_def three_registry_def live_slots_def slots_of_def)

lemma shared_registry_ok: "registry_ok shared_registry"
  by (simp add: registry_ok_def shared_interfaces descriptor_ok_def served_interface_def stored_interface_def
      blank_interface_def attr_array_ok_def flags_ok_def info_0_def)
    (auto simp: shared_registry_def three_registry_def mem_wf_def slots_of_def live_slots_def describes_def
      served_interface_def stored_interface_def blank_interface_def info_0_def)

lemma dec_nat_digit: "n < 10 \<Longrightarrow> dec_nat n = [word_of_nat (48 + n)]"
  by (subst dec_nat.simps) simp

lemma fmt_s_null [simp]: "fmt_s PNull = Inr (ascii ''(null)'')"
  by (simp add: fmt_s_def)

lemmas text_lengths = header_text_def attr_text_def section_text_def ascii_def dec_int_def dec_nat_digit

lemma served_showable: "i < 10 \<Longrightarrow> interface_showable (served_interface (word_of_nat i))"
  and served_text_length: "i < 10 \<Longrightarrow> length (interface_text (served_interface (word_of_nat i))) \<le> 1000"
proof -
  assume i: "i < 10"
  have "sint (word_of_nat i :: u32) = int i"
    using i sint_small_u32 [of "word_of_nat i"] by (simp add: unat_of_nat_u32)
  then have d: "length (dec_int (sint (word_of_nat i :: u32))) = 1"
    using i by (simp add: dec_int_def dec_nat_digit)
  show "interface_showable (served_interface (word_of_nat i))"
    using d by (simp add: interface_showable_def served_interface_def stored_interface_def blank_interface_def
        info_0_def attrs_showable_def attr_info_0_def showable_def attr_line_def header_text_def
        attr_text_def ascii_def dec_nat_digit)
  show "length (interface_text (served_interface (word_of_nat i))) \<le> 1000"
    using d by (simp add: interface_text_def served_interface_def stored_interface_def blank_interface_def
        info_0_def attr_info_0_def attr_line_def header_text_def attr_text_def ascii_def dec_nat_digit
        section_text_def)
qed

lemma shared_belongs:
  "filter (belongs 8) (interfaces_of shared_registry) = [served_interface 2, served_interface 3]"
  by (simp add: shared_interfaces belongs_def served_interface_def stored_interface_def blank_interface_def
      ctrl_0_def)

theorem proc_read_lists_witness:
  "proc_read kind_kernel 8 PNull 4096 0 shared_registry
    = (if 4096 < length (entry_text 8 shared_registry) then Inr (- 1, 0, [])
      else Inr (int (length (entry_text 8 shared_registry)), int (length (entry_text 8 shared_registry)),
        entry_text 8 shared_registry)) \<and>
    proc_read kind_kernel 8 PNull 4096 (int (length (entry_text 8 shared_registry))) shared_registry
      = Inr (0, int (length (entry_text 8 shared_registry)), [])"
proof -
  have s: "interface_showable (served_interface 2)" "interface_showable (served_interface 3)"
    using served_showable [of 2] served_showable [of 3] by simp_all
  have 1: "\<forall>x \<in> set (interfaces_of shared_registry). belongs 8 x \<longrightarrow> interface_showable x"
    using s by (simp add: shared_interfaces belongs_def stored_interface_def blank_interface_def ctrl_0_def)
  have 2: "length (entry_text 8 shared_registry) \<le> 2000"
    using served_text_length [of 2] served_text_length [of 3] by (simp add: entry_text_def shared_belongs)
  have 3: "roomy (kmem kind_kernel) 2000" by (simp add: kind_kernel_def roomy_kmalloc_max)
  have 4: "\<forall>p x. copy_to_user kind_kernel p x = 0" by (simp add: kind_kernel_def)
  have "entry_text 8 shared_registry \<noteq> []"
    by (simp add: entry_text_def shared_belongs interface_text_def header_text_def ascii_def
        served_interface_def stored_interface_def blank_interface_def)
  then show ?thesis
    using proc_read_lists [OF shared_registry_ok 1 2 3 4, of PNull 4096] by blast
qed

theorem shared_entry_removed_again_witness:
  "\<exists>t. fint_procfs None shared_registry = Inr (0, t) \<and>
    count (over_released (trace t)) (Proc_entry 8)
      = count (over_released (trace shared_registry)) (Proc_entry 8) +
      (length (filter (belongs 8) (interfaces_of shared_registry)) - count (held (trace shared_registry)) (Proc_entry 8))"
  by (rule shared_entry_removed_again [OF shared_registry_ok]) simp

definition wordy_info :: info_t where
  "wordy_info = info_0\<lparr>info_name := PBlk (cstring [65]), info_description := PBlk (cstring (replicate 1280 65)),
     arg_info := Some [attr_info_0], ret_info := Some []\<rparr>"

definition wordy_descriptor :: interface_t where
  "wordy_descriptor = user_descriptor\<lparr>info := Some wordy_info\<rparr>"

theorem long_description_overflows_witness:
  "\<exists>t. register_interface kind_kernel 42 wordy_descriptor empty_registry = Inr (ALLOCATED_ID empty_registry, t) \<and>
    (\<forall>u_buf sz. proc_read kind_kernel 0 u_buf sz 0 t = Inl Out_of_bounds)"
proof (rule long_description_overflows [OF empty_registry_ok _ _ _ kind_kernel_copies,
      where i = wordy_info and name = "[65]" and ?r1.0 = "[]" and d = "replicate 1280 65" and ?r2.0 = "[]"])
  show "user_descriptor_ok wordy_descriptor"
    by (simp add: user_descriptor_ok_def wordy_descriptor_def wordy_info_def user_descriptor_def
        blank_interface_def attr_array_ok_def info_0_def)
  show "kmem_upto kind_kernel (register_bytes wordy_descriptor empty_registry)"
    by (rule kind_kernel_mem)
      (simp add: register_bytes_def wordy_descriptor_def user_descriptor_def blank_interface_def empty_registry_def)
qed (simp_all add: empty_registry_def interfaces_of_def live_slots_def slots_of_def wordy_descriptor_def
    wordy_info_def kind_kernel_def)

end
