(* ===== verification/Remote_Add.thy ===== *)
theory Remote_Add
  imports Node_Call Add_Service Procfs_Entries
begin

text \<open>
  Two nodes and the programs of \<open>test/\<close>: \<open>activate_add\<close> serves on one, \<open>execute_remote_add\<close> calls
  on the other.
\<close>

definition serves_add :: "(nat \<Rightarrow> bool) \<Rightarrow> callbacks \<Rightarrow> interface_t \<Rightarrow> bool" where
  "serves_add ok callbacks x \<longleftrightarrow> interface_t.argc x = 2 \<and> retc x = 1 \<and>
     (\<exists>c. ctrl x = Some c \<and> callbacks (callback c) = add ok)"

lemma add_answers:
  assumes "serves_add ok callbacks x" and "roomy ok 4096"
    and "int_range a" "int_range b" "int_range (a + b)"
  shows "process_answers ok callbacks x [text_value (dec_int a), text_value (dec_int b)]
    [text_value (dec_int (a + b))]"
proof -
  have "string_value (dec_int n) (text_value (dec_int n))" if "int_range n" for n
    using length_dec_int [OF that] by (intro string_value_text) simp
  then have v: "list_all2 string_value [dec_int a, dec_int b] [text_value (dec_int a), text_value (dec_int b)]"
      "list_all2 string_value [dec_int (a + b)] [text_value (dec_int (a + b))]"
    using assms(3-5) by simp_all
  have s: "\<forall>y \<in> set [dec_int (a + b)]. length y < 1000" using length_dec_int [OF assms(5)] by simp
  note fit = strings_fit [OF assms(2) v(2) _ s]
  show ?thesis
    using assms add_ok [OF assms(2-5), of "[retv_blank]"] string_values(3) [OF v(1)] fit(1) fit(3) [of "if_id x" 1]
      roomy_grants [OF assms(2), of 16]
    by (auto simp: process_answers_def serves_add_def)
qed

lemma dec_int_short: "- 99 \<le> a \<Longrightarrow> a \<le> 999 \<Longrightarrow> length (dec_int a) \<le> 3"
  using length_dec_nat [of "nat (- a)" 1] length_dec_nat [of "nat a" 2]
  by (cases "a < 0") (auto simp: dec_int_def numeral_2_eq_2 nat_less_iff)

text \<open>A caller's kernel connected to the node: what arrives on its socket is what the node sent.\<close>

definition wired :: "(byte list \<Rightarrow> kenv) \<Rightarrow> nat \<Rightarrow> u32 \<Rightarrow> int \<Rightarrow> 'z kstate_scheme \<Rightarrow> bool" where
  "wired net k a i s \<longleftrightarrow> (\<forall>body. reachable_peer (net body) i a k s \<and> sends_ok (net body) k \<and>
     roomy (kmem (net body)) 4096 \<and> user_blocks_copied (net body) \<and>
     (8 \<le> length body \<longrightarrow> stream_of (net body) k body))"

text \<open>The node that serves: what leaves through the connection reads as the decimal sum.\<close>

lemma add_served:
  assumes nums: "- 99 \<le> a" "a \<le> 999" "- 99 \<le> b" "b \<le> 999"
      "req = rpc_bytes idv 2 [text_value (dec_int a), text_value (dec_int b)]"
    and node: "table_ok s" "distinct (map if_id (interfaces_of s))" "KERN_NETLINK s = Some nl"
      "index_of idv (interfaces_of s) = Some j" "ctrl (interfaces_of s ! j) = Some c" "idv \<noteq> 0"
      "roomy (kmem e) 4096" "\<forall>tr n. nlmsg_new e tr n"
    and conn: "stream_of e (sock_no k) req" "\<not> sk_null k" "0 \<le> sock_getname e (trace s) (sock_no k)"
    and process: "describes arr u xs" "index_of idv xs = Some i" "serves_add ok callbacks (xs ! i)"
      "roomy ok 4096" "0 < r" "16 \<le> length behind"
  shows "\<exists>res t reply body v. handle_connection e k s = Inr (res, t) \<and>
    rpc_step ok callbacks (client_portid c) (Some arr) (int (length arr)) (r, call_message req [] 0) u
      = Inr (Some reply) \<and>
    handle_netlink_income e (in_kernel behind reply) t = Inr v \<and>
    trace v = [Sock_sent (sock_no k) None body,
      Sock_sent (sock_no k) None (u32_bytes (word_of_nat (length body)))] @ trace t \<and>
    8 \<le> length body \<and> length body < 4096 \<and>
    (\<forall>g. roomy g 4096 \<longrightarrow> unserialize_rpc_packet g body (word_of_nat (length body))
      = Inr ([attr_copy (text_value (dec_int (a + b)))], 1))"
proof -
  let ?sum = "dec_int (a + b)" and ?args = "[text_value (dec_int a), text_value (dec_int b)]"
  have ir: "int_range a" "int_range b" "int_range (a + b)" using nums by (simp_all add: int_range_def)
  have l3: "length (dec_int a) \<le> 3" "length (dec_int b) \<le> 3" using nums dec_int_short by simp_all
  have lsum: "length ?sum < 1000" using length_dec_int [OF ir(3)] by simp
  have sv: "string_value (dec_int a) (text_value (dec_int a))" "string_value (dec_int b) (text_value (dec_int b))"
      "string_value ?sum (text_value ?sum)"
    using l3 lsum by (auto intro!: string_value_text)
  have argc: "interface_t.argc (xs ! i) = 2" "retc (xs ! i) = 1" using process(3) by (simp_all add: serves_add_def)
  have len: "length req \<le> MAX_PAYLOAD"
    using l3 string_value_simps(5) [OF sv(1)] string_value_simps(5) [OF sv(2)]
    by (simp add: nums(5) rpc_bytes_def attr_codec.enc_list_def)
  have args: "list_all attr_readable ?args" "attrs_granted ok ?args"
    using string_value_simps(1) sv(1,2)
      strings_fit(2) [OF process(4), of "[dec_int a, dec_int b]" ?args] l3 by auto
  have vals: "attrs_granted g [text_value ?sum]" "length (rpc_bytes idv (retc (xs ! i)) [text_value ?sum]) < 2100"
    if "roomy g 4096" for g
    using strings_fit(2,3) [OF that, of "[?sum]" "[text_value ?sum]"] sv(3) lsum by auto
  have hd: "fmt_s (addr (attr_copy (hd [text_value ?sum]))) = Inr ?sum"
  proof -
    have "attr_copy (text_value ?sum) = \<lparr>len = len (text_value ?sum), addr = PBlk (cstring ?sum)\<rparr>"
      using string_value_simps(2,4) [OF sv(3)] by (auto simp: attr_copy_def)
    then show ?thesis using fmt_s_cstring [OF dec_int_no_nul, of "a + b" "[]"] by simp
  qed
  have g: "kgrant (kmem e) (length req)" using roomy_grants [OF node(7)] len by simp
  obtain res t reply v pad where srv: "handle_connection e k s = Inr (res, t)"
      "rpc_step ok callbacks (client_portid c) (Some arr) (int (length arr)) (r, call_message req [] 0) u
        = Inr (Some reply)"
      "handle_netlink_income e (in_kernel behind reply) t = Inr v" "length pad < 4"
      and body: "let body = rpc_bytes idv (retc (xs ! i)) [text_value ?sum] @ pad @ take 16 behind in
        trace v = [Sock_sent (sock_no k) None body,
          Sock_sent (sock_no k) None (u32_bytes (word_of_nat (length body)))] @ trace t \<and>
        (\<forall>g. attrs_granted g [text_value ?sum] \<longrightarrow> unserialize_rpc_packet g body (word_of_nat (length body))
          = Inr (map attr_copy [text_value ?sum], retc (xs ! i)))"
    using node_serves [OF node(1-6) _ conn(1,2,3) g _ len process(1,2) args
        add_answers [OF process(3,4) ir] process(5) vals(1) [OF node(7)] _ hd _ process(6)]
      vals(2) [OF process(4)] node(8) by (force simp: argc nums(5))
  let ?body = "rpc_bytes idv (retc (xs ! i)) [text_value ?sum] @ pad @ take 16 behind"
  have "8 \<le> length ?body" "length ?body < 4096"
    using vals(2) [OF process(4)] srv(4) by simp_all (simp add: rpc_bytes_def)
  moreover have "unserialize_rpc_packet g ?body (word_of_nat (length ?body)) = Inr ([attr_copy (text_value ?sum)], 1)"
    if "roomy g 4096" for g
    using body vals(1) [OF that] by (simp add: Let_def argc)
  ultimately show ?thesis using srv(1-3) body by (auto simp: Let_def)
qed

text \<open>The node that calls: the program prints the string the reply contains.\<close>

lemma add_called:
  assumes "length (dec_int a) \<le> 3" "length (dec_int b) \<le> 3" "int_range (a + b)"
    and caller: "peer_listed n q" "index_of idv (peer_view n q) = Some m"
      "interface_t.argc (peer_view n q ! m) = 2" "retc (peer_view n q ! m) = 1" "roomy cok 4096" "mem_wf l"
      "0 < fd" "length (block MAX_PAYLOAD) = MAX_PAYLOAD" "wired net kc ad (int n) q"
    and reply: "8 \<le> length body" "length body < 4096" "\<forall>g. roomy g 4096 \<longrightarrow>
      unserialize_rpc_packet g body (word_of_nat (length body)) = Inr ([attr_copy (text_value (dec_int (a + b)))], 1)"
  shows "\<exists>w. execute_add_user cok junk block (peer_driver (net body) (int n)) fd idv (dec_int a) (dec_int b) l q
      = Inr (dec_int (a + b), w) \<and>
    Sock_sent kc (Some ad) (rpc_bytes idv 2 [text_value (dec_int a), text_value (dec_int b)]) \<in> set (trace w)"
proof -
  let ?sum = "dec_int (a + b)"
  have w: "reachable_peer (net body) (int n) ad kc q" "sends_ok (net body) kc" "roomy (kmem (net body)) 4096"
      "user_blocks_copied (net body)" "stream_of (net body) kc body"
    using caller(9) reply(1) by (auto simp: wired_def)
  show ?thesis
  proof (rule add_client_prints [where block = block, OF caller(5-8) assms(1,2)])
    show "0 \<notin> set ?sum" "length ?sum < MAX_PAYLOAD"
      using dec_int_no_nul length_dec_int [OF assms(3)] by simp_all
    fix d assume "add_request idv (dec_int a) (dec_int b) d"
    from device_adds [OF caller(1-4) w(3,4,1,2) this _ _ w(5) _ reply(2)] show
      "\<exists>k'. peer_driver (net body) (int n) EXEC_INTERFACE_CMD d q
        = Inr (0, [(word_of_nat (Suc (length ?sum)), cstring ?sum)], k') \<and>
        Sock_sent kc (Some ad) (rpc_bytes idv 2 [text_value (dec_int a), text_value (dec_int b)]) \<in> set (trace k')"
      using assms(1,2) length_dec_int [OF assms(3)] reply(1,3) w(3) by (fastforce simp: request_events_def)
  qed
qed

text \<open>
  The example of the repository works across two nodes. \<open>execute_remote_add\<close> on one node,
  for two numbers of at most three characters, prints their sum: the request its kernel sends
  is the packet that arrives at the other node, goes through the kernel to the process that
  serves \<open>add\<close>, and what that node sends back is read by the caller as the decimal sum.
\<close>

theorem remote_add:
  assumes nums: "- 99 \<le> a" "a \<le> 999" "- 99 \<le> b" "b \<le> 999"
      "req = rpc_bytes idv 2 [text_value (dec_int a), text_value (dec_int b)]"
    and node: "table_ok s" "distinct (map if_id (interfaces_of s))" "KERN_NETLINK s = Some nl"
      "index_of idv (interfaces_of s) = Some j" "ctrl (interfaces_of s ! j) = Some c" "idv \<noteq> 0"
      "roomy (kmem e) 4096" "\<forall>tr n. nlmsg_new e tr n"
    and conn: "stream_of e (sock_no k) req" "\<not> sk_null k" "0 \<le> sock_getname e (trace s) (sock_no k)"
    and process: "describes arr u xs" "index_of idv xs = Some i" "serves_add ok callbacks (xs ! i)"
      "roomy ok 4096" "0 < r" "16 \<le> length behind"
    and caller: "peer_listed n q" "index_of idv (peer_view n q) = Some m"
      "interface_t.argc (peer_view n q ! m) = 2" "retc (peer_view n q ! m) = 1" "roomy cok 4096" "mem_wf l"
      "0 < fd" "length (block MAX_PAYLOAD) = MAX_PAYLOAD" "wired net kc ad (int n) q"
  shows "\<exists>res t reply body v w. handle_connection e k s = Inr (res, t) \<and>
    rpc_step ok callbacks (client_portid c) (Some arr) (int (length arr)) (r, call_message req [] 0) u
      = Inr (Some reply) \<and>
    handle_netlink_income e (in_kernel behind reply) t = Inr v \<and>
    trace v = [Sock_sent (sock_no k) None body,
      Sock_sent (sock_no k) None (u32_bytes (word_of_nat (length body)))] @ trace t \<and>
    execute_add_user cok junk block (peer_driver (net body) (int n)) fd idv (dec_int a) (dec_int b) l q
      = Inr (dec_int (a + b), w) \<and> Sock_sent kc (Some ad) req \<in> set (trace w)"
proof -
  have "int_range (a + b)" using nums by (simp add: int_range_def)
  then show ?thesis
    using add_served [OF nums node conn process] dec_int_short nums
      add_called [where block = block, OF _ _ _ caller, of a b] by metis
qed

section \<open>Examples\<close>

definition delivering :: "byte list \<Rightarrow> kenv" where
  "delivering x = kind_kernel\<lparr>sock_recvmsg := (\<lambda>tr k n.
     if n = 4 then (4, None, u32_bytes (word_of_nat (length x))) else (int (length x), None, x))\<rparr>"

definition adder :: interface_t where
  "adder = (blank_interface 2 1)\<lparr>if_id := 2\<rparr>"

definition adder_memory :: mem where
  "adder_memory = \<lparr>heap = [1 \<mapsto> adder], next_ptr = 2, trace = []\<rparr>"

definition offered_add :: interface_t where
  "offered_add = interface_0\<lparr>if_id := 2, argc := 2, arg_flags := PBlk [0, 0], retc := 1, ret_flags := PBlk [0]\<rparr>"

definition calling_node :: kstate where
  "calling_node = peer_kernel\<lparr>heap := [1 \<mapsto> offered_add]\<rparr>"

definition empty_process :: mem where
  "empty_process = \<lparr>heap = Map.empty, next_ptr = 1, trace = []\<rparr>"

lemma stream_delivering: "length x \<noteq> 4 \<Longrightarrow> stream_of (delivering x) k x"
  by (simp add: stream_of_def delivering_def)

lemma calling_node_list: "peers_list calling_node = [listed_peer]"
  by (simp add: peers_list_def peer_kernel_def calling_node_def)

lemma calling_node_listed: "peer_listed 0 calling_node"
  by (simp add: peer_listed_def kernel_ok_def registry_ok_def table_shape_def owned_def calling_node_list)
    (simp add: calling_node_def peer_kernel_def fresh_kernel_def mem_wf_def slots_of_def live_slots_def
      interfaces_of_def listed_peer_def peer_0_def peer_slots_def live_def peer_ok_def)

lemma calling_node_view: "peer_view 0 calling_node = [offered_add]"
  by (simp add: peer_view_def calling_node_list) (simp add: listed_peer_def peer_slots_def calling_node_def)

lemma delivering_roomy: "roomy (kmem (delivering x)) 4096"
  by (simp add: delivering_def kind_kernel_def roomy_kmalloc_max)

lemma calling_node_wired: "wired delivering 0 9 (int 0) calling_node"
proof -
  have "reachable_peer (delivering x) (int 0) 9 0 calling_node" for x
    using roomy_grants [OF delivering_roomy [of x], of 16]
    by (simp add: reachable_peer_def peer_at_def)
      (simp add: calling_node_def peer_kernel_def delivering_def kind_kernel_def listed_peer_def fresh_kernel_def)
  moreover have "sends_ok (delivering x) 0" "user_blocks_copied (delivering x)" for x
    by (simp_all add: sends_ok_def user_blocks_copied_def delivering_def kind_kernel_def)
  ultimately show ?thesis by (auto simp: wired_def delivering_roomy stream_delivering)
qed

theorem remote_add_witness:
  "\<exists>res t reply body v w. handle_connection (delivering (rpc_bytes 2 2 [text_value (dec_int 12), text_value (dec_int (- 5))]))
      (open_socket 4) three_registry = Inr (res, t) \<and>
    rpc_step kmalloc_max (\<lambda>_. add kmalloc_max) (client_portid ctrl_0) (Some [Some 1]) (int (length [Some (1 :: nat)]))
      (1, call_message (rpc_bytes 2 2 [text_value (dec_int 12), text_value (dec_int (- 5))]) [] 0) adder_memory
      = Inr (Some reply) \<and>
    handle_netlink_income (delivering (rpc_bytes 2 2 [text_value (dec_int 12), text_value (dec_int (- 5))]))
      (in_kernel (replicate 16 9) reply) t = Inr v \<and>
    trace v = [Sock_sent (sock_no (open_socket 4)) None body,
      Sock_sent (sock_no (open_socket 4)) None (u32_bytes (word_of_nat (length body)))] @ trace t \<and>
    execute_add_user kmalloc_max attr_value_0 (\<lambda>n. replicate n 0) (peer_driver (delivering body) (int 0)) 3 2
      (dec_int 12) (dec_int (- 5)) empty_process calling_node = Inr (dec_int (12 + - 5), w) \<and>
    Sock_sent 0 (Some 9) (rpc_bytes 2 2 [text_value (dec_int 12), text_value (dec_int (- 5))]) \<in> set (trace w)"
proof (rule remote_add [OF _ _ _ _ refl three_table three_distinct _ three_second three_second_ctrl,
      where net = delivering and m = 0 and n = 0 and block = "\<lambda>n. replicate n 0"])
  show "stream_of (delivering (rpc_bytes 2 2 [text_value (dec_int 12), text_value (dec_int (- 5))]))
      (sock_no (open_socket 4)) (rpc_bytes 2 2 [text_value (dec_int 12), text_value (dec_int (- 5))])"
    by (rule stream_delivering) (simp add: rpc_bytes_def attr_codec.enc_list_def enc_attr_def)
  show "describes [Some 1] adder_memory [adder]" by (simp add: describes_def adder_memory_def)
  show "serves_add kmalloc_max (\<lambda>_. add kmalloc_max) ([adder] ! 0)"
    by (simp add: serves_add_def adder_def blank_interface_def)
  show "peer_listed 0 calling_node" "wired delivering 0 9 (int 0) calling_node"
    by (rule calling_node_listed calling_node_wired)+
qed (simp_all add: three_registry_def delivering_roomy roomy_kmalloc_max delivering_def kind_kernel_def
    open_socket_def adder_def empty_process_def mem_wf_def calling_node_view offered_add_def)

end
