(* ===== verification/Quiet.thy ===== *)
theory Quiet
  imports Manager_Device Broadcast
begin

text \<open>
  What the handlers leave alone. Most of them touch nothing but the trace, memory they allocate
  themselves and the control blocks of descriptors, and of a control block only a part: a call
  only the socket that waits for its result, a netlink message also the port of the process.
  The part is a relation between control blocks, and a frame states what a relation must allow
  for the handlers to stay inside it.
\<close>

section \<open>Partial correctness of a run\<close>

text \<open>\<open>yields m P\<close>: if the run \<open>m\<close> ends without a fault, its result satisfies \<open>P\<close>.\<close>

definition yields :: "'e + 'a \<Rightarrow> ('a \<Rightarrow> bool) \<Rightarrow> bool" where
  "yields m P \<longleftrightarrow> (\<forall>x. m = Inr x \<longrightarrow> P x)"

lemma yields_simps [simp]: "yields (Inr x) P \<longleftrightarrow> P x" "yields (Inl e) P"
  by (simp_all add: yields_def)

lemma yields_bindr: "yields m R \<Longrightarrow> (\<And>x. R x \<Longrightarrow> yields (k x) P) \<Longrightarrow> yields (bindr m k) P"
  by (cases m) (simp_all add: yields_def)

lemma yields_any: "(\<And>x. yields (k x) P) \<Longrightarrow> yields (bindr m k) P"
  by (cases m) (simp_all add: yields_def)

lemma yieldsD: "yields m P \<Longrightarrow> m = Inr x \<Longrightarrow> P x"
  by (simp add: yields_def)

lemma yields_loop:
  assumes "\<And>i s. I s \<Longrightarrow> yields (f i s) I"
  shows "I s \<Longrightarrow> yields (for_loop i n f s) I"
proof (induction n arbitrary: i s)
  case (Suc n)
  show ?case by (simp, rule yields_bindr [OF assms [OF Suc.prems]]) (rule Suc.IH)
qed simp

lemma yields_deref: "(\<And>x. deref p s = Inr x \<Longrightarrow> yields (k x) P) \<Longrightarrow> yields (bindr (deref p s) k) P"
  by (cases "deref p s") simp_all

section \<open>Quiet steps\<close>

text \<open>
  A descriptor before and after: only the contents of its control block may differ, and only as
  far as the relation \<open>R\<close> allows.
\<close>

definition recontrolled :: "(ctrl_t \<Rightarrow> ctrl_t \<Rightarrow> bool) \<Rightarrow> interface_t \<Rightarrow> interface_t \<Rightarrow> bool" where
  "recontrolled R x y \<longleftrightarrow> y\<lparr>ctrl := ctrl x\<rparr> = x \<and> rel_option R (ctrl x) (ctrl y)"

lemma recontrolled_fields:
  assumes "recontrolled R x y"
  shows "if_id y = if_id x" "argc y = argc x" "retc y = retc x" "arg_flags y = arg_flags x" "ret_flags y = ret_flags x"
    "info y = info x" "ctrl y = None \<longleftrightarrow> ctrl x = None"
proof -
  have eq: "y\<lparr>ctrl := ctrl x\<rparr> = x" and rel: "rel_option R (ctrl x) (ctrl y)"
    using assms by (simp_all add: recontrolled_def)
  from eq show "if_id y = if_id x" "argc y = argc x" "retc y = retc x" "arg_flags y = arg_flags x"
    "ret_flags y = ret_flags x" "info y = info x" by (cases x; cases y; simp)+
  from rel show "ctrl y = None \<longleftrightarrow> ctrl x = None" by (cases "ctrl x"; cases "ctrl y") simp_all
qed

lemma recontrolled_ok: "recontrolled R x y \<Longrightarrow> descriptor_ok y = descriptor_ok x"
  by (simp add: descriptor_ok_def recontrolled_fields cong: option.case_cong)

text \<open>
  A step is quiet if it changes the memory only: it allocates, and every descriptor that was
  there is still there, recontrolled.
\<close>

definition quiet :: "(ctrl_t \<Rightarrow> ctrl_t \<Rightarrow> bool) \<Rightarrow> 'z mem_scheme \<Rightarrow> 'z mem_scheme \<Rightarrow> bool" where
  "quiet R s t \<longleftrightarrow> mem.more t = mem.more s \<and> next_ptr s \<le> next_ptr t \<and>
     (\<forall>p \<in> dom (heap t). p \<in> dom (heap s) \<or> next_ptr s \<le> p \<and> p < next_ptr t) \<and>
     (\<forall>p x. heap s p = Some x \<longrightarrow> (\<exists>y. heap t p = Some y \<and> recontrolled R x y))"

lemma quiet_emit [simp]: "quiet R s (emit ev t) = quiet R s t"
  by (simp add: quiet_def emit_def)

lemma quiet_more: "quiet R s t \<Longrightarrow> mem.more t = mem.more s"
  by (simp add: quiet_def)

lemma quiet_new:
  assumes "quiet R s t" and "mem_wf s"
  shows "quiet R s (snd (new_interface x t))"
proof -
  have "next_ptr t \<notin> dom (heap s)"
    using assms by (meson leD mem_wf_def quiet_def)
  then have old: "p \<noteq> next_ptr t" if "heap s p = Some y" for p y using that by auto
  then show ?thesis using assms(1) unfolding quiet_def new_interface_def by (auto simp: less_Suc_eq)
qed

lemma quiet_store: "quiet R s t \<Longrightarrow> heap s p = None \<Longrightarrow> heap t p \<noteq> None \<Longrightarrow> quiet R s (store p x t)"
  by (auto simp: quiet_def store_def)

lemma quiet_release: "quiet R s t \<Longrightarrow> heap s p = None \<Longrightarrow> quiet R s (release p t)"
  by (auto simp: quiet_def release_def)

lemma fresh_pointer: "mem_wf s \<Longrightarrow> quiet R s t \<Longrightarrow> heap s (next_ptr t) = None"
  by (meson domI leD mem_wf_def not_Some_eq quiet_def)

section \<open>Frames\<close>

text \<open>
  A frame of calls: the relation is a preorder, and a control block may get another socket to
  wait for a result.
\<close>

locale control_frame =
  fixes R :: "ctrl_t \<Rightarrow> ctrl_t \<Rightarrow> bool"
  assumes unchanged: "R c c"
    and composed: "R c d \<Longrightarrow> R d f \<Longrightarrow> R c f"
    and waits: "R c (c\<lparr>socket := so\<rparr>)"
begin

lemma recontrolled_refl [simp]: "recontrolled R x x"
  by (simp add: recontrolled_def option.rel_refl unchanged)

lemma recontrolled_trans:
  assumes "recontrolled R x y" and "recontrolled R y z"
  shows "recontrolled R x z"
proof -
  have eq: "y\<lparr>ctrl := ctrl x\<rparr> = x" "z\<lparr>ctrl := ctrl y\<rparr> = y"
    and rel: "rel_option R (ctrl x) (ctrl y)" "rel_option R (ctrl y) (ctrl z)"
    using assms by (simp_all add: recontrolled_def)
  have "z\<lparr>ctrl := ctrl y\<rparr>\<lparr>ctrl := ctrl x\<rparr> = x" by (simp only: eq)
  moreover have "rel_option R (ctrl x) (ctrl z)"
    using rel by (cases "ctrl x"; cases "ctrl y"; cases "ctrl z"; simp) (rule composed)
  ultimately show ?thesis by (simp add: recontrolled_def)
qed

lemma recontrolled_write: "ctrl x = Some c \<Longrightarrow> R c d \<Longrightarrow> recontrolled R x (x\<lparr>ctrl := Some d\<rparr>)"
  by (cases x) (simp add: recontrolled_def)

lemma quiet_refl [simp]: "quiet R s s"
  by (simp add: quiet_def)

lemma quiet_recontrol:
  assumes q: "quiet R s t" and x: "heap t p = Some x" and y: "recontrolled R x y"
  shows "quiet R s (store p y t)"
proof -
  have "\<exists>z. ((heap t)(p \<mapsto> y)) p' = Some z \<and> recontrolled R w z" if w: "heap s p' = Some w" for p' w
  proof (cases "p' = p")
    case True
    then have "recontrolled R w x" using q w x unfolding quiet_def by fastforce
    then show ?thesis using recontrolled_trans [OF _ y] True by simp
  qed (use q w in \<open>auto simp: quiet_def\<close>)
  then show ?thesis using q x by (auto simp: quiet_def store_def)
qed

lemma quiet_write_ctrl:
  assumes "quiet R s t" and "\<And>c. R c (f c)"
  shows "yields (write_ctrl p f t) (quiet R s)"
  using quiet_recontrol [OF assms(1) _ recontrolled_write [OF _ assms(2)]]
  by (auto simp: yields_def write_ctrl_def bindr_eq_Inr deref_eq_Inr split: option.splits)

lemma quiet_wait: "quiet R s t \<Longrightarrow> yields (write_ctrl p (\<lambda>c. c\<lparr>socket := so\<rparr>) t) (quiet R s)"
  by (rule quiet_write_ctrl [OF _ waits])

paragraph \<open>The handlers\<close>

lemma quiet_sendto: "quiet R s t \<Longrightarrow> yields (sock_sendto e sock a b n t) (\<lambda>(r, u). quiet R s u)"
  by (auto simp: yields_def sock_sendto_def bindr_eq_Inr split: option.splits if_splits)

lemma quiet_recvfrom: "quiet R s t \<Longrightarrow> yields (sock_recvfrom e sock b n t) (\<lambda>(r, a, b, u). quiet R s u)"
  by (auto simp: yields_def sock_recvfrom_def bindr_eq_Inr Let_def split: option.splits if_splits prod.splits)

lemma quiet_recv_int: "quiet R s t \<Longrightarrow> yields (recv_int e sock v t) (\<lambda>(v, u). quiet R s u)"
  by (auto simp: yields_def recv_int_def Let_def split: option.splits if_splits prod.splits)

lemma quiet_send_msg: "quiet R s t \<Longrightarrow> yields (send_msg_to_user e sk portid data n t) (\<lambda>(r, u). quiet R s u)"
  by (auto simp: yields_def send_msg_to_user_def bindr_eq_Inr Let_def split: option.splits if_splits)

text \<open>
  The statements of a handler one by one: those with an effect first, the rest cannot change
  the state.
\<close>

lemmas noisy = yields_bindr [OF quiet_sendto] yields_bindr [OF quiet_recvfrom]
  yields_bindr [OF quiet_recv_int] yields_bindr [OF quiet_send_msg] yields_bindr [OF quiet_wait]

lemma quiet_result: "quiet R s t \<Longrightarrow> yields (handle_interface_result e packet n portid t) (quiet R s)"
  unfolding handle_interface_result_def
  by ((rule noisy, assumption) | rule yields_any | clarsimp)+

lemma quiet_fetch: "quiet R s t \<Longrightarrow> yields (fetch_interface_info e packet n sock t) (\<lambda>(r, u). quiet R s u)"
  unfolding fetch_interface_info_def
  by ((rule noisy, assumption) | rule yields_any | clarsimp split: option.split sum.split)+

lemma quiet_execute: "quiet R s t \<Longrightarrow> yields (execute_interface e packet n sock t) (\<lambda>(r, u). quiet R s u)"
  unfolding execute_interface_def
  by ((rule noisy, assumption) | rule yields_any | (rule quiet_fetch, assumption) | rule conjI impI | clarsimp)+

lemma quiet_connection: "quiet R s t \<Longrightarrow> yields (handle_connection e k t) (\<lambda>(r, u). quiet R s u)"
  unfolding handle_connection_def Let_def
  by ((rule noisy yields_bindr [OF quiet_execute], assumption) | rule yields_any | rule conjI impI allI | clarsimp split: cptr.split)+

lemma quiet_alloc:
  "quiet R s t \<Longrightarrow> mem_wf s \<Longrightarrow> yields (alloc_interface ok a r i v w t) (\<lambda>(p, u). quiet R s u \<and> p = next_ptr t \<and> heap u p \<noteq> None)"
  using quiet_new [of R s t]
  by (auto simp: yields_def alloc_interface_def bindr_eq_Inr) (auto simp: new_interface_def)

lemma quiet_test_execute:
  assumes wf: "mem_wf s"
  shows "yields (test_execute e u s) (\<lambda>(r, t). quiet R s t)"
proof -
  note alloc = yields_bindr [OF quiet_alloc [OF quiet_refl wf]]
  have store: "quiet R s (store (next_ptr s) x t)" if "quiet R s t" "heap t (next_ptr s) \<noteq> None" for x t
    using that quiet_store fresh_pointer [OF wf quiet_refl] by blast
  show ?thesis
    unfolding test_execute_def Let_def
    by (rule alloc | (rule yields_bindr [OF quiet_execute], rule store, assumption, blast) | rule yields_any | clarsimp)+
qed

lemma quiet_init_socket: "quiet R s t \<Longrightarrow> yields (init_socket e i t) (\<lambda>(r, so, u). quiet R s u)"
  unfolding init_socket_def Let_def
  by ((rule noisy, assumption) | rule yields_any | rule conjI impI allI | clarsimp split: sum.split)+

lemma quiet_end_execute: "quiet R s t \<Longrightarrow> yields (end_execute b sock err t) (\<lambda>(r, u). quiet R s u)"
  by (simp add: end_execute_def split: cptr.split)

lemma quiet_remote_call:
  assumes q: "heap s q = None"
  shows "quiet R s t \<Longrightarrow> yields (execute_remote_interface e i q t) (\<lambda>(r, u). quiet R s u)"
proof -
  have store: "quiet R s (store q x u)" if "quiet R s u" "deref q u = Inr y" for x y u
    using that q by (auto simp: deref_eq_Inr intro: quiet_store)
  show "quiet R s t \<Longrightarrow> yields (execute_remote_interface e i q t) (\<lambda>(r, u). quiet R s u)"
    unfolding execute_remote_interface_def
    by ((rule noisy yields_bindr [OF quiet_init_socket] quiet_end_execute, assumption)
      | (rule quiet_end_execute, rule store, assumption, assumption) | rule yields_deref | rule yields_any
      | rule conjI impI allI | clarsimp split: option.split cptr.split)+
qed

lemma quiet_peer_ioctl:
  assumes wf: "mem_wf s"
  shows "yields (peer_ioctl e i u s) (\<lambda>(r, vals, t). quiet R s t)"
proof -
  have fresh: "heap s (next_ptr s) = None" by (rule fresh_pointer [OF wf quiet_refl])
  note call = yields_bindr [OF quiet_remote_call [OF fresh]]
  have new: "quiet R s (s\<lparr>heap := (heap s)(next_ptr s \<mapsto> x), next_ptr := Suc (next_ptr s)\<rparr>)" for x
    using quiet_new [OF quiet_refl wf, of x] by (simp add: new_interface_def)
  show ?thesis
    unfolding peer_ioctl_def Let_def
    by ((rule call, rule new) | rule quiet_release [OF _ fresh] | rule yields_deref | rule yields_any
      | rule conjI impI allI | clarsimp simp: new_interface_def split: option.split cptr.split)+
qed

end

text \<open>A frame of messages: a control block may also be activated for a port.\<close>

locale message_frame = control_frame +
  assumes activates: "R c (activate portid c)"
begin

lemma quiet_activate_scan: "quiet R s t \<Longrightarrow> yields (activate_scan ids portid i j n t) (quiet R s)"
proof (induction n arbitrary: j)
  case (Suc n)
  then show ?case by (auto intro!: yields_any quiet_write_ctrl activates)
qed simp

lemma quiet_activate: "quiet R s t \<Longrightarrow> yields (handle_activate_interface packet n portid t) (quiet R s)"
  unfolding handle_activate_interface_def
  by (auto intro!: yields_any yields_loop quiet_activate_scan)

lemma quiet_income: "quiet R s t \<Longrightarrow> yields (handle_netlink_income e msg t) (quiet R s)"
  unfolding handle_netlink_income_def Let_def
  by (auto intro!: yields_any quiet_activate quiet_result)

end

section \<open>The two frames of the module\<close>

text \<open>Calls change the socket alone, messages the port and the mark of activation as well.\<close>

definition waiting_changes :: "ctrl_t \<Rightarrow> ctrl_t \<Rightarrow> bool" where
  "waiting_changes c d \<longleftrightarrow> d\<lparr>socket := socket c\<rparr> = c"

definition messages_change :: "ctrl_t \<Rightarrow> ctrl_t \<Rightarrow> bool" where
  "messages_change c d \<longleftrightarrow>
     d\<lparr>activated := activated c, client_portid := client_portid c, socket := socket c\<rparr> = c"

interpretation waiting: control_frame waiting_changes
proof
  show "waiting_changes c c" for c by (simp add: waiting_changes_def)
  show "waiting_changes c d \<Longrightarrow> waiting_changes d f \<Longrightarrow> waiting_changes c f" for c d f
    by (cases c; cases d; cases f) (simp add: waiting_changes_def)
  show "waiting_changes c (c\<lparr>socket := so\<rparr>)" for c so by (simp add: waiting_changes_def)
qed

interpretation messages: message_frame messages_change
proof
  show "messages_change c c" for c by (simp add: messages_change_def)
  show "messages_change c d \<Longrightarrow> messages_change d f \<Longrightarrow> messages_change c f" for c d f
    by (cases c; cases d; cases f) (simp add: messages_change_def)
  show "messages_change c (c\<lparr>socket := so\<rparr>)" for c so by (cases c) (simp add: messages_change_def)
  show "messages_change c (activate p c)" for c p by (cases c) (simp add: messages_change_def activate_def)
qed

end
