(* ===== verification/Node.thy ===== *)
theory Node
  imports Quiet
begin

text \<open>
  A node as a transition system: every handler of the module is a step of the kernel's state,
  and the steps happen in any order. The theory shows that a well-formed state stays
  well-formed, and what the network can change of the interfaces.
\<close>

section \<open>Well-formed states stay well-formed\<close>

text \<open>
  A step that keeps the table of peers, and whose registry leads only to descriptors it led to
  before or to new ones, keeps the whole invariant: the peers' descriptors are still there and
  still belong to the peers alone.
\<close>

lemma kernel_ok_step:
  fixes s t :: "'z kstate_scheme"
  assumes ok: "kernel_ok s" and r: "registry_ok t" and m: "registry.more t = registry.more s"
    and l: "\<And>p. Some p \<in> set (live_slots t) \<Longrightarrow> Some p \<in> set (live_slots s) \<or> heap s p = None"
    and h: "\<And>p. Some p \<notin> set (live_slots s) \<Longrightarrow> heap s p \<noteq> None \<Longrightarrow> heap t p \<noteq> None"
  shows "kernel_ok t"
proof -
  have f: "peers t = peers s" "peer_count t = peer_count s" "peer_class t = peer_class s"
    using m by (cases s; cases t; simp)+
  have pl: "peers_list t = peers_list s" and ow: "owned t = owned s"
    by (simp_all add: peers_list_def owned_def f cong: option.case_cong)
  have live: "\<exists>p. x = Some p \<and> p \<noteq> 0 \<and> heap s p \<noteq> None \<and> Some p \<notin> set (live_slots s)" if "x \<in> set (owned s)" for x
  proof -
    have "live s x" "x \<notin> set (live_slots s)" using ok that by (auto simp: kernel_ok_def list_all_iff)
    then show ?thesis by (auto simp: live_def)
  qed
  have "list_all (live t) (owned t)" using live h by (fastforce simp: ow list_all_iff live_def)
  moreover have "set (owned t) \<inter> set (live_slots t) = {}"
    using live l unfolding ow by (metis (no_types, lifting) disjoint_iff)
  moreover have "table_shape t" using ok by (simp add: kernel_ok_def table_shape_def pl f cong: option.case_cong)
  ultimately show ?thesis using ok r by (simp add: kernel_ok_def ow f)
qed

lemma quiet_mem_wf:
  assumes "quiet R s t" and "mem_wf s"
  shows "mem_wf t"
proof -
  have n: "next_ptr s \<le> next_ptr t" "0 < next_ptr s" using assms by (simp_all add: quiet_def mem_wf_def)
  have "0 < p \<and> p < next_ptr t" if "p \<in> dom (heap t)" for p
  proof (cases "p \<in> dom (heap s)")
    case True
    then have "0 < p \<and> p < next_ptr s" using assms(2) unfolding mem_wf_def by blast
    then show ?thesis using n(1) by simp
  next
    case False
    then have "next_ptr s \<le> p \<and> p < next_ptr t" using assms(1) that unfolding quiet_def by blast
    then show ?thesis using n(2) by simp
  qed
  then show ?thesis using n by (simp add: mem_wf_def)
qed

lemma quiet_registry_ok:
  fixes s t :: "'z registry_scheme"
  assumes q: "quiet R s t" and ok: "registry_ok s"
  shows "registry_ok t" "live_slots t = live_slots s"
proof -
  have m: "INTERFACE_LIST t = INTERFACE_LIST s" "INTERFACE_COUNT t = INTERFACE_COUNT s"
      "INTERFACE_CAPACITY t = INTERFACE_CAPACITY s"
    using q by (cases s; cases t; simp add: quiet_def)+
  then show sl: "live_slots t = live_slots s" by (simp add: live_slots_def slots_of_def)
  have h: "\<exists>y. heap t p = Some y \<and> recontrolled R x y" if "heap s p = Some x" for p x
    using q that by (simp add: quiet_def)
  have e: "\<exists>p y. live_slots s ! i = Some p \<and> p \<noteq> 0 \<and> heap t p = Some y \<and>
      interfaces_of t ! i = y \<and> recontrolled R (interfaces_of s ! i) y" if i: "i < length (live_slots s)" for i
  proof -
    obtain p where p: "live_slots s ! i = Some p" "p \<noteq> 0" "heap s p = Some (interfaces_of s ! i)"
      using registry_ok_describes [OF ok] i by (auto simp: describes_def list_all2_conv_all_nth)
    then show ?thesis using h [OF p(3)] i by (auto simp: interfaces_of_def sl)
  qed
  have len: "length (interfaces_of t) = length (live_slots s)" "length (interfaces_of s) = length (live_slots s)"
    by (simp_all add: interfaces_of_def sl)
  have "describes (live_slots t) t (interfaces_of t)"
    unfolding describes_def sl list_all2_conv_all_nth using e len by metis
  moreover have "list_all descriptor_ok (interfaces_of t)"
    unfolding list_all_length
  proof (intro allI impI)
    fix i assume "i < length (interfaces_of t)"
    then have i: "i < length (live_slots s)" by (simp add: len)
    then have "descriptor_ok (interfaces_of s ! i)" using ok len by (simp add: registry_ok_def list_all_length)
    then show "descriptor_ok (interfaces_of t ! i)" using e [OF i] recontrolled_ok by metis
  qed
  ultimately show "registry_ok t"
    using ok quiet_mem_wf [OF q] m by (simp add: registry_ok_def slots_of_def)
qed

lemma quiet_kernel_ok:
  fixes s t :: "'z kstate_scheme"
  assumes q: "quiet R s t" and ok: "kernel_ok s"
  shows "kernel_ok t"
proof (rule kernel_ok_step [OF ok])
  have r: "registry_ok s" using ok by (simp add: kernel_ok_def)
  show "registry_ok t" by (rule quiet_registry_ok [OF q r])
  show "registry.more t = registry.more s" using q by (cases s; cases t; simp add: quiet_def)
  show "Some p \<in> set (live_slots t) \<Longrightarrow> Some p \<in> set (live_slots s) \<or> heap s p = None" for p
    using quiet_registry_ok(2) [OF q r] by simp
  show "heap s p \<noteq> None \<Longrightarrow> heap t p \<noteq> None" for p using q by (fastforce simp: quiet_def)
qed

text \<open>
  What a registration needs to leave a complete descriptor, and what \<open>register_interface\<close> does not
  check: the process passes the names of as many arguments and results as it announces, every
  allocation is granted, and the identifiers of the list fit the search.
\<close>

definition registration_fits :: "kenv \<Rightarrow> interface_t \<Rightarrow> 'z registry_scheme \<Rightarrow> bool" where
  "registration_fits e u s \<longleftrightarrow> user_descriptor_ok u \<and> kmem_upto e (register_bytes u s) \<and>
     unat (INTERFACE_COUNT s) < 2 ^ 31"

lemma registered_kernel_ok:
  fixes s t :: "'z kstate_scheme"
  assumes ok: "kernel_ok s" and fits: "registration_fits e u s"
    and run: "register_interface e pid u s = Inr (r, t)"
  shows "kernel_ok t"
proof -
  have u: "user_descriptor_ok u" "kmem_upto e (register_bytes u s)" and n: "unat (INTERFACE_COUNT s) < 2 ^ 31"
    using fits by (simp_all add: registration_fits_def)
  have reg: "registry_ok s" and wf: "mem_wf s" using ok by (simp_all add: kernel_ok_def registry_ok_def)
  have t: "registry_ok t" "live_slots t = live_slots s @ [Some (next_ptr s)]"
      "heap t = (heap s)(next_ptr s \<mapsto> registered e pid u s)" "registry.more t = registry.more s"
    using register_run [OF reg u n, of pid] run by auto
  show ?thesis
    by (rule kernel_ok_step [OF ok t(1,4)])
      (use t(2,3) fresh_pointer [OF wf waiting.quiet_refl] in \<open>auto split: if_splits\<close>)
qed

lemma removed_kernel_ok:
  fixes s t :: "'z kstate_scheme"
  assumes ok: "kernel_ok s" and run: "remove_interface idv s = Inr (r, t)"
  shows "kernel_ok t"
proof (cases "index_of idv (interfaces_of s)")
  case None
  then show ?thesis using ok run remove_interface_unknown [of s idv] by (simp add: kernel_ok_def)
next
  case (Some i)
  have reg: "registry_ok s" using ok by (simp add: kernel_ok_def)
  have "i = 0 \<longrightarrow> length (interfaces_of s) = 1"
    using remove_first [OF reg, of idv] run Some index_of_SomeD [OF Some]
    by (cases "1 < length (interfaces_of s)") auto
  from remove_interface_run [OF reg Some this] run
  have t: "registry_ok t" "set (live_slots t) \<subseteq> set (live_slots s)" "registry.more t = registry.more s"
      "\<exists>p. Some p \<in> set (live_slots s) \<and> heap t = (heap s)(p := None)" by auto
  show ?thesis by (rule kernel_ok_step [OF ok t(1,3)]) (use t(2,4) in auto)
qed

lemma kernel_ok_ready:
  fixes s :: "'z kstate_scheme"
  assumes ok: "kernel_ok s"
  shows "kernel_ok (interfaces_ready e s)"
proof (cases "INTERFACE_LIST s = None")
  case True
  have r: "registry_ok s" using ok by (simp add: kernel_ok_def)
  have c: "INTERFACE_COUNT s = 0" using registry_empty [OF r True] by simp
  show ?thesis
    by (rule kernel_ok_step [OF ok])
      (use init_interfaces_view [OF r True, of "kmem e"] True c in
        \<open>simp_all add: interfaces_ready_def init_interfaces_def live_slots_def\<close>)
next
  case False
  then show ?thesis using ok by (auto simp: interfaces_ready_def)
qed

lemma broadcast_kernel_ok:
  fixes s :: "'z kstate_scheme"
  assumes ok: "kernel_ok s"
  shows "yields (do_broadcast e a s) (\<lambda>(r, t). kernel_ok t)"
proof -
  have em: "kernel_ok (emit ev u) = kernel_ok u" if "kernel_ok u" for ev and u :: "'z kstate_scheme"
    using kernel_ok_emit [OF that] that by simp
  have send: "yields (sock_sendto e sock addr buf n u) (\<lambda>(r, t). kernel_ok t)" if "kernel_ok u"
    for sock addr buf n and u :: "'z kstate_scheme"
    using quiet_kernel_ok [OF _ that] waiting.quiet_sendto [OF waiting.quiet_refl, of e sock addr buf n u]
    by (auto simp: yields_def)
  have ready: "kernel_ok (interfaces_ready e u)" if "kernel_ok u" for u :: "'z kstate_scheme"
    by (rule kernel_ok_ready [OF that])
  show ?thesis
    unfolding do_broadcast_def Let_def
    by ((rule yields_bindr [OF send], simp add: em ok ready) | rule yields_any | rule conjI impI allI
      | clarsimp simp: em ok ready split: sum.split)+
qed

section \<open>The transition system\<close>

text \<open>
  What processes of the node can make the module do: register and remove interfaces, send
  netlink messages, call interfaces of a peer or of the node itself, and let the broadcast
  thread run. The code registers whatever it is passed, so \<open>G\<close> is a condition on the processes
  and the allocator, not a check of the module: \<open>G = (\<lambda>_ _. True)\<close> is every registration, and the
  theorems say which \<open>G\<close> they need.
\<close>

inductive local_step ::
  "(interface_t \<Rightarrow> 'z kstate_scheme \<Rightarrow> bool) \<Rightarrow> kenv \<Rightarrow> 'z kstate_scheme \<Rightarrow> 'z kstate_scheme \<Rightarrow> bool"
  for G e where
  registers: "G u s \<Longrightarrow> register_interface e pid u s = Inr (r, t) \<Longrightarrow> local_step G e s t"
| removes: "remove_interface idv s = Inr (r, t) \<Longrightarrow> local_step G e s t"
| sends: "handle_netlink_income e msg s = Inr t \<Longrightarrow> local_step G e s t"
| calls: "peer_ioctl e i u s = Inr (r, vals, t) \<Longrightarrow> local_step G e s t"
| tries: "test_execute e u s = Inr (r, t) \<Longrightarrow> local_step G e s t"
| advertises: "do_broadcast e a s = Inr (r, t) \<Longrightarrow> local_step G e s t"

text \<open>What other nodes can make it do: serve a connection and read a broadcast.\<close>

inductive network_step :: "kenv \<Rightarrow> 'z kstate_scheme \<Rightarrow> 'z kstate_scheme \<Rightarrow> bool" for e where
  connects: "handle_connection e k s = Inr (r, t) \<Longrightarrow> network_step e s t"
| discovers: "length buffer = DISCOVERY_BUFFER \<Longrightarrow>
    discovery_step e sock (buffer, a, s) = Inr (buffer', a', t) \<Longrightarrow> network_step e s t"

inductive_cases local_stepE: "local_step G e s t"
inductive_cases network_stepE: "network_step e s t"

definition node_step ::
  "(interface_t \<Rightarrow> 'z kstate_scheme \<Rightarrow> bool) \<Rightarrow> kenv \<Rightarrow> 'z kstate_scheme \<Rightarrow> 'z kstate_scheme \<Rightarrow> bool" where
  "node_step G e s t \<longleftrightarrow> local_step G e s t \<or> network_step e s t"

lemma kernel_mem_wf: "kernel_ok s \<Longrightarrow> mem_wf s"
  by (simp add: kernel_ok_def registry_ok_def)

lemma local_step_ok:
  fixes s t :: "'z kstate_scheme"
  assumes ok: "kernel_ok s" and step: "local_step (registration_fits e) e s t"
  shows "kernel_ok t"
  using step
proof (cases rule: local_step.cases)
  case (registers u pid r)
  then show ?thesis by (rule registered_kernel_ok [OF ok])
next
  case (removes idv r)
  then show ?thesis by (rule removed_kernel_ok [OF ok])
next
  case (sends msg)
  show ?thesis by (rule quiet_kernel_ok [OF yieldsD [OF messages.quiet_income [OF messages.quiet_refl] sends] ok])
next
  case (calls i u r vals)
  have "quiet messages_change s t" using yieldsD [OF messages.quiet_peer_ioctl [OF kernel_mem_wf [OF ok]] calls] by simp
  then show ?thesis by (rule quiet_kernel_ok [OF _ ok])
next
  case (tries u r)
  have "quiet messages_change s t" using yieldsD [OF messages.quiet_test_execute [OF kernel_mem_wf [OF ok]] tries] by simp
  then show ?thesis by (rule quiet_kernel_ok [OF _ ok])
next
  case (advertises a r)
  show ?thesis using yieldsD [OF broadcast_kernel_ok [OF ok] advertises] by simp
qed

text \<open>The registry after a step of the network: the same descriptors, but for control blocks.\<close>

lemma quiet_interfaces:
  fixes s t :: "'z registry_scheme"
  assumes q: "quiet R s t" and ok: "registry_ok s"
  shows "list_all2 (recontrolled R) (interfaces_of s) (interfaces_of t)"
proof -
  note sl = quiet_registry_ok(2) [OF q ok]
  have "recontrolled R (interfaces_of s ! i) (interfaces_of t ! i)" if i: "i < length (live_slots s)" for i
  proof -
    obtain p where p: "live_slots s ! i = Some p" "heap s p = Some (interfaces_of s ! i)"
      using registry_ok_describes [OF ok] i by (auto simp: describes_def list_all2_conv_all_nth)
    then obtain y where "heap t p = Some y" "recontrolled R (interfaces_of s ! i) y"
      using q unfolding quiet_def by blast
    then show ?thesis using i p(1) by (simp add: interfaces_of_def sl)
  qed
  then show ?thesis by (simp add: list_all2_conv_all_nth interfaces_of_def sl)
qed

lemma network_step_ok:
  fixes s t :: "'z kstate_scheme"
  assumes ok: "kernel_ok s" and step: "network_step e s t"
  shows "kernel_ok t \<and> list_all2 (recontrolled waiting_changes) (interfaces_of s) (interfaces_of t)"
  using step
proof (cases rule: network_step.cases)
  case (connects k r)
  have q: "quiet waiting_changes s t" using yieldsD [OF waiting.quiet_connection [OF waiting.quiet_refl] connects] by simp
  have "registry_ok s" using ok by (simp add: kernel_ok_def)
  then show ?thesis using quiet_kernel_ok [OF q ok] quiet_interfaces [OF q] by blast
next
  case (discovers buffer sock a buffer' a')
  have "discovery_ok (buffer, a, s)" using ok discovers(1) by (simp add: discovery_ok_def)
  from discovery_step_ok [OF this discovers(2)] show ?thesis
    by (simp add: discovery_ok_def list_all2_refl)
qed

lemma network_steps_ok:
  fixes s t :: "'z kstate_scheme"
  assumes "(network_step e)\<^sup>*\<^sup>* s t" and "kernel_ok s"
  shows "kernel_ok t \<and> list_all2 (recontrolled waiting_changes) (interfaces_of s) (interfaces_of t)"
  using assms
proof (induction rule: rtranclp_induct)
  case base
  then show ?case by (simp add: list_all2_refl)
next
  case (step t u)
  then have t: "kernel_ok t" "list_all2 (recontrolled waiting_changes) (interfaces_of s) (interfaces_of t)" by auto
  from network_step_ok [OF t(1) step.hyps(2)] have u: "kernel_ok u"
    "list_all2 (recontrolled waiting_changes) (interfaces_of t) (interfaces_of u)" by auto
  from u(1) list_all2_trans [OF waiting.recontrolled_trans t(2) u(2)] show ?case by simp
qed

lemma waiting_socket:
  assumes "recontrolled waiting_changes x y"
  shows "set_ctrl (\<lambda>c. c\<lparr>socket := None\<rparr>) y = set_ctrl (\<lambda>c. c\<lparr>socket := None\<rparr>) x"
proof -
  have eq: "y\<lparr>ctrl := ctrl x\<rparr> = x" and rel: "rel_option waiting_changes (ctrl x) (ctrl y)"
    using assms by (simp_all add: recontrolled_def)
  have "d\<lparr>socket := None\<rparr> = c\<lparr>socket := None\<rparr>" if "waiting_changes c d" for c d
    using that by (cases c; cases d) (simp add: waiting_changes_def)
  then have "map_option (\<lambda>c. c\<lparr>socket := None\<rparr>) (ctrl y) = map_option (\<lambda>c. c\<lparr>socket := None\<rparr>) (ctrl x)"
    using rel by (cases "ctrl x"; cases "ctrl y") simp_all
  moreover have "y\<lparr>ctrl := z\<rparr> = x\<lparr>ctrl := z\<rparr>" for z
    using arg_cong [OF eq, of "\<lambda>w. w\<lparr>ctrl := z\<rparr>"] by simp
  ultimately show ?thesis by (simp add: set_ctrl_def)
qed

section \<open>Properties\<close>

lemma node_steps_ok: "(node_step (registration_fits e) e)\<^sup>*\<^sup>* s t \<Longrightarrow> kernel_ok s \<Longrightarrow> kernel_ok t"
  by (induction rule: rtranclp_induct) (auto simp: node_step_def dest: local_step_ok network_step_ok)

text \<open>
  C10: as long as every registration fits (the descriptor a process passes has the names it
  announces, the allocator grants what the registration asks for, and there are fewer than
  2^31 interfaces), the state of the module stays well-formed, whatever else the processes of a
  node and the other nodes do, in whatever order: every registered interface is complete and
  every pointer of the list leads to one, there are at most 256 peers with distinct addresses,
  each owns its descriptors, and no search of the registry can fault.
\<close>

theorem node_stays_well_formed:
  assumes "kernel_ok s" and "(node_step (registration_fits e) e)\<^sup>*\<^sup>* s t"
  shows "kernel_ok t \<and> list_all descriptor_ok (interfaces_of t) \<and> length (peers_list t) \<le> 256 \<and>
    distinct (map peer_addr (peers_list t)) \<and>
    (unat (INTERFACE_COUNT t) < 2 ^ 31 \<longrightarrow>
      (\<forall>idv. find_interface (INTERFACE_LIST t) (sint (INTERFACE_COUNT t)) idv t \<in> range Inr))"
proof -
  have ok: "kernel_ok t" by (rule node_steps_ok [OF assms(2,1)])
  then have "registry_ok t" "table_shape t" by (simp_all add: kernel_ok_def)
  then show ?thesis
    using ok length_peers_list [of t] find_registered [of t]
    by (auto simp: table_shape_def registry_ok_def)
qed

text \<open>
  C20: nothing that other nodes send adds, removes or changes an interface of this one: connections
  and broadcasts leave the identifiers, the counts, the flags, the descriptions, the activation
  and the port and the process of every interface as they are, in their order. Only the socket
  that waits for a result can differ.
\<close>

theorem network_keeps_interfaces:
  assumes "kernel_ok s" and "(network_step e)\<^sup>*\<^sup>* s t"
  shows "map (set_ctrl (\<lambda>c. c\<lparr>socket := None\<rparr>)) (interfaces_of t)
    = map (set_ctrl (\<lambda>c. c\<lparr>socket := None\<rparr>)) (interfaces_of s)"
proof -
  have "list_all2 (recontrolled waiting_changes) (interfaces_of s) (interfaces_of t)"
    by (rule network_steps_ok [OF assms(2,1), THEN conjunct2])
  then show ?thesis using waiting_socket by (auto simp: list_all2_conv_all_nth intro!: nth_equalityI)
qed

section \<open>A registration that does not fit\<close>

text \<open>
  The condition on registrations is needed: when only the one byte of the flags is refused, the
  registration still succeeds, and the descriptor it puts into the list has no flags.
\<close>

definition flagless_kernel :: kenv where
  "flagless_kernel = kind_kernel\<lparr>kmem := (\<lambda>n. n \<noteq> 1 \<and> kmalloc_max n)\<rparr>"

lemma refused_flags_registered:
  "\<exists>r t. register_interface flagless_kernel 42 user_descriptor fresh_kernel = Inr (r, t) \<and>
    length (interfaces_of t) = 1 \<and> arg_flags (interfaces_of t ! 0) = PNull \<and> argc (interfaces_of t ! 0) = 1"
  by (simp add: register_interface_def alloc_interface_def alloc_info_def flagless_kernel_def
      kind_kernel_def kgrant_def kmalloc_max_def user_descriptor_def blank_interface_def
      kzalloc_array_def kzalloc_bytes_def write_ctrl_def read_ctrl_def fresh_kernel_def
      new_interface_def deref_def Let_def add_interface_to_proc_def copy_user_info_def
      append_interface_def krealloc_slots_def slot_write_def store_def copy_user_attr_def info_0_def
      attr_info_0_def ctrl_0_def emit_def interfaces_of_def live_slots_def slots_of_def)
lemma refused_flags_break:
  "\<exists>t. node_step (\<lambda>_ _. True) flagless_kernel fresh_kernel t \<and> \<not> registry_ok t"
proof -
  obtain r t where t: "register_interface flagless_kernel 42 user_descriptor fresh_kernel = Inr (r, t)"
      "length (interfaces_of t) = 1" "arg_flags (interfaces_of t ! 0) = PNull"
    using refused_flags_registered by blast
  then have "\<not> descriptor_ok (interfaces_of t ! 0)" by (simp add: descriptor_ok_def flags_ok_def)
  then have "\<not> registry_ok t" using t(2) by (simp add: registry_ok_def list_all_length)
  moreover have "node_step (\<lambda>_ _. True) flagless_kernel fresh_kernel t"
    unfolding node_step_def by (rule disjI1, rule registers [OF TrueI t(1)])
  ultimately show ?thesis by blast
qed

section \<open>Examples\<close>

lemma one_registered:
  obtains s where "kernel_ok s" "table_ok s" "KERN_NETLINK s = Some 0"
    "interfaces_of s = [registered kind_kernel 42 user_descriptor fresh_kernel]"
    "local_step (registration_fits kind_kernel) kind_kernel fresh_kernel s"
proof -
  have n: "kmem_upto kind_kernel (register_bytes user_descriptor fresh_kernel)"
    by (rule kind_kernel_mem) (simp add: register_bytes_def user_descriptor_def blank_interface_def fresh_kernel_def)
  have reg: "registry_ok fresh_kernel" using fresh_kernel_ok by (simp add: kernel_ok_def)
  have c: "unat (INTERFACE_COUNT fresh_kernel) < 2 ^ 31" by (simp add: fresh_kernel_def)
  from register_run [OF reg user_descriptor_ok n c, of 42] obtain s where
    s: "register_interface kind_kernel 42 user_descriptor fresh_kernel = Inr (ALLOCATED_ID fresh_kernel, s)"
      "registry_ok s" "KERN_NETLINK s = KERN_NETLINK fresh_kernel"
      "interfaces_of s = interfaces_of fresh_kernel @ [registered kind_kernel 42 user_descriptor fresh_kernel]"
    by blast
  have i: "interfaces_of s = [registered kind_kernel 42 user_descriptor fresh_kernel]"
    using s(4) by (simp add: fresh_kernel_def interfaces_of_def live_slots_def slots_of_def)
  have fits: "registration_fits kind_kernel user_descriptor fresh_kernel"
    using user_descriptor_ok n c by (simp add: registration_fits_def)
  have ok: "kernel_ok s" by (rule registered_kernel_ok [OF fresh_kernel_ok fits s(1)])
  have "unat (INTERFACE_COUNT s) = 1"
    using length_interfaces_of [OF s(2)] by (simp add: i)
  then have t: "table_ok s" using s(2) by (simp add: table_ok_def)
  have "KERN_NETLINK s = Some 0" using s(3) by (simp add: fresh_kernel_def)
  with ok t i registers [of "registration_fits kind_kernel", OF fits s(1)] show ?thesis by (intro that)
qed

theorem node_stays_well_formed_witness:
  "\<exists>t. (node_step (registration_fits kind_kernel) kind_kernel)\<^sup>*\<^sup>* fresh_kernel t \<and> length (interfaces_of t) = 1 \<and> kernel_ok t"
proof -
  obtain t where t: "kernel_ok t" "table_ok t" "KERN_NETLINK t = Some 0"
    "interfaces_of t = [registered kind_kernel 42 user_descriptor fresh_kernel]"
    "local_step (registration_fits kind_kernel) kind_kernel fresh_kernel t" by (rule one_registered)
  then have run: "(node_step (registration_fits kind_kernel) kind_kernel)\<^sup>*\<^sup>* fresh_kernel t" by (simp add: node_step_def r_into_rtranclp)
  from node_stays_well_formed [OF fresh_kernel_ok run] have "kernel_ok t" by blast
  with run t(4) show ?thesis by (intro exI [of _ t]) simp
qed

definition asking_kernel :: kenv where
  "asking_kernel = kind_kernel\<lparr>sock_recvmsg := (\<lambda>tr k n. if n = 4 then (4, None, u32_bytes 8)
     else (8, None, rpc_bytes 1 0 []))\<rparr>"

lemma asked_once:
  fixes s :: kstate
  assumes s: "table_ok s" "interfaces_of s = [registered kind_kernel 42 user_descriptor fresh_kernel]"
    "KERN_NETLINK s = Some 0"
  obtains t where "network_step asking_kernel s t" "interfaces_of t \<noteq> interfaces_of s"
proof -
  let ?x = "registered kind_kernel 42 user_descriptor fresh_kernel" and ?k = "open_socket 4"
  let ?packet = "rpc_bytes 1 0 []" and ?s = "emit (Sock_received 4 8) (emit (Sock_received 4 4) s)"
  have x: "if_id ?x = 1" "ctrl ?x = Some (ctrl_0\<lparr>bind_pid := 42, proc_entry := entry_for kind_kernel 42 fresh_kernel\<rparr>)"
    by (simp_all add: registered_def fresh_kernel_def)
  have len: "length ?packet = 8" by (simp add: rpc_bytes_def attr_codec.enc_list_def)
  obtain t where t: "execute_interface asking_kernel ?packet (word_of_nat (length ?packet)) (Some ?k) ?s = Inr (0, t)"
      "interfaces_of t = (interfaces_of s)[0 := wait_on (Some ?k) ?x]"
  proof -
    have up: "nlmsg_new asking_kernel tr n" "nlmsg_unicast asking_kernel tr nl p b = 0" for tr n nl p b
      by (simp_all add: asking_kernel_def kind_kernel_def)
    show ?thesis
      using execute_known [of ?s ?packet 1 "word_of_nat (length ?packet)" 0 _ 0 asking_kernel "Some ?k"] s x len up that
      by auto
  qed
  have "stream_of asking_kernel (sock_no ?k) ?packet" "sock_no ?k = 4" "\<not> sk_null ?k"
      "kgrant (kmem asking_kernel) (length ?packet)" "sock_getname asking_kernel tr n = 0" for tr n
    using len by (simp_all add: stream_of_def asking_kernel_def kind_kernel_def open_socket_def kgrant_def kmalloc_max_def)
  then have "handle_connection asking_kernel ?k s = Inr (0, t)"
    using connection_executes [of asking_kernel ?k ?packet s] t(1) len by simp
  then have "network_step asking_kernel s t" by (rule connects)
  moreover have "interfaces_of t \<noteq> interfaces_of s"
    using t(2) s(2) x(2) by (auto simp: wait_on_def set_ctrl_def ctrl_0_def dest: arg_cong [of _ _ ctrl])
  ultimately show ?thesis by (rule that)
qed

theorem network_keeps_interfaces_witness:
  "\<exists>s t. kernel_ok (s :: kstate) \<and> (network_step asking_kernel)\<^sup>*\<^sup>* s t \<and> interfaces_of t \<noteq> interfaces_of s \<and>
    map (set_ctrl (\<lambda>c. c\<lparr>socket := None\<rparr>)) (interfaces_of t)
      = map (set_ctrl (\<lambda>c. c\<lparr>socket := None\<rparr>)) (interfaces_of s)"
proof -
  obtain s where s: "kernel_ok s" "table_ok s" "KERN_NETLINK s = Some 0"
    "interfaces_of s = [registered kind_kernel 42 user_descriptor fresh_kernel]"
    "local_step (registration_fits kind_kernel) kind_kernel fresh_kernel s" by (rule one_registered)
  from asked_once [OF s(2,4,3)] obtain t where t: "network_step asking_kernel s t" "interfaces_of t \<noteq> interfaces_of s" .
  from t(1) have "(network_step asking_kernel)\<^sup>*\<^sup>* s t" by (rule r_into_rtranclp)
  with s(1) t(2) network_keeps_interfaces [OF s(1) this] show ?thesis by (intro exI conjI)
qed

end
