(* ===== verification/Deployment.thy ===== *)
theory Deployment
  imports Learning Remote_Add Node
begin

text \<open>
  The whole way of the example program of \<open>test/\<close>: \<open>activate_add\<close> starts on one node, this node
  broadcasts its list, another node hears it twice, and \<open>execute_remote_add\<close> there calls the
  function through the device of the new peer. Each stage rests on the theorems of the
  components: starting the process, learning the interfaces, serving the call, calling.
\<close>

section \<open>Broadcasts keep the netlink socket\<close>

lemma broadcast_keeps_netlink: "yields (do_broadcast e a s) (\<lambda>(r, t). KERN_NETLINK t = KERN_NETLINK s)"
  by (auto simp: yields_def do_broadcast_def bindr_eq_Inr Let_def sock_sendto_def interfaces_ready_def
      init_interfaces_def split: sum.splits if_splits option.splits)

lemma round_keeps_netlink:
  "broadcast_round e devs s = Inr t \<Longrightarrow> KERN_NETLINK t = KERN_NETLINK s"
proof -
  assume r: "broadcast_round e devs s = Inr t"
  have step: "yields (bindr (do_broadcast e a u) (\<lambda>(_, s). Inr s)) (\<lambda>t. KERN_NETLINK t = KERN_NETLINK s)"
    if "KERN_NETLINK u = KERN_NETLINK s" for a u
    by (rule yields_bindr [OF broadcast_keeps_netlink]) (use that in auto)
  have "yields (broadcast_round e devs s) (\<lambda>t. KERN_NETLINK t = KERN_NETLINK s)"
    unfolding broadcast_round_def by (rule yields_any, rule yields_loop [OF step]) simp_all
  then show ?thesis using r by (simp add: yields_def)
qed

lemma loop_keeps_netlink:
  "broadcast_loop e devs n s = Inr t \<Longrightarrow> KERN_NETLINK t = KERN_NETLINK s"
proof (induction n arbitrary: s)
  case (Suc n)
  then obtain u where "broadcast_round e (devs (trace s)) s = Inr u" "broadcast_loop e devs n u = Inr t"
    by (auto simp: bindr_eq_Inr)
  then show ?case using Suc.IH round_keeps_netlink by metis
qed simp


section \<open>The node that serves\<close>

definition served :: "kenv \<Rightarrow> int \<Rightarrow> nat \<Rightarrow> u32 \<Rightarrow> 'z registry_scheme \<Rightarrow> interface_t" where
  "served e pid f portid k = set_ctrl (activate portid) (registered e pid (add_descriptor f) k)"

lemma served_simps [simp]:
  "if_id (served e pid f portid k) = ALLOCATED_ID k" "interface_t.argc (served e pid f portid k) = 2"
  "retc (served e pid f portid k) = 1" "arg_flags (served e pid f portid k) = PBlk [0, 0]"
  "ret_flags (served e pid f portid k) = PBlk [0]"
  by (simp_all add: served_def registered_def blank_interface_def add_descriptor_def set_ctrl_def)

lemma served_ctrl: "\<exists>c. ctrl (served e pid f portid k) = Some c \<and> client_portid c = portid"
  by (simp add: served_def registered_def activate_def)

lemma length_served_advert: "length (advert_bytes [served e pid f portid k]) = 19"
  by (simp add: advert_bytes_def interface_codec.enc_list_def enc_interface_def flag_bytes_def)

lemma served_adverts_fit: "roomy ok 4096 \<Longrightarrow> adverts_fit ok [served e pid f portid k]"
  unfolding adverts_fit_def length_served_advert
  by (auto simp: interface_sendable_def interface_readable_def flags_readable_def flag_bytes_def)

lemma served_adverts_granted: "roomy ok 4096 \<Longrightarrow> adverts_granted ok [served e pid f portid k]"
  by (simp add: adverts_granted_def roomy_grants)

text \<open>A process on a node without interfaces, and the kernel's functions it needs.\<close>

definition node_up :: "kenv \<Rightarrow> 'z registry_scheme \<Rightarrow> bool" where
  "node_up e k \<longleftrightarrow> registry_ok k \<and> interfaces_of k = [] \<and> ALLOCATED_ID k \<noteq> 0 \<and>
     unat (ALLOCATED_ID k) < 2 ^ 31 \<and> KERN_NETLINK k \<noteq> None \<and>
     kmem_upto e (112 + 8 * (unat (INTERFACE_CAPACITY k) + 10)) \<and> roomy (kmem e) 4096 \<and>
     network_up e \<and> (\<forall>tr n. nlmsg_new e tr n) \<and> (\<forall>tr j. 0 \<le> sock_getname e tr j)"

definition on_networks :: "(event list \<Rightarrow> net_device list) \<Rightarrow> u32 list \<Rightarrow> bool" where
  "on_networks devs addrs \<longleftrightarrow> length addrs \<le> 256 \<and>
     (\<forall>tr. (\<forall>d \<in> set (devs tr). is_loopback d \<or> ip_ptr d \<noteq> None) \<and> broadcast_targets (devs tr) = addrs)"

lemma node_deployed:
  fixes k :: "'z registry_scheme"
  assumes process: "roomy ok 4096" "mem_wf s" "0 < fd" "0 \<le> sfd" "0 \<le> bound" "0 \<le> sent"
    and node: "node_up e k" and nets: "on_networks devs addrs"
  shows "\<exists>hello s' k' t t1 tr. activate_main ok callbacks sfd bound portid sent []
      (register_add_interface ok junk block f (manager_driver e pid) fd s k) = Inr ([hello], k') \<and>
    handle_netlink_income e hello k' = Inr t \<and> advertises e t \<and> interfaces_of t = [served e pid f portid k] \<and>
    register_add_interface ok junk block f (manager_driver e pid) fd s k = Inr ((Some (next_ptr s), s'), k') \<and>
    describes [Some (next_ptr s)] s' [(add_descriptor f)\<lparr>if_id := ALLOCATED_ID k\<rparr>] \<and>
    broadcast_loop e devs 2 t = Inr t1 \<and> trace t1 = tr @ trace t \<and> registry_ok t1 \<and>
    adverts_sent tr = concat (replicate 2 (map (\<lambda>a. (a, advert_bytes [served e pid f portid k])) addrs)) \<and>
    interfaces_of t1 = [served e pid f portid k] \<and> KERN_NETLINK t1 = KERN_NETLINK k"
proof -
  have count: "unat (INTERFACE_COUNT k) < 2 ^ 31"
    using node length_interfaces_of [of k] by (simp add: node_up_def)
  obtain hello s' k' t where t: "register_add_interface ok junk block f (manager_driver e pid) fd s k
        = Inr ((Some (next_ptr s), s'), k')"
      "activate_main ok callbacks sfd bound portid sent []
        (register_add_interface ok junk block f (manager_driver e pid) fd s k) = Inr ([hello], k')"
      "handle_netlink_income e hello k' = Inr t" "registry_ok t" "interfaces_of t = [served e pid f portid k]"
      "describes [Some (next_ptr s)] s' [(add_descriptor f)\<lparr>if_id := ALLOCATED_ID k\<rparr>]"
      "KERN_NETLINK k' = KERN_NETLINK k"
    using add_started [where callbacks = callbacks and portid = portid and junk = junk and block = block
        and f = f and pid = pid and e = e and k = k, OF process(1-3) _ _ count _ _ _ process(4-6)] node
    by (auto simp: node_up_def served_def)
  have "quiet messages_change k' t" using yieldsD [OF messages.quiet_income [OF messages.quiet_refl] t(3)] .
  then have nl: "KERN_NETLINK t = KERN_NETLINK k" using t(7) by (cases t; cases k') (simp add: quiet_def)
  have roomy: "roomy (kmem e) 4096" and up: "network_up e" using node by (simp_all add: node_up_def)
  have ad: "advertises e t"
    unfolding advertises_def t(5) length_served_advert using t(4) served_adverts_fit [OF roomy] by simp
  obtain t1 tr where t1: "broadcast_loop e devs 2 t = Inr t1" "registry_ok t1" "trace t1 = tr @ trace t"
      "interfaces_of t1 = [served e pid f portid k]"
      "adverts_sent tr = concat (replicate 2 (map (\<lambda>a. (a, advert_bytes [served e pid f portid k])) addrs))"
    using broadcast_runs [OF up ad, of devs addrs 2] nets by (auto simp: on_networks_def t(5))
  have "KERN_NETLINK t1 = KERN_NETLINK k" using loop_keeps_netlink [OF t1(1)] nl by simp
  then show ?thesis using t ad t1 by (intro exI conjI) assumption+
qed

section \<open>The node that calls\<close>

text \<open>
  What the calling node hears is what the serving node sent to one of its networks, and its
  connections reach the node they are made to.
\<close>

definition hearing :: "((u32 \<times> byte list) list \<Rightarrow> kenv) \<Rightarrow> nat \<Rightarrow> u32 \<Rightarrow> u32 \<Rightarrow> bool" where
  "hearing ear k d a \<longleftrightarrow> (\<forall>ps. roomy (kmem (ear ps)) 4096 \<and> ((\<exists>x. (d, x) \<in> set ps) \<longrightarrow>
     (\<forall>h. \<exists>x. (d, x) \<in> set ps \<and> sock_recvmsg (ear ps) h k 65536 = (int (length x), Some a, x))))"

definition connected :: "(byte list \<Rightarrow> kenv) \<Rightarrow> nat \<Rightarrow> u32 \<Rightarrow> bool" where
  "connected net k a \<longleftrightarrow> (\<forall>body. (\<forall>tr. sock_create (net body) tr = Inr k) \<and>
     (\<forall>tr. 0 \<le> sock_connect (net body) tr k a) \<and> sends_ok (net body) k \<and> roomy (kmem (net body)) 4096 \<and>
     user_blocks_copied (net body) \<and> (8 \<le> length body \<longrightarrow> stream_of (net body) k body))"

lemma connected_wired:
  assumes "connected net k a" and "kernel_ok s" and "peers_list s = ps @ [p]" and "peer_addr p = a"
  shows "wired net k a (int (length ps)) s"
proof -
  have "int (length ps) < peer_count s"
    using assms(2,3) length_peers_list [of s] by (simp add: kernel_ok_def)
  moreover have "peer_at s (int (length ps)) = Inr p"
    using peer_at_list [of s "int (length ps)"] assms(2,3) calculation by (simp add: kernel_ok_def)
  ultimately show ?thesis
    using assms(1,4) roomy_grants [where n = 16 and L = 4096] by (auto simp: wired_def connected_def reachable_peer_def)
qed


text \<open>The calling node after two packets of the serving one: its new peer can be called.\<close>

lemma peer_learned:
  fixes q :: "'z kstate_scheme"
  assumes sent: "network_up e" "advertises e t" "interfaces_of t = [served e pid f portid k]" "on_networks devs addrs"
      "d \<in> set addrs" "broadcast_loop e devs 2 t = Inr t1" "trace t1 = tr @ trace t"
      "adverts_sent tr = concat (replicate 2 (map (\<lambda>a. (a, advert_bytes [served e pid f portid k])) addrs))"
    and listener: "kernel_ok q" "addr_index aa (peers_list q) = None" "length (peers_list q) < 256"
      "\<forall>ps. peers (peers_ready (ear ps) q) \<noteq> None" "hearing ear (sock_no kd) d aa" "\<not> sk_null kd"
      "length buf = 65536"
    and caller: "connected net kc aa"
  shows "\<exists>buf2 q2. discovery_run (ear (adverts_sent tr)) (Some kd) 2 (buf, from, q) = Inr (buf2, aa, q2) \<and>
    peer_listed (length (peers_list q)) q2 \<and>
    peer_view (length (peers_list q)) q2 = [advert (served e pid f portid k)] \<and>
    wired net kc aa (int (length (peers_list q))) q2"
proof -
  have "(d, advert_bytes [served e pid f portid k]) \<in> set (adverts_sent tr)"
    using sent(5) by (simp add: sent(8) numeral_2_eq_2)
  then have ear: "\<forall>h. \<exists>x. (d, x) \<in> set (adverts_sent tr) \<and>
      sock_recvmsg (ear (adverts_sent tr)) h (sock_no kd) 65536 = (int (length x), Some aa, x)"
      "roomy (kmem (ear (adverts_sent tr))) 4096"
    using listener(5) unfolding hearing_def by blast+
  have small: "length (interfaces_of t) \<le> 256" "length (advert_bytes (interfaces_of t)) \<le> 65536"
    by (simp_all add: sent(3) length_served_advert)
  have nets: "length addrs \<le> 256" "\<forall>tr. (\<forall>d \<in> set (devs tr). is_loopback d \<or> ip_ptr d \<noteq> None) \<and>
      broadcast_targets (devs tr) = addrs"
    using sent(4) by (simp_all add: on_networks_def)
  have room: "peers (peers_ready (ear (adverts_sent tr)) q) \<noteq> None" using listener(4) by blast
  have granted: "adverts_granted (kmem (ear (adverts_sent tr))) (interfaces_of t)"
    unfolding sent(3) by (rule served_adverts_granted [OF ear(2)])
  obtain buf2 q2 p where B: "discovery_run (ear (adverts_sent tr)) (Some kd) 2 (buf, from, q) = Inr (buf2, aa, q2)"
      "peers_list q2 = peers_list q @ [p]" "peer_addr p = aa" "peer_listed (length (peers_list q)) q2"
      "peer_view (length (peers_list q)) q2 = map advert (interfaces_of t)"
    using interfaces_learned [OF sent(1,2) nets small sent(6,7) ear(1) listener(6,1,2) room listener(3) granted
        listener(7), of "from"] by blast
  have "wired net kc aa (int (length (peers_list q))) q2"
    by (rule connected_wired [OF caller _ B(2,3)]) (use B(4) in \<open>simp add: peer_listed_def\<close>)
  then show ?thesis using B(1,4,5) by (simp add: sent(3))
qed

section \<open>Properties\<close>

text \<open>
  C1: the example program works from the first start to the printed sum. \<open>activate_add\<close> registers
  and activates its interface on a node without any; two turns of this node's broadcast loop
  and two packets heard by another node later, the other node has a device for it, and
  \<open>execute_remote_add\<close> on this device, for two numbers of at most three characters, prints
  their decimal sum, which the process computed from the packet the caller's kernel sent.
\<close>

theorem add_deployed:
  fixes k :: "'y registry_scheme" and q :: "'z kstate_scheme"
  assumes nums: "- 99 \<le> a" "a \<le> 999" "- 99 \<le> b" "b \<le> 999"
      "req = rpc_bytes (ALLOCATED_ID k) 2 [text_value (dec_int a), text_value (dec_int b)]"
    and process: "roomy ok 4096" "mem_wf s" "0 < fd" "0 \<le> sfd" "0 \<le> bound" "0 \<le> sent"
      "callbacks f = add ok" "0 < r" "16 \<le> length behind"
    and node: "node_up e k" "on_networks devs addrs" "d \<in> set addrs" "stream_of e (sock_no ka) req" "\<not> sk_null ka"
    and listener: "kernel_ok q" "addr_index aa (peers_list q) = None" "length (peers_list q) < 256"
      "\<forall>ps. peers (peers_ready (ear ps) q) \<noteq> None" "hearing ear (sock_no kd) d aa" "\<not> sk_null kd"
      "length buf = 65536"
    and caller: "roomy cok 4096" "mem_wf l" "0 < cfd" "length (cblock MAX_PAYLOAD) = MAX_PAYLOAD" "connected net kc aa"
  shows "\<exists>hello s' k' t t1 tr buf2 q2 res u reply body v w.
    register_add_interface ok junk block f (manager_driver e pid) fd s k = Inr ((Some (next_ptr s), s'), k') \<and>
    activate_main ok callbacks sfd bound portid sent []
      (register_add_interface ok junk block f (manager_driver e pid) fd s k) = Inr ([hello], k') \<and>
    handle_netlink_income e hello k' = Inr t \<and>
    broadcast_loop e devs 2 t = Inr t1 \<and> trace t1 = tr @ trace t \<and>
    discovery_run (ear (adverts_sent tr)) (Some kd) 2 (buf, from, q) = Inr (buf2, aa, q2) \<and>
    handle_connection e ka t1 = Inr (res, u) \<and>
    rpc_step ok callbacks portid (Some [Some (next_ptr s)]) 1 (r, call_message req [] 0) s' = Inr (Some reply) \<and>
    handle_netlink_income e (in_kernel behind reply) u = Inr v \<and>
    trace v = [Sock_sent (sock_no ka) None body,
      Sock_sent (sock_no ka) None (u32_bytes (word_of_nat (length body)))] @ trace u \<and>
    execute_add_user cok cjunk cblock (peer_driver (net body) (int (length (peers_list q)))) cfd (ALLOCATED_ID k)
      (dec_int a) (dec_int b) l q2 = Inr (dec_int (a + b), w) \<and>
    Sock_sent kc (Some aa) req \<in> set (trace w)"
proof -
  let ?x = "served e pid f portid k" and ?y = "(add_descriptor f)\<lparr>if_id := ALLOCATED_ID k\<rparr>"
    and ?n = "length (peers_list q)"
  obtain hello s' k' t t1 tr where A: "activate_main ok callbacks sfd bound portid sent []
        (register_add_interface ok junk block f (manager_driver e pid) fd s k) = Inr ([hello], k')"
      "handle_netlink_income e hello k' = Inr t" "advertises e t" "interfaces_of t = [?x]"
      "register_add_interface ok junk block f (manager_driver e pid) fd s k = Inr ((Some (next_ptr s), s'), k')"
      "describes [Some (next_ptr s)] s' [?y]"
      "broadcast_loop e devs 2 t = Inr t1" "trace t1 = tr @ trace t" "registry_ok t1"
      "adverts_sent tr = concat (replicate 2 (map (\<lambda>a. (a, advert_bytes [?x])) addrs))"
      "interfaces_of t1 = [?x]" "KERN_NETLINK t1 = KERN_NETLINK k"
    using node_deployed [where callbacks = callbacks and portid = portid and junk = junk and block = block
        and f = f and pid = pid, OF process(1-6) node(1,2)] by blast
  have up: "ALLOCATED_ID k \<noteq> 0" "roomy (kmem e) 4096" "network_up e" "\<forall>tr n. nlmsg_new e tr n"
      "\<forall>tr j. 0 \<le> sock_getname e tr j" "KERN_NETLINK t1 \<noteq> None"
    using node(1) A(12) by (simp_all add: node_up_def)
  obtain buf2 q2 where B: "discovery_run (ear (adverts_sent tr)) (Some kd) 2 (buf, from, q) = Inr (buf2, aa, q2)"
      "peer_listed ?n q2" "peer_view ?n q2 = [advert ?x]" "wired net kc aa (int ?n) q2"
    using peer_learned [OF up(3) A(3,4) node(2,3) A(7,8,10) listener caller(5)] by blast
  obtain c where c: "ctrl (interfaces_of t1 ! 0) = Some c" "client_portid c = portid"
    using served_ctrl [of e pid f portid k] by (auto simp: A(11))
  obtain nl where nl: "KERN_NETLINK t1 = Some nl" using up(6) by auto
  have t1: "table_ok t1" "distinct (map if_id (interfaces_of t1))" "index_of (ALLOCATED_ID k) (interfaces_of t1) = Some 0"
    using A(9) length_interfaces_of [OF A(9)] by (simp_all add: table_ok_def A(11))
  have y: "index_of (ALLOCATED_ID k) [?y] = Some 0" "serves_add ok callbacks ([?y] ! 0)"
    using process(7) by (simp_all add: serves_add_def add_descriptor_def)
  from add_served [OF nums t1(1,2) nl t1(3) c(1) up(1,2,4) node(4,5) _ A(6) y process(1,8,9)] up(5) c(2)
  obtain res u reply body v where S: "handle_connection e ka t1 = Inr (res, u)"
    "rpc_step ok callbacks portid (Some [Some (next_ptr s)]) 1 (r, call_message req [] 0) s' = Inr (Some reply)"
    "handle_netlink_income e (in_kernel behind reply) u = Inr v"
    "trace v = [Sock_sent (sock_no ka) None body,
      Sock_sent (sock_no ka) None (u32_bytes (word_of_nat (length body)))] @ trace u"
    "8 \<le> length body" "length body < 4096"
    "\<forall>g. roomy g 4096 \<longrightarrow> unserialize_rpc_packet g body (word_of_nat (length body))
      = Inr ([attr_copy (text_value (dec_int (a + b)))], 1)" by auto
  have view: "index_of (ALLOCATED_ID k) (peer_view ?n q2) = Some 0" "interface_t.argc (peer_view ?n q2 ! 0) = 2"
      "retc (peer_view ?n q2 ! 0) = 1"
    by (simp_all add: B(3))
  have ab: "length (dec_int a) \<le> 3" "length (dec_int b) \<le> 3" "int_range (a + b)"
    using nums dec_int_short by (simp_all add: int_range_def)
  obtain w where "execute_add_user cok cjunk cblock (peer_driver (net body) (int ?n)) cfd (ALLOCATED_ID k)
      (dec_int a) (dec_int b) l q2 = Inr (dec_int (a + b), w)" "Sock_sent kc (Some aa) req \<in> set (trace w)"
    using add_called [where block = cblock, OF ab B(2) view caller(1-4) B(4) S(5-7)] nums(5) by blast
  then show ?thesis using A(1,2,5,7,8) B(1) S(1-4) by blast
qed

section \<open>Examples\<close>

definition sum_request :: "byte list" where
  "sum_request = rpc_bytes 1 2 [text_value (dec_int 12), text_value (dec_int (- 5))]"

definition ear_of :: "(u32 \<times> byte list) list \<Rightarrow> kenv" where
  "ear_of ps = kind_kernel\<lparr>sock_recvmsg := (\<lambda>tr k n. case [p \<leftarrow> ps. fst p = 0xFF01A8C0] of [] \<Rightarrow> (0, None, [])
     | p # _ \<Rightarrow> (int (length (snd p)), Some 9, snd p))\<rparr>"

definition calls_to :: "byte list \<Rightarrow> kenv" where
  "calls_to body = (delivering body)\<lparr>sock_create := (\<lambda>tr. Inr 0)\<rparr>"

lemma node_up_delivering: "node_up (delivering x) empty_registry"
proof -
  have mem: "kmem (delivering x) = kmem kind_kernel" by (simp add: delivering_def)
  have "kmem_upto (delivering x) 192" using kind_kernel_mem [of 192] by (simp add: kmem_upto_def mem)
  moreover have "network_up (delivering x)"
    using kind_kernel_up unfolding network_up_def mem by (simp add: delivering_def)
  moreover have "nlmsg_new (delivering x) tr n" "0 \<le> sock_getname (delivering x) tr j" for tr n j
    by (simp_all add: delivering_def kind_kernel_def)
  moreover have "interfaces_of empty_registry = []" "ALLOCATED_ID empty_registry = 1"
    "INTERFACE_CAPACITY empty_registry = 0" "KERN_NETLINK empty_registry = Some 0"
    by (simp_all add: empty_registry_def interfaces_of_def live_slots_def slots_of_def)
  ultimately show ?thesis using empty_registry_ok delivering_roomy [of x] by (simp add: node_up_def)
qed

lemma on_two_networks: "on_networks (\<lambda>_. two_networks) [0xFF01A8C0, 0xFFFFFF0A]"
  by (simp add: on_networks_def two_networks_targets) (simp add: two_networks_def is_loopback_def)

lemma ear_of_hears: "hearing ear_of k 0xFF01A8C0 9"
proof -
  have "\<exists>x. (0xFF01A8C0, x) \<in> set ps \<and> sock_recvmsg (ear_of ps) h k 65536 = (int (length x), Some 9, x)"
    if "(0xFF01A8C0, y) \<in> set ps" for ps h y
  proof -
    have "(0xFF01A8C0, y) \<in> set [p \<leftarrow> ps. fst p = 0xFF01A8C0]" using that by simp
    then obtain p r where p: "[p \<leftarrow> ps. fst p = 0xFF01A8C0] = p # r"
      by (cases "[p \<leftarrow> ps. fst p = 0xFF01A8C0]") simp_all
    have "p \<in> {q \<in> set ps. fst q = 0xFF01A8C0}" using arg_cong [OF p, of set] by auto
    then have "p \<in> set ps" "p = (0xFF01A8C0, snd p)" by (auto simp: prod_eq_iff)
    then have "(0xFF01A8C0, snd p) \<in> set ps" by simp
    then show ?thesis using p by (intro exI [of _ "snd p"]) (simp add: ear_of_def)
  qed
  then show ?thesis by (auto simp: hearing_def) (simp add: ear_of_def kind_kernel_def roomy_kmalloc_max)
qed

lemma calls_connected: "connected calls_to 0 9"
  using delivering_roomy stream_delivering
  by (auto simp: connected_def calls_to_def sends_ok_def user_blocks_copied_def stream_of_def)
    (simp_all add: delivering_def kind_kernel_def)

theorem add_deployed_witness:
  "\<exists>hello s' k' t t1 tr buf2 q2 res u reply body v w.
    register_add_interface kmalloc_max attr_value_0 (\<lambda>n. replicate n 0) 1
      (manager_driver (delivering sum_request) 42) 4 empty_process empty_registry = Inr ((Some (next_ptr empty_process), s'), k') \<and>
    activate_main kmalloc_max (\<lambda>_. add kmalloc_max) 3 0 77 0 []
      (register_add_interface kmalloc_max attr_value_0 (\<lambda>n. replicate n 0) 1
        (manager_driver (delivering sum_request) 42) 4 empty_process empty_registry) = Inr ([hello], k') \<and>
    handle_netlink_income (delivering sum_request) hello k' = Inr t \<and>
    broadcast_loop (delivering sum_request) (\<lambda>_. two_networks) 2 t = Inr t1 \<and> trace t1 = tr @ trace t \<and>
    discovery_run (ear_of (adverts_sent tr)) (Some (open_socket 4)) 2 (replicate 65536 0, 0, fresh_kernel) = Inr (buf2, 9, q2) \<and>
    handle_connection (delivering sum_request) (open_socket 4) t1 = Inr (res, u) \<and>
    rpc_step kmalloc_max (\<lambda>_. add kmalloc_max) 77 (Some [Some (next_ptr empty_process)]) 1
      (1, call_message sum_request [] 0) s' = Inr (Some reply) \<and>
    handle_netlink_income (delivering sum_request) (in_kernel (replicate 16 9) reply) u = Inr v \<and>
    trace v = [Sock_sent (sock_no (open_socket 4)) None body,
      Sock_sent (sock_no (open_socket 4)) None (u32_bytes (word_of_nat (length body)))] @ trace u \<and>
    execute_add_user kmalloc_max attr_value_0 (\<lambda>n. replicate n 0)
      (peer_driver (calls_to body) (int (length (peers_list fresh_kernel)))) 3 (ALLOCATED_ID empty_registry)
      (dec_int 12) (dec_int (- 5)) empty_process q2 = Inr (dec_int (12 + - 5), w) \<and>
    Sock_sent 0 (Some 9) sum_request \<in> set (trace w)"
proof (rule add_deployed [OF _ _ _ _ _ _ _ _ _ _ _ _ _ _ node_up_delivering on_two_networks _ _ _ fresh_kernel_ok
      _ _ _ ear_of_hears _ _ _ _ _ _ calls_connected])
  show "sum_request = rpc_bytes (ALLOCATED_ID empty_registry) 2 [text_value (dec_int 12), text_value (dec_int (- 5))]"
    by (simp add: sum_request_def empty_registry_def)
  show "stream_of (delivering sum_request) (sock_no (open_socket 4)) sum_request"
    by (rule stream_delivering) (simp add: sum_request_def rpc_bytes_def attr_codec.enc_list_def enc_attr_def)
  show "\<forall>ps. peers (peers_ready (ear_of ps) fresh_kernel) \<noteq> None"
    by (simp add: peers_ready_def init_peers_def kzalloc_array_def ear_of_def kind_kernel_def kgrant_def
        kmalloc_max_def fresh_kernel_def)
qed (simp_all add: roomy_kmalloc_max empty_process_def mem_wf_def open_socket_def peers_list_def fresh_kernel_def)

end
