(* ===== verification/Simulation.thy ===== *)
theory Simulation
  imports Prelude
begin

text \<open>
  A transition system that implements a specification: every step, from a state that satisfies
  the invariant, is a step of the specification or none. What holds of all runs of the
  specification then holds of the views of the states of a run.
\<close>

locale simulation =
  fixes step :: "'c \<Rightarrow> 'c \<Rightarrow> bool"
    and spec :: "'a \<Rightarrow> 'a \<Rightarrow> bool"
    and view :: "'c \<Rightarrow> 'a"
    and ok :: "'c \<Rightarrow> bool"
  assumes keeps: "ok s \<Longrightarrow> step s t \<Longrightarrow> ok t"
    and simulates: "ok s \<Longrightarrow> step s t \<Longrightarrow> spec\<^sup>=\<^sup>= (view s) (view t)"
begin

lemma runs_ok: "step\<^sup>*\<^sup>* s t \<Longrightarrow> ok s \<Longrightarrow> ok t"
  by (induction rule: rtranclp_induct) (auto intro: keeps)

lemma refines: "step\<^sup>*\<^sup>* s t \<Longrightarrow> ok s \<Longrightarrow> spec\<^sup>*\<^sup>* (view s) (view t)"
proof (induction rule: rtranclp_induct)
  case (step t u)
  have "spec\<^sup>=\<^sup>= (view t) (view u)" by (rule simulates [OF runs_ok [OF step.hyps(1) step.prems] step.hyps(2)])
  then show ?case using step.IH [OF step.prems] by (auto intro: rtranclp.rtrancl_into_rtrancl)
qed simp

text \<open>A relation that every step of the specification satisfies relates the ends of a run.\<close>

lemma transfers:
  assumes run: "step\<^sup>*\<^sup>* s t" and "ok s" and refl: "\<And>d. R d d" and trans: "\<And>d d' d''. R d d' \<Longrightarrow> R d' d'' \<Longrightarrow> R d d''"
    and spec: "\<And>d d'. spec d d' \<Longrightarrow> R d d'"
  shows "R (view s) (view t)"
  using refines [OF assms(1,2)]
proof (induction rule: rtranclp_induct)
  case base
  show ?case by (rule refl)
next
  case (step d d')
  show ?case by (rule trans [OF step.IH spec [OF step.hyps(2)]])
qed

text \<open>An invariant of the specification is one of the views.\<close>

lemma transfers_invariant:
  assumes "step\<^sup>*\<^sup>* s t" and "ok s" and "I (view s)" and "\<And>d d'. I d \<Longrightarrow> spec d d' \<Longrightarrow> I d'"
  shows "I (view t)"
  using transfers [OF assms(1,2), of "\<lambda>d d'. I d \<longrightarrow> I d'"] assms(3,4) by blast

end

end
