(* ===== verification/Directory.thy ===== *)
theory Directory
  imports Node Simulation
begin

text \<open>
  What a node promises, without arrays, counters and memory: a directory of the interfaces of
  its own processes, with the identifier the next one gets, and of the peers it has heard, in
  the order it first heard them, with the interfaces each offers. The theory shows that every
  handler of the module is a step of the directory or leaves it as it is.
\<close>

section \<open>The directory\<close>

text \<open>
  Of a known peer: its address, and what it offers, \<open>None\<close> until its second broadcast. An
  interface is shown without the fields that calls and messages change.
\<close>

record directory =
  own :: "interface_t list"
  next_id :: u32
  known :: "(u32 \<times> interface_t list option) list"

definition settled :: "interface_t \<Rightarrow> interface_t" where
  "settled = set_ctrl (\<lambda>c. c\<lparr>activated := 0, client_portid := 0, socket := None\<rparr>)"

text \<open>What processes of the node do to the directory: an interface enters or leaves.\<close>

inductive serve_step :: "directory \<Rightarrow> directory \<Rightarrow> bool" where
  enters: "if_id x = next_id d \<Longrightarrow> serve_step d (d\<lparr>own := own d @ [x], next_id := next_id d + 1\<rparr>)"
| leaves: "index_of idv (own d) = Some i \<Longrightarrow> (i = 0 \<longrightarrow> length (own d) = 1) \<Longrightarrow>
    serve_step d (d\<lparr>own := shifted_out i (own d)\<rparr>)"

text \<open>What other nodes do: a new one is met, a known one is heard again.\<close>

inductive learn_step :: "directory \<Rightarrow> directory \<Rightarrow> bool" where
  meets: "a \<notin> fst ` set (known d) \<Longrightarrow> length (known d) < 256 \<Longrightarrow>
    learn_step d (d\<lparr>known := known d @ [(a, None)]\<rparr>)"
| hears_again: "k < length (known d) \<Longrightarrow> length xs \<le> 256 \<Longrightarrow>
    learn_step d (d\<lparr>known := (known d)[k := (fst (known d ! k), Some xs)]\<rparr>)"

definition directory_step :: "directory \<Rightarrow> directory \<Rightarrow> bool" where
  "directory_step d d' \<longleftrightarrow> serve_step d d' \<or> learn_step d d'"

section \<open>The directory of a state\<close>

definition offerings :: "'z mem_scheme \<Rightarrow> iarray \<Rightarrow> interface_t list" where
  "offerings s a = map (\<lambda>x. settled (the (heap s (the x)))) a"

definition known_peer :: "'z mem_scheme \<Rightarrow> peer_t \<Rightarrow> u32 \<times> interface_t list option" where
  "known_peer s p = (peer_addr p, map_option (offerings s) (interfaces p))"

definition directory_of :: "'z kstate_scheme \<Rightarrow> directory" where
  "directory_of s = \<lparr>own = map settled (interfaces_of s), next_id = ALLOCATED_ID s,
     known = map (known_peer s) (peers_list s)\<rparr>"

lemma directory_of_simps [simp]:
  "own (directory_of s) = map settled (interfaces_of s)" "next_id (directory_of s) = ALLOCATED_ID s"
  "known (directory_of s) = map (known_peer s) (peers_list s)"
  by (simp_all add: directory_of_def)

lemma settled_id [simp]: "if_id (settled x) = if_id x"
  by (simp add: settled_def)

lemma fst_known_peer [simp]: "fst (known_peer s p) = peer_addr p" "fst \<circ> known_peer s = peer_addr"
  by (simp_all add: known_peer_def comp_def)

lemma index_of_settled [simp]: "index_of idv (map settled xs) = index_of idv xs"
  by (induction xs) simp_all

lemma shifted_out_map: "i < length xs \<Longrightarrow> shifted_out i (map f xs) = map f (shifted_out i xs)"
  by (simp add: shifted_out_def take_map)

text \<open>What messages change is not in the directory.\<close>

lemma recontrolled_settled:
  assumes "recontrolled messages_change x y"
  shows "settled y = settled x"
proof -
  have eq: "y\<lparr>ctrl := ctrl x\<rparr> = x" and rel: "rel_option messages_change (ctrl x) (ctrl y)"
    using assms by (simp_all add: recontrolled_def)
  let ?f = "\<lambda>c. c\<lparr>activated := 0, client_portid := 0, socket := None\<rparr>"
  have "?f d = ?f c" if "messages_change c d" for c d
    using that by (cases c; cases d) (simp add: messages_change_def)
  then have "map_option ?f (ctrl y) = map_option ?f (ctrl x)"
    using rel by (cases "ctrl x"; cases "ctrl y") simp_all
  moreover have "y\<lparr>ctrl := z\<rparr> = x\<lparr>ctrl := z\<rparr>" for z
    using arg_cong [OF eq, of "\<lambda>w. w\<lparr>ctrl := z\<rparr>"] by simp
  ultimately show ?thesis by (simp add: settled_def set_ctrl_def)
qed

text \<open>A step that keeps the descriptors of the peers keeps what is known of them.\<close>

lemma known_frame:
  fixes s t :: "'z kstate_scheme"
  assumes ok: "kernel_ok s" and p: "p \<in> set (peers_list s)"
    and h: "\<And>q x. Some q \<in> set (peer_slots p) \<Longrightarrow> heap s q = Some x \<Longrightarrow>
      settled (the (heap t q)) = settled x"
  shows "known_peer t p = known_peer s p"
proof -
  have "settled (the (heap t (the x))) = settled (the (heap s (the x)))" if x: "x \<in> set (peer_slots p)" for x
  proof -
    have "x \<in> set (owned s)" using p x by (auto simp: owned_def)
    then have "live s x" using ok by (auto simp: kernel_ok_def list_all_iff)
    then obtain q y where "x = Some q" "heap s q = Some y" unfolding live_def by blast
    then show ?thesis using h [of q y] x by simp
  qed
  then show ?thesis
    by (cases "interfaces p") (simp_all add: known_peer_def offerings_def peer_slots_def)
qed

lemma known_peer_heap: "heap t = heap s \<Longrightarrow> known_peer t = known_peer s"
proof -
  assume "heap t = heap s"
  then have "offerings t = offerings s" by (intro ext) (simp add: offerings_def)
  then show ?thesis by (intro ext) (simp add: known_peer_def)
qed

lemma known_same:
  fixes s t :: "'z kstate_scheme"
  assumes "kernel_ok s"
    and "\<And>q x. Some q \<in> set (owned s) \<Longrightarrow> heap s q = Some x \<Longrightarrow> settled (the (heap t q)) = settled x"
  shows "map (known_peer t) (peers_list s) = map (known_peer s) (peers_list s)"
  using assms(2) by (auto simp: owned_def intro!: known_frame [OF assms(1)])

section \<open>The processes of the node\<close>

lemma quiet_directory:
  fixes s t :: "'z kstate_scheme"
  assumes q: "quiet messages_change s t" and ok: "kernel_ok s"
  shows "directory_of t = directory_of s"
proof -
  have reg: "registry_ok s" using ok by (simp add: kernel_ok_def)
  note m = more_fields [OF quiet_more [OF q]]
  have "list_all2 (recontrolled messages_change) (interfaces_of s) (interfaces_of t)"
    by (rule quiet_interfaces [OF q reg])
  then have "map settled (interfaces_of t) = map settled (interfaces_of s)"
    using recontrolled_settled by (auto simp: list_all2_conv_all_nth intro!: nth_equalityI)
  moreover have "peers_list t = peers_list s"
    by (simp add: peers_list_def m cong: option.case_cong)
  moreover have "settled (the (heap t p)) = settled x" if x: "heap s p = Some x" for p x
  proof -
    obtain y where "heap t p = Some y" "recontrolled messages_change x y"
      using q x unfolding quiet_def by blast
    then show ?thesis using recontrolled_settled by simp
  qed
  ultimately show ?thesis using known_same [OF ok, of t] m by (simp add: directory_of_def)
qed

lemma register_directory:
  fixes s t :: "'z kstate_scheme"
  assumes ok: "kernel_ok s" and fits: "registration_fits e u s"
    and run: "register_interface e pid u s = Inr (r, t)"
  shows "serve_step (directory_of s) (directory_of t)"
proof -
  have u: "user_descriptor_ok u" "kmem_upto e (register_bytes u s)" and n: "unat (INTERFACE_COUNT s) < 2 ^ 31"
    using fits by (simp_all add: registration_fits_def)
  have reg: "registry_ok s" and wf: "mem_wf s" using ok by (simp_all add: kernel_ok_def registry_ok_def)
  have t: "interfaces_of t = interfaces_of s @ [registered e pid u s]" "ALLOCATED_ID t = ALLOCATED_ID s + 1"
      "heap t = (heap s)(next_ptr s \<mapsto> registered e pid u s)" "registry.more t = registry.more s"
    using register_run [OF reg u n, of pid] run by auto
  have pl: "peers_list t = peers_list s"
    using t(4) by (cases s; cases t) (simp add: peers_list_def cong: option.case_cong)
  have "heap s (next_ptr s) = None" by (rule fresh_pointer [OF wf waiting.quiet_refl])
  then have "map (known_peer t) (peers_list s) = map (known_peer s) (peers_list s)"
    by (intro known_same [OF ok]) (auto simp: t(3))
  then have "directory_of t = (directory_of s)\<lparr>own := own (directory_of s) @ [settled (registered e pid u s)],
      next_id := next_id (directory_of s) + 1\<rparr>"
    using t(1,2) pl by (simp add: directory_of_def)
  moreover have "if_id (settled (registered e pid u s)) = next_id (directory_of s)"
    by (simp add: registered_def)
  ultimately show ?thesis using enters by metis
qed

lemma remove_directory:
  fixes s t :: "'z kstate_scheme"
  assumes ok: "kernel_ok s" and run: "remove_interface idv s = Inr (r, t)"
  shows "serve_step\<^sup>=\<^sup>= (directory_of s) (directory_of t)"
proof (cases "index_of idv (interfaces_of s)")
  case None
  then show ?thesis using ok run remove_interface_unknown [of s idv] by (simp add: kernel_ok_def)
next
  case (Some i)
  have reg: "registry_ok s" using ok by (simp add: kernel_ok_def)
  have first: "i = 0 \<longrightarrow> length (interfaces_of s) = 1"
    using remove_first [OF reg, of idv] run Some index_of_SomeD [OF Some]
    by (cases "1 < length (interfaces_of s)") auto
  obtain p where t: "interfaces_of t = shifted_out i (interfaces_of s)" "ALLOCATED_ID t = ALLOCATED_ID s"
      "registry.more t = registry.more s" "Some p \<in> set (live_slots s)" "heap t = (heap s)(p := None)"
    using remove_interface_run [OF reg Some first] run by auto
  have pl: "peers_list t = peers_list s"
    using t(3) by (cases s; cases t) (simp add: peers_list_def cong: option.case_cong)
  have "Some p \<notin> set (owned s)" using ok t(4) by (auto simp: kernel_ok_def)
  then have "map (known_peer t) (peers_list s) = map (known_peer s) (peers_list s)"
    by (intro known_same [OF ok]) (auto simp: t(5))
  then have "directory_of t = (directory_of s)\<lparr>own := shifted_out i (own (directory_of s))\<rparr>"
    using t(1,2) pl index_of_SomeD [OF Some] by (simp add: directory_of_def shifted_out_map)
  moreover have "index_of idv (own (directory_of s)) = Some i" "i = 0 \<longrightarrow> length (own (directory_of s)) = 1"
    using Some first by simp_all
  ultimately show ?thesis using leaves by (metis sup2CI)
qed

lemma broadcast_directory:
  fixes s :: "'z kstate_scheme"
  assumes ok: "kernel_ok s"
  shows "yields (do_broadcast e a s) (\<lambda>(r, t). directory_of t = directory_of s)"
proof -
  define P where "P u \<longleftrightarrow> kernel_ok u \<and> directory_of u = directory_of s" for u :: "'z kstate_scheme"
  have s: "P s" using ok by (simp add: P_def)
  have quiet: "P t" if "quiet messages_change u t" "P u" for u t
    using that quiet_kernel_ok quiet_directory unfolding P_def by metis
  have em: "P (emit ev u)" if "P u" for ev u using quiet [OF _ that] by simp
  have ready: "P (interfaces_ready e u)" if "P u" for u
  proof -
    have k: "kernel_ok u" and r: "registry_ok u" using that by (simp_all add: P_def kernel_ok_def)
    have f: "heap (interfaces_ready e u) = heap u" "peers_list (interfaces_ready e u) = peers_list u"
        "ALLOCATED_ID (interfaces_ready e u) = ALLOCATED_ID u"
      by (simp_all add: interfaces_ready_def init_interfaces_def peers_list_def cong: option.case_cong)
    have i: "interfaces_of (interfaces_ready e u) = interfaces_of u"
      using init_interfaces_view [OF r, of "kmem e"] by (simp add: interfaces_ready_def)
    have "known_peer (interfaces_ready e u) = known_peer u" by (rule known_peer_heap [OF f(1)])
    then show ?thesis using kernel_ok_ready [OF k, of e] that by (simp add: P_def directory_of_def f i)
  qed
  have send: "yields (sock_sendto e sock addr buf n u) (\<lambda>(r, t). P t)" if "P u" for sock addr buf n and u :: "'z kstate_scheme"
    using quiet [OF _ that] messages.quiet_sendto [OF messages.quiet_refl, of e sock addr buf n u]
    by (auto simp: yields_def)
  have "yields (do_broadcast e a s) (\<lambda>(r, t). P t)"
    unfolding do_broadcast_def Let_def
    by ((rule yields_bindr [OF send], simp add: em s ready) | rule yields_any | rule conjI impI allI
      | clarsimp simp: em s ready split: sum.split)+
  then show ?thesis by (auto simp: yields_def P_def)
qed

lemma local_directory:
  fixes s t :: "'z kstate_scheme"
  assumes ok: "kernel_ok s" and step: "local_step (registration_fits e) e s t"
  shows "serve_step\<^sup>=\<^sup>= (directory_of s) (directory_of t)"
  using step
proof (cases rule: local_step.cases)
  case (registers u pid r)
  then have "serve_step (directory_of s) (directory_of t)" by (rule register_directory [OF ok])
  then show ?thesis by simp
next
  case (removes idv r)
  then show ?thesis by (rule remove_directory [OF ok])
next
  case (sends msg)
  show ?thesis
    using quiet_directory [OF yieldsD [OF messages.quiet_income [OF messages.quiet_refl] sends] ok] by simp
next
  case (calls i u r vals)
  have "quiet messages_change s t" using yieldsD [OF messages.quiet_peer_ioctl [OF kernel_mem_wf [OF ok]] calls] by simp
  from quiet_directory [OF this ok] show ?thesis by simp
next
  case (tries u r)
  have "quiet messages_change s t" using yieldsD [OF messages.quiet_test_execute [OF kernel_mem_wf [OF ok]] tries] by simp
  from quiet_directory [OF this ok] show ?thesis by simp
next
  case (advertises a r)
  show ?thesis using yieldsD [OF broadcast_directory [OF ok] advertises] by simp
qed

section \<open>The other nodes\<close>

text \<open>Preparing the table of peers, or receiving, does not change the directory.\<close>

lemma received_directory:
  fixes s u :: "'z kstate_scheme"
  assumes "interfaces_of u = interfaces_of s" "peers_list u = peers_list s" "mem.more u = mem.more s" "heap u = heap s"
    and ok: "kernel_ok u"
  shows "directory_of (peers_ready e u) = directory_of s"
proof -
  have h: "heap (peers_ready e u) = heap s" "ALLOCATED_ID (peers_ready e u) = ALLOCATED_ID s"
    using more_fields(7) [OF assms(3)] assms(4) by (simp_all add: peers_ready_def init_peers_def)
  have "known_peer (peers_ready e u) = known_peer s" by (rule known_peer_heap [OF h(1)])
  then show ?thesis
    using peers_ready_ok(2,3) [OF ok, of e] assms(1,2) h(2) by (simp add: directory_of_def)
qed

text \<open>Parsing a list leaves the descriptors that were there.\<close>

lemma unserialize_heap:
  fixes s t :: "'z kstate_scheme"
  assumes ok: "kernel_ok s" and u: "unserialize_interfaces_packet g packet n s = Inr (Inr (a, c), t)"
    and x: "heap s p = Some x"
  shows "heap t p = Some x"
proof -
  have wf: "mem_wf s" using ok by (simp add: kernel_ok_def registry_ok_def)
  obtain xs where xs: "new_interfaces xs s = (a, t)" "length xs = unat c" "unat c \<le> 256"
    using unserialize_accepts [OF u] .
  have "p < next_ptr s" using wf domI [of "heap s", OF x] unfolding mem_wf_def by blast
  then show ?thesis using new_interfaces_frame [OF xs(1) wf] x by simp
qed

lemma add_peer_learns:
  fixes s t :: "'z kstate_scheme"
  assumes ok: "kernel_ok s" and new: "a \<notin> set (map peer_addr (peers_list s))"
    and ready: "peers_ready e s = s" and run: "add_peer e a packet n s = Inr (r, t)"
  obtains (same) "t = s"
  | (met) "length (peers_list s) < 256"
      "directory_of t = (directory_of s)\<lparr>known := known (directory_of s) @ [(a, None)]\<rparr>"
  using ok new ready run
proof (cases rule: add_peer_cases)
  case (added b c u p d)
  have "map (known_peer t) (peers_list s) = map (known_peer s) (peers_list s)"
    using unserialize_heap [OF ok added(1)] by (intro known_same [OF ok]) (simp add: added(6))
  then have "directory_of t = (directory_of s)\<lparr>known := known (directory_of s) @ [(a, None)]\<rparr>"
    using added(3,5,7) by (simp add: directory_of_def) (simp add: known_peer_def new_peer_def)
  with met added(4) show ?thesis .
qed (rule same)

lemma add_peer_directory:
  fixes s t :: "'z kstate_scheme"
  assumes ok: "kernel_ok s" and new: "a \<notin> set (map peer_addr (peers_list s))"
    and ready: "peers_ready e s = s" and run: "add_peer e a packet n s = Inr (r, t)"
  shows "learn_step\<^sup>=\<^sup>= (directory_of s) (directory_of t)"
  using ok new ready run
proof (cases rule: add_peer_learns)
  case met
  then show ?thesis using meets [of a "directory_of s"] new by (simp add: image_image)
qed simp

text \<open>Two peers have no descriptor in common.\<close>

lemma owned_apart:
  assumes "distinct (owned s)" and "m < length (peers_list s)" "i < length (peers_list s)" "m \<noteq> i"
  shows "set (peer_slots (peers_list s ! m)) \<inter> set (peer_slots (peers_list s ! i)) = {}"
proof -
  have apart: "set (f (xs ! m)) \<inter> set (f (xs ! i)) = {}"
    if "distinct (concat (map f xs))" "m < i" "i < length xs" for f :: "peer_t \<Rightarrow> iarray" and xs m i
  proof -
    have "concat (map f xs) = concat (map f (take i xs)) @ f (xs ! i) @ concat (map f (drop (Suc i) xs))"
      using arg_cong [OF split_at [OF that(3)], of "\<lambda>ys. concat (map f ys)"] by simp
    moreover have "set (f (xs ! m)) \<subseteq> set (concat (map f (take i xs)))"
    proof -
      have "xs ! m \<in> set (take i xs)" using that(2,3) by (auto simp: in_set_conv_nth intro!: exI [of _ m])
      then show ?thesis by auto
    qed
    ultimately show ?thesis using that(1) by auto
  qed
  show ?thesis
    using apart [of peer_slots "peers_list s" m i] apart [of peer_slots "peers_list s" i m] assms
    unfolding owned_def by (cases "m < i") auto
qed

lemma update_peer_learns:
  fixes s t :: "'z kstate_scheme"
  assumes ok: "kernel_ok s" and i: "i < length (peers_list s)"
    and run: "update_peer_interfaces e (int i) packet n s = Inr (r, t)"
  obtains (same) "t = s"
  | (learned) a c u where "unserialize_interfaces_packet (kmem e) packet n s = Inr (Inr (a, c), u)" "length a \<le> 256"
      "directory_of t = (directory_of s)\<lparr>known := (known (directory_of s))
        [i := (peer_addr (peers_list s ! i), Some (offerings u a))]\<rparr>"
  using ok i run
proof (cases rule: update_peer_cases)
  case (updated a c u)
  let ?ps = "peers_list s"
  note k = unserialize_kernel [OF ok updated(1)]
  have h: "heap t = (\<lambda>p. if Some p \<in> set (peer_slots (?ps ! i)) then None else heap u p)" by (simp add: updated(2))
  have others: "known_peer t (?ps ! m) = known_peer s (?ps ! m)" if m: "m < length ?ps" "m \<noteq> i" for m
  proof (rule known_frame [OF ok])
    show "?ps ! m \<in> set ?ps" using m by simp
    fix q x assume x: "Some q \<in> set (peer_slots (?ps ! m))" "heap s q = Some x"
    have "distinct (owned s)" using ok by (simp add: kernel_ok_def)
    then have "Some q \<notin> set (peer_slots (?ps ! i))"
      using owned_apart [of s m i] m i x(1) by blast
    then show "settled (the (heap t q)) = settled x"
      using unserialize_heap [OF ok updated(1) x(2)] by (simp add: h)
  qed
  have "set (peer_slots (?ps ! i)) \<subseteq> set (owned u)"
    using k(3) nth_mem [OF i] by (auto simp: owned_def)
  then have new: "x \<notin> set (peer_slots (?ps ! i))" if "x \<in> set a" for x using k(10) that by blast
  have off: "offerings t a = offerings u a"
  proof -
    have "heap t (the x) = heap u (the x)" if x: "x \<in> set a" for x
    proof -
      have "live u x" using k(8) x by (simp add: list_all_iff)
      then show ?thesis using new [OF x] by (auto simp: h live_def)
    qed
    then show ?thesis by (simp add: offerings_def)
  qed
  let ?k = "known (directory_of s)"
  have "known (directory_of t) = ?k[i := (peer_addr (?ps ! i), Some (offerings u a))]"
    using others i off by (auto simp: updated(5) nth_list_update known_peer_def intro!: nth_equalityI)
  then have "directory_of t = (directory_of s)\<lparr>known := ?k[i := (peer_addr (?ps ! i), Some (offerings u a))]\<rparr>"
    using updated(4,6) by (simp add: directory_of_def)
  moreover have "length a \<le> 256" using k(6,7) by simp
  ultimately show ?thesis using learned updated(1) by blast
qed (rule same)

lemma update_peer_directory:
  fixes s t :: "'z kstate_scheme"
  assumes ok: "kernel_ok s" and i: "i < length (peers_list s)"
    and run: "update_peer_interfaces e (int i) packet n s = Inr (r, t)"
  shows "learn_step\<^sup>=\<^sup>= (directory_of s) (directory_of t)"
  using ok i run
proof (cases rule: update_peer_learns)
  case (learned a c u)
  then show ?thesis using hears_again [of i "directory_of s" "offerings u a"] i by (simp add: offerings_def)
qed simp

lemma network_directory:
  fixes s t :: "'z kstate_scheme"
  assumes ok: "kernel_ok s" and step: "network_step e s t"
  shows "learn_step\<^sup>=\<^sup>= (directory_of s) (directory_of t)"
  using step
proof (cases rule: network_step.cases)
  case (connects k r)
  have "quiet messages_change s t" using yieldsD [OF messages.quiet_connection [OF messages.quiet_refl] connects] by simp
  from quiet_directory [OF this ok] show ?thesis by simp
next
  case (discovers buffer sock a b f)
  from ok discovers(1,2) show ?thesis
  proof (cases rule: discovery_step_cases)
    case (added u n r sender)
    note rd = peers_ready_ok [OF added(1), of e]
    from add_peer_directory [OF rd(1) added(7) peers_ready_idem added(8)] show ?thesis
      by (simp add: received_directory [OF added(2-5,1)])
  next
    case (updated u n r k sender)
    note rd = peers_ready_ok [OF updated(1), of e]
    from update_peer_directory [OF rd(1) updated(7,9)] show ?thesis
      by (simp add: received_directory [OF updated(2-5,1)])
  qed
qed

section \<open>A node implements its directory\<close>

interpretation processes: simulation "local_step (registration_fits e) e" serve_step directory_of kernel_ok for e
  by unfold_locales (rule local_step_ok, assumption+, rule local_directory)

interpretation others: simulation "network_step e" learn_step directory_of kernel_ok for e
  by unfold_locales (drule (1) network_step_ok, simp, rule network_directory)

interpretation node: simulation "node_step (registration_fits e) e" directory_step directory_of kernel_ok for e
proof
  show "kernel_ok t" if "kernel_ok s" "node_step (registration_fits e) e s t" for s t :: "'z kstate_scheme"
    using that local_step_ok network_step_ok unfolding node_step_def by blast
  show "directory_step\<^sup>=\<^sup>= (directory_of s) (directory_of t)" if "kernel_ok s" "node_step (registration_fits e) e s t"
    for s t :: "'z kstate_scheme"
    using that local_directory [of s e t] network_directory [of s e t]
    by (auto simp: node_step_def directory_step_def)
qed

text \<open>The addresses of the known peers only grow, and not beyond 256.\<close>

definition remembers :: "directory \<Rightarrow> directory \<Rightarrow> bool" where
  "remembers d d' \<longleftrightarrow> (\<exists>new. map fst (known d') = map fst (known d) @ new \<and>
     (256 \<le> length (known d) \<longrightarrow> new = []))"

lemma update_same: "k < length xs \<Longrightarrow> (map f xs)[k := f (xs ! k)] = map f xs"
  by (simp add: list_update_same_conv)

lemma directory_remembers: "directory_step d d' \<Longrightarrow> remembers d d'"
  by (auto simp: directory_step_def remembers_def map_update update_same
      elim!: serve_step.cases learn_step.cases)

lemma remembers_trans:
  assumes "remembers d d'" and "remembers d' d''"
  shows "remembers d d''"
proof -
  from assms obtain n1 n2 where n: "map fst (known d') = map fst (known d) @ n1" "256 \<le> length (known d) \<longrightarrow> n1 = []"
      "map fst (known d'') = map fst (known d') @ n2" "256 \<le> length (known d') \<longrightarrow> n2 = []"
    unfolding remembers_def by blast
  have "length (known d') = length (known d) + length n1" using arg_cong [OF n(1), of length] by simp
  with n show ?thesis unfolding remembers_def by (intro exI [of _ "n1 @ n2"]) simp
qed

section \<open>Properties\<close>

text \<open>
  C11: a node whose registrations fit implements its directory. What its processes do are steps
  in which an interface enters with the next identifier at the end of the list, or leaves the way the code takes it
  out, and nothing that is known of the peers changes; what the other nodes do are steps in
  which a new peer is met, with nothing on offer, while there are fewer than 256, or the list
  of one known peer is replaced, and no own interface changes. All other steps leave the
  directory as it is.
\<close>

theorem node_refines_directory:
  assumes "kernel_ok s" and "(node_step (registration_fits e) e)\<^sup>*\<^sup>* s t"
  shows "directory_step\<^sup>*\<^sup>* (directory_of s) (directory_of t) \<and>
    ((local_step (registration_fits e) e)\<^sup>*\<^sup>* s t \<longrightarrow> serve_step\<^sup>*\<^sup>* (directory_of s) (directory_of t)) \<and>
    ((network_step e)\<^sup>*\<^sup>* s t \<longrightarrow> learn_step\<^sup>*\<^sup>* (directory_of s) (directory_of t))"
  using assms node.refines processes.refines others.refines by blast

text \<open>
  C12: no peer is ever forgotten. Whatever happens on the node, as long as its registrations fit,
  and around it, the addresses in the table of peers stay at their positions, so the device of a peer goes on leading to it, and new
  ones follow them; once 256 addresses have been heard, no other node is ever learned.
\<close>

theorem peers_never_forgotten:
  assumes "kernel_ok s" and "(node_step (registration_fits e) e)\<^sup>*\<^sup>* s t"
  shows "\<exists>new. map peer_addr (peers_list t) = map peer_addr (peers_list s) @ new \<and>
    (length (peers_list s) = 256 \<longrightarrow> new = [])"
proof -
  have "remembers (directory_of s) (directory_of t)"
    by (rule node.transfers [OF assms(2,1) _ remembers_trans directory_remembers]) (simp add: remembers_def)
  then show ?thesis by (auto simp: remembers_def)
qed

section \<open>Examples\<close>

theorem node_refines_directory_witness:
  "\<exists>t :: kstate. serve_step\<^sup>*\<^sup>* (directory_of fresh_kernel) (directory_of t) \<and> kernel_ok t \<and>
    own (directory_of t) = [settled (registered kind_kernel 42 user_descriptor fresh_kernel)]"
proof -
  obtain t where t: "kernel_ok t" "table_ok t" "KERN_NETLINK t = Some 0"
    "interfaces_of t = [registered kind_kernel 42 user_descriptor fresh_kernel]"
    "local_step (registration_fits kind_kernel) kind_kernel fresh_kernel t" by (rule one_registered)
  then have run: "(node_step (registration_fits kind_kernel) kind_kernel)\<^sup>*\<^sup>* fresh_kernel t" "(local_step (registration_fits kind_kernel) kind_kernel)\<^sup>*\<^sup>* fresh_kernel t"
    by (auto simp: node_step_def)
  from node_refines_directory [OF fresh_kernel_ok run(1)] run(2)
  have "serve_step\<^sup>*\<^sup>* (directory_of fresh_kernel) (directory_of t)" by blast
  with t(1,4) show ?thesis by (intro exI [of _ t]) simp
qed

definition crowded_kernel :: kstate where
  "crowded_kernel = fresh_kernel\<lparr>peers := Some (map (\<lambda>i. peer_0\<lparr>peer_id := int i, peer_addr := word_of_nat (i + 10)\<rparr>)
     [0..<256]), peer_count := 256\<rparr>"

lemma crowded_peers: "peers_list crowded_kernel
    = map (\<lambda>i. peer_0\<lparr>peer_id := int i, peer_addr := word_of_nat (i + 10)\<rparr>) [0..<256]"
  by (simp add: peers_list_def crowded_kernel_def del: upt_rec_numeral)

lemma crowded_addr_inj: "inj_on (\<lambda>i. word_of_nat (i + 10) :: u32) {..<256}"
proof (rule inj_onI)
  fix i j :: nat
  assume "i \<in> {..<256}" "j \<in> {..<256}" "(word_of_nat (i + 10) :: u32) = word_of_nat (j + 10)"
  then show "i = j" using unat_of_nat_u32 [of "i + 10"] unat_of_nat_u32 [of "j + 10"] by simp
qed

lemma crowded_kernel_ok: "kernel_ok crowded_kernel"
proof -
  have "owned crowded_kernel = []"
    by (simp add: owned_def crowded_peers peer_slots_def peer_0_def comp_def del: upt_rec_numeral)
  moreover have "distinct (map peer_addr (peers_list crowded_kernel))"
    using crowded_addr_inj by (simp add: crowded_peers distinct_map comp_def lessThan_atLeast0 del: upt_rec_numeral)
  moreover have "map peer_id (peers_list crowded_kernel) = map int [0..<256]"
    by (simp add: crowded_peers comp_def del: upt_rec_numeral)
  moreover have "list_all peer_ok (peers_list crowded_kernel)"
    by (simp add: crowded_peers list_all_iff peer_ok_def peer_0_def del: upt_rec_numeral)
  ultimately show ?thesis
    by (simp add: kernel_ok_def table_shape_def del: upt_rec_numeral)
      (simp add: crowded_kernel_def fresh_kernel_def registry_ok_def mem_wf_def slots_of_def live_slots_def
        interfaces_of_def del: upt_rec_numeral)
qed

lemma crowded_turn:
  obtains t where "network_step hearing_kernel crowded_kernel t" "trace t = [Sock_received 4 65536]"
proof -
  let ?k = "open_socket 4" and ?b = "replicate 65536 0 :: byte list"
  let ?t = "emit (Sock_received 4 65536) crowded_kernel" and ?b1 = "small_packet @ drop (length small_packet) (replicate 65536 0)"
  have k: "sock_no ?k = 4" "\<not> sk_null ?k" by (simp_all add: open_socket_def)
  have p: "small_packet \<noteq> []" using length_small_packet by auto
  have recv: "sock_recvfrom hearing_kernel (Some ?k) (PBlk ?b) (int DISCOVERY_BUFFER) crowded_kernel
      = Inr (30, Some 9, PBlk ?b1, ?t)"
    using recv_whole [of small_packet ?b ?k hearing_kernel crowded_kernel 30 "Some 9"] k p length_small_packet
    by (simp add: hearing_kernel_def)
  have ok: "kernel_ok ?t" and pl: "peers_list ?t = peers_list crowded_kernel"
    using kernel_ok_emit [OF crowded_kernel_ok] by auto
  have "(9 :: u32) \<noteq> word_of_nat (i + 10)" if "i < 256" for i
  proof -
    have "unat (word_of_nat (i + 10) :: u32) = i + 10" using that unat_of_nat_u32 [of "i + 10"] by linarith
    then have "unat (9 :: u32) \<noteq> unat (word_of_nat (i + 10) :: u32)" unfolding that by simp
    then show ?thesis by metis
  qed
  then have "addr_index 9 (peers_list ?t) = None"
    by (auto simp: addr_index_None pl crowded_peers simp del: upt_rec_numeral)
  moreover have "peers_ready hearing_kernel ?t = ?t" "peer_count ?t = 256"
    by (simp_all add: peers_ready_def emit_def crowded_kernel_def)
  ultimately have step: "discovery_step hearing_kernel (Some ?k) (?b, 0, crowded_kernel) = Inr (?b1, 9, ?t)"
    using discovery_step_received [OF recv ok refl, of 0] by (simp add: add_peer_def)
  show ?thesis
    by (rule that [OF discovers [OF _ step]]) (simp_all add: emit_def crowded_kernel_def fresh_kernel_def)
qed

theorem peers_never_forgotten_witness:
  "\<exists>t. (node_step (registration_fits hearing_kernel) hearing_kernel)\<^sup>*\<^sup>* crowded_kernel t \<and> trace t = [Sock_received 4 65536] \<and>
    length (peers_list crowded_kernel) = 256 \<and>
    map peer_addr (peers_list t) = map peer_addr (peers_list crowded_kernel)"
proof -
  obtain t where t: "network_step hearing_kernel crowded_kernel t" "trace t = [Sock_received 4 65536]"
    by (rule crowded_turn)
  have run: "(node_step (registration_fits hearing_kernel) hearing_kernel)\<^sup>*\<^sup>* crowded_kernel t" using t(1) by (auto simp: node_step_def)
  have len: "length (peers_list crowded_kernel) = 256" by (simp add: crowded_peers del: upt_rec_numeral)
  from peers_never_forgotten [OF crowded_kernel_ok run] len
  have "map peer_addr (peers_list t) = map peer_addr (peers_list crowded_kernel)" by auto
  with run t(2) len show ?thesis by (intro exI conjI)
qed

end
