(* ===== verification/System.thy ===== *)
theory System
  imports Directory Learning
begin

text \<open>
  Many nodes and the networks between them: every node runs the module, what one broadcasts may
  reach any other, any number of times, late or never, and the handlers of all nodes interleave.
  The theory shows that no node ever offers an interface of another that was not registered
  there.
\<close>

section \<open>The system\<close>

text \<open>
  Nodes are known by their addresses. The wire keeps every broadcast with the address it came
  from; the network delivers packets whole and with their true sender.
\<close>

record world =
  node :: "u32 \<Rightarrow> kstate"
  wire :: "(u32 \<times> byte list) set"

definition set_node :: "u32 \<Rightarrow> kstate \<Rightarrow> world \<Rightarrow> world" where
  "set_node n t w = w\<lparr>node := (node w)(n := t)\<rparr>"

lemma set_node_simps [simp]:
  "node (set_node n t w) m = (if m = n then t else node w m)" "wire (set_node n t w) = wire w"
  by (simp_all add: set_node_def)

text \<open>
  The kernel under a node answers as it likes at every step, but for the memory a registration
  needs (\<open>registration_fits\<close>). A node sends while it has the network and its list fits the packet; its connections may come from anywhere and carry
  anything; the packets on the discovery port are those on the wire.
\<close>

inductive world_step :: "world \<Rightarrow> world \<Rightarrow> bool" where
  acts: "local_step (registration_fits e) e (node w n) t \<Longrightarrow> world_step w (set_node n t w)"
| serves: "handle_connection e k (node w n) = Inr (r, t) \<Longrightarrow> world_step w (set_node n t w)"
| sends: "network_up e \<Longrightarrow> advertises e (node w n) \<Longrightarrow> do_broadcast e d (node w n) = Inr (r, t) \<Longrightarrow>
    trace t = tr @ trace (node w n) \<Longrightarrow>
    world_step w ((set_node n t w)\<lparr>wire := wire w \<union> (\<lambda>(_, x). (n, x)) ` set (adverts_sent tr)\<rparr>)"
| receives: "(a, x) \<in> wire w \<Longrightarrow>
    \<forall>tr. sock_recvmsg e tr (sock_no k) 65536 = (int (length x), Some a, x) \<Longrightarrow> length x \<le> 65536 \<Longrightarrow>
    \<not> sk_null k \<Longrightarrow> length b = DISCOVERY_BUFFER \<Longrightarrow>
    discovery_step e (Some k) (b, f, node w n) = Inr (b', f', t) \<Longrightarrow> world_step w (set_node n t w)"

text \<open>What a node offers of another at a time.\<close>

definition offers_of :: "world \<Rightarrow> u32 \<Rightarrow> u32 \<Rightarrow> interface_t list \<Rightarrow> bool" where
  "offers_of w n a ys \<longleftrightarrow> (a, Some ys) \<in> set (known (directory_of (node w n)))"

section \<open>Where packets and offers come from\<close>

text \<open>The state of the node \<open>a\<close> at some time between two worlds of a run.\<close>

definition once :: "world \<Rightarrow> world \<Rightarrow> u32 \<Rightarrow> (kstate \<Rightarrow> bool) \<Rightarrow> bool" where
  "once v w a P \<longleftrightarrow> (\<exists>u. world_step\<^sup>*\<^sup>* v u \<and> world_step\<^sup>*\<^sup>* u w \<and> P (node u a))"

lemma once_later: "once v w a P \<Longrightarrow> world_step w w' \<Longrightarrow> once v w' a P"
  unfolding once_def by (blast intro: rtranclp.rtrancl_into_rtrancl)

lemma once_now: "world_step\<^sup>*\<^sup>* v w \<Longrightarrow> P (node w a) \<Longrightarrow> once v w a P"
  unfolding once_def by blast

text \<open>
  A run is honest if the nodes are well-formed, every packet is the advertisement of what its
  sender had registered once, and every offer is what its origin had registered once.
\<close>

definition advertised :: "byte list \<Rightarrow> kstate \<Rightarrow> bool" where
  "advertised x s \<longleftrightarrow> x = advert_bytes (interfaces_of s) \<and> list_all interface_readable (interfaces_of s) \<and>
     length (interfaces_of s) < 2 ^ 32"

definition honest :: "world \<Rightarrow> world \<Rightarrow> bool" where
  "honest v w \<longleftrightarrow> (\<forall>n. kernel_ok (node w n)) \<and> (\<forall>(a, x) \<in> wire w. once v w a (advertised x)) \<and>
     (\<forall>n a ys. offers_of w n a ys \<longrightarrow> once v w a (\<lambda>s. ys = map advert (interfaces_of s)))"

text \<open>One node makes a step: what it sends and what it newly offers has to be accounted for.\<close>

lemma honest_node:
  assumes h: "honest v w" and step: "world_step w w'" and n: "node w' = (node w)(n := t)" and ok: "kernel_ok t"
    and x: "\<And>a x. (a, x) \<in> wire w' \<Longrightarrow> (a, x) \<in> wire w \<or> once v w a (advertised x)"
    and k: "\<And>a ys. (a, Some ys) \<in> set (known (directory_of t)) \<Longrightarrow>
      (a, Some ys) \<in> set (known (directory_of (node w n))) \<or> once v w a (\<lambda>s. ys = map advert (interfaces_of s))"
  shows "honest v w'"
proof -
  have "once v w' a (\<lambda>s. ys = map advert (interfaces_of s))" if o: "offers_of w' m a ys" for m a ys
  proof -
    have "offers_of w m a ys \<or> once v w a (\<lambda>s. ys = map advert (interfaces_of s))"
      using o k [of a ys] by (cases "m = n") (simp_all add: offers_of_def n)
    then have "once v w a (\<lambda>s. ys = map advert (interfaces_of s))" using h unfolding honest_def by blast
    then show ?thesis by (rule once_later [OF _ step])
  qed
  moreover have "once v w' a (advertised x)" if "(a, x) \<in> wire w'" for a x
  proof -
    have "once v w a (advertised x)" using h x [OF that] unfolding honest_def by blast
    then show ?thesis by (rule once_later [OF _ step])
  qed
  moreover have "kernel_ok (node w' m)" for m using h ok by (simp add: honest_def n)
  ultimately show ?thesis unfolding honest_def by blast
qed

text \<open>A list that is received is the list of the node it came from.\<close>

lemma settled_advert [simp]: "settled (advert x) = advert x"
  by (simp add: settled_def set_ctrl_def advert_def interface_0_def)

lemma offerings_describes:
  assumes "describes a s xs"
  shows "offerings s a = map settled xs"
  unfolding describes_unique [OF assms] by (simp add: offerings_def)

lemma received_known:
  fixes s t :: "'z kstate_scheme"
  assumes ok: "kernel_ok s" and b: "length b = DISCOVERY_BUFFER" "\<not> sk_null k"
    and x: "length (advert_bytes xs) \<le> 65536" "list_all interface_readable xs" "length xs < 2 ^ 32"
    and recv: "\<forall>tr. sock_recvmsg e tr (sock_no k) 65536 = (int (length (advert_bytes xs)), Some a, advert_bytes xs)"
    and run: "discovery_step e (Some k) (b, f, s) = Inr (b', f', t)"
    and o: "(a', Some ys) \<in> set (known (directory_of t))"
  shows "(a', Some ys) \<in> set (known (directory_of s)) \<or> a' = a \<and> ys = map advert xs"
proof -
  let ?x = "advert_bytes xs"
  have got: "sock_recvfrom e (Some k) (PBlk b) (int DISCOVERY_BUFFER) s = Inr (int (length ?x), Some a,
      PBlk (?x @ drop (length ?x) b), emit (Sock_received (sock_no k) 65536) s)"
    by (rule recv_whole) (use b x(1) recv length_advert_bytes in simp_all)
  from ok b(1) run show ?thesis
  proof (cases rule: discovery_step_cases)
    case (added u n r sender)
    note rd = peers_ready_ok [OF added(1), of e] and d = received_directory [OF added(2-5,1), of e]
    from rd(1) added(7) peers_ready_idem added(8) show ?thesis
      by (cases rule: add_peer_learns) (use o in \<open>simp_all add: d\<close>)
  next
    case (updated u n r i sender)
    note rd = peers_ready_ok [OF updated(1), of e] and d = received_directory [OF updated(2-5,1), of e]
    have b': "b' = ?x @ drop (length ?x) b" and f': "f' = a" using updated(10,11) got by simp_all
    from rd(1) updated(7,9) show ?thesis
    proof (cases rule: update_peer_learns)
      case same
      then show ?thesis using o by (simp add: d)
    next
      case (learned c m v)
      have "mem_wf (peers_ready e u)" using rd(1) by (simp add: kernel_ok_def registry_ok_def)
      from unserialize_advert_inv [OF learned(1) [unfolded b'] x(2,3) this]
      have "offerings v c = map advert xs" by (simp add: offerings_describes comp_def)
      moreover have "peer_addr (peers_list (peers_ready e u) ! i) = a"
        using addr_index_SomeD [OF updated(8)] by (simp add: rd(3) updated(3) f')
      ultimately have k: "known (directory_of t) = (known (directory_of s))[i := (a, Some (map advert xs))]"
        using learned(3) d by simp
      show ?thesis
        using o set_update_subset_insert [of "known (directory_of s)" i "(a, Some (map advert xs))"] unfolding k by blast
    qed
  qed
qed

section \<open>Every step is honest\<close>

lemma serve_known: "serve_step\<^sup>=\<^sup>= d d' \<Longrightarrow> known d' = known d"
  by (auto elim: serve_step.cases)

lemma honest_step:
  assumes h: "honest v w" and run: "world_step\<^sup>*\<^sup>* v w" and step: "world_step w w'"
  shows "honest v w'"
proof -
  have ok: "kernel_ok (node w n)" for n using h by (simp add: honest_def)
  from step show ?thesis
  proof cases
    case (acts e n t)
    have "known (directory_of t) = known (directory_of (node w n))"
      by (rule serve_known [OF local_directory [OF ok acts(2)]])
    then show ?thesis
      by (intro honest_node [OF h step _ local_step_ok [OF ok acts(2)], of n]) (auto simp: acts(1) set_node_def)
  next
    case (serves e k n r t)
    have q: "quiet messages_change (node w n) t"
      using yieldsD [OF messages.quiet_connection [OF messages.quiet_refl] serves(2)] by simp
    show ?thesis
      by (intro honest_node [OF h step _ quiet_kernel_ok [OF q ok], of n])
        (auto simp: serves(1) set_node_def quiet_directory [OF q ok])
  next
    case (sends e n d r t tr)
    let ?s = "node w n"
    obtain t' tr' where b: "do_broadcast e d ?s = Inr (0, t')" "trace t' = tr' @ trace ?s"
        "adverts_sent tr' = [(d, advert_bytes (interfaces_of ?s))]"
      using do_broadcast_sends [OF sends(2,3), of d] by blast
    have sent: "adverts_sent tr = [(d, advert_bytes (interfaces_of ?s))]"
      using b sends(4,5) by simp
    have "advertised (advert_bytes (interfaces_of ?s)) ?s"
      using sends(3) by (auto simp: advertised_def advertises_def adverts_fit_def list_all_iff interface_sendable_def)
    then have once: "once v w n (advertised (advert_bytes (interfaces_of ?s)))" by (rule once_now [OF run])
    have "directory_of t = directory_of ?s" using yieldsD [OF broadcast_directory [OF ok] sends(4)] by simp
    moreover have "kernel_ok t" using yieldsD [OF broadcast_kernel_ok [OF ok] sends(4)] by simp
    ultimately show ?thesis
      by (intro honest_node [OF h step, of n t]) (use once in \<open>auto simp: sends(1) set_node_def sent\<close>)
  next
    case (receives a x e k b f n b' f' t)
    have "once v w a (advertised x)" using h receives(2) unfolding honest_def by blast
    then obtain u where u: "world_step\<^sup>*\<^sup>* v u" "world_step\<^sup>*\<^sup>* u w" "advertised x (node u a)"
      unfolding once_def by blast
    have net: "network_step e (node w n) t" using receives(6,7) by (rule discovers)
    have "(a', Some ys) \<in> set (known (directory_of (node w n))) \<or> once v w a' (\<lambda>s. ys = map advert (interfaces_of s))"
      if "(a', Some ys) \<in> set (known (directory_of t))" for a' ys
      using received_known [OF ok receives(6,5) _ _ _ _ receives(7) that, of "interfaces_of (node u a)" a]
        receives(3,4) u by (auto simp: advertised_def once_def)
    then show ?thesis
      using network_step_ok [OF ok net]
      by (intro honest_node [OF h step, of n t]) (auto simp: receives(1) set_node_def)
  qed
qed

lemma honest_run: "world_step\<^sup>*\<^sup>* v w \<Longrightarrow> honest v v \<Longrightarrow> honest v w"
  by (induction rule: rtranclp_induct) (auto intro: honest_step)

lemma honest_start:
  assumes "\<forall>n. kernel_ok (node v n) \<and> peers_list (node v n) = []" and "wire v = {}"
  shows "honest v v"
  using assms by (simp add: honest_def offers_of_def)

section \<open>Properties\<close>

text \<open>
  C3: whatever a node offers of another was registered there. In a network of any number of nodes
  that start without peers, with all their handlers interleaved in any order, registrations that
  fit, broadcasts lost, delayed and repeated, and connections that carry anything: the
  interfaces a node offers under
  an address are, in their order and with their identifiers, counts and flags, all the
  interfaces that the node with this address had registered at one time since the start.
\<close>

theorem offers_were_registered:
  assumes "\<forall>n. kernel_ok (node v n) \<and> peers_list (node v n) = []" and "wire v = {}"
    and "world_step\<^sup>*\<^sup>* v w" and "offers_of w n a ys"
  shows "\<exists>u. world_step\<^sup>*\<^sup>* v u \<and> world_step\<^sup>*\<^sup>* u w \<and> ys = map advert (interfaces_of (node u a))"
proof -
  have "honest v w" by (rule honest_run [OF assms(3) honest_start [OF assms(1,2)]])
  then show ?thesis using assms(4) unfolding honest_def once_def by blast
qed

section \<open>Examples\<close>

definition three_node :: kstate where
  "three_node = fresh_kernel\<lparr>heap := heap three_registry, next_ptr := next_ptr three_registry,
     ALLOCATED_ID := ALLOCATED_ID three_registry, INTERFACE_COUNT := INTERFACE_COUNT three_registry,
     INTERFACE_CAPACITY := INTERFACE_CAPACITY three_registry, INTERFACE_LIST := INTERFACE_LIST three_registry\<rparr>"

definition two_nodes :: world where
  "two_nodes = \<lparr>node = (\<lambda>n. if n = 9 then three_node else fresh_kernel), wire = {}\<rparr>"

lemma three_node_view: "interfaces_of three_node = interfaces_of three_registry" "live_slots three_node = live_slots three_registry"
  "slots_of three_node = slots_of three_registry" "heap three_node = heap three_registry" "peers_list three_node = []"
  by (simp_all add: three_node_def interfaces_of_def live_slots_def slots_of_def peers_list_def fresh_kernel_def)

lemma three_node_ok: "kernel_ok three_node"
proof -
  have d: "describes (live_slots three_node) three_node (interfaces_of three_node)"
    using registry_ok_describes [OF three_registry_ok] by (simp add: describes_def three_node_view)
  have "registry_ok three_node"
    using three_registry_ok d unfolding registry_ok_def three_node_view
    by (simp add: mem_wf_def three_node_view(4)) (simp add: three_node_def)
  then show ?thesis
    by (simp add: kernel_ok_def owned_def three_node_view(5) table_shape_def)
      (simp add: three_node_def fresh_kernel_def)
qed

lemma three_heard: "hears learning_kernel (sock_no (open_socket 4)) 9 (interfaces_of three_registry)"
proof -
  have "list_all interface_readable (interfaces_of three_registry)"
    using three_advertised by (auto simp: advertises_def adverts_fit_def list_all_iff interface_sendable_def)
  moreover have "adverts_granted (kmem learning_kernel) (interfaces_of three_registry)"
    by (simp add: learning_kernel_def kind_kernel_def adverts_granted_def three_interfaces kgrant_def kmalloc_max_def
        stored_interface_def blank_interface_def)
  moreover have "length (interfaces_of three_registry) = 3" by (simp add: three_interfaces)
  ultimately show ?thesis by (simp add: hears_def three_advert_length) (simp add: learning_kernel_def three_advert_length)
qed

lemma two_nodes_run:
  obtains w where "world_step\<^sup>*\<^sup>* two_nodes w" "offers_of w 7 9 (map advert (interfaces_of three_registry))"
proof -
  let ?xs = "interfaces_of three_registry" and ?k = "Some (open_socket 4)" and ?b = "replicate 65536 0 :: byte list"
  have adv: "advertises kind_kernel three_node"
    using three_advertised three_node_ok by (simp add: advertises_def three_node_view kernel_ok_def)
  obtain t tr where t: "do_broadcast kind_kernel 1 three_node = Inr (0, t)" "trace t = tr @ trace three_node"
      "adverts_sent tr = [(1, advert_bytes ?xs)]"
    using do_broadcast_sends [OF kind_kernel_up adv, of 1] by (auto simp: three_node_view)
  define w1 where "w1 = (set_node 9 t two_nodes)\<lparr>wire := {(9, advert_bytes ?xs)}\<rparr>"
  have s1: "world_step two_nodes w1"
    using sends [of kind_kernel two_nodes 9 1 0 t tr] kind_kernel_up adv t by (simp add: two_nodes_def w1_def)
  have room: "peers (peers_ready learning_kernel fresh_kernel) \<noteq> None"
    by (simp add: peers_ready_def init_peers_def kzalloc_array_def learning_kernel_def kind_kernel_def kgrant_def
        kmalloc_max_def fresh_kernel_def)
  have fresh: "peers_list fresh_kernel = []" by (simp add: peers_list_def fresh_kernel_def)
  obtain b2 v q slots where v: "discovery_run learning_kernel ?k 2 (?b, 0, fresh_kernel) = Inr (b2, 9, v)"
      "peers_list v = peers_list fresh_kernel @ [q]" "peer_addr q = 9" "interfaces q = Some slots"
      "describes slots v (map advert ?xs)"
    using heard_twice [OF fresh_kernel_ok _ room _ three_heard, of ?b 0] by (auto simp: fresh open_socket_def)
  then obtain b1 f1 u where u: "discovery_step learning_kernel ?k (?b, 0, fresh_kernel) = Inr (b1, f1, u)"
      "discovery_step learning_kernel ?k (b1, f1, u) = Inr (b2, 9, v)"
    by (auto simp: numeral_2_eq_2 bindr_eq_Inr)
  have len: "length b1 = DISCOVERY_BUFFER"
    using discovery_step_ok [OF _ u(1)] fresh_kernel_ok by (simp add: discovery_ok_def)
  have recv: "\<forall>tr. sock_recvmsg learning_kernel tr (sock_no (open_socket 4)) 65536
      = (int (length (advert_bytes ?xs)), Some 9, advert_bytes ?xs)"
    by (simp add: learning_kernel_def)
  have x: "length (advert_bytes ?xs) \<le> 65536" "\<not> sk_null (open_socket 4)"
    by (simp_all add: three_advert_length open_socket_def)
  have s2: "world_step w1 (set_node 7 u w1)"
    by (rule receives [OF _ recv x, where n = 7 and b = ?b and f = 0])
      (use u(1) in \<open>simp_all add: w1_def two_nodes_def\<close>)
  have s3: "world_step (set_node 7 u w1) (set_node 7 v (set_node 7 u w1))"
    by (rule receives [OF _ recv x len, where n = 7]) (use u(2) in \<open>simp_all add: w1_def\<close>)
  have "offerings v slots = map advert ?xs" by (simp add: offerings_describes [OF v(5)] comp_def)
  then have "offers_of (set_node 7 v (set_node 7 u w1)) 7 9 (map advert ?xs)"
    by (simp add: offers_of_def v(2-4) fresh known_peer_def)
  moreover have "world_step\<^sup>*\<^sup>* two_nodes (set_node 7 v (set_node 7 u w1))"
    using s1 s2 s3 by (meson converse_rtranclp_into_rtranclp r_into_rtranclp)
  ultimately show ?thesis by (rule that [rotated])
qed

theorem offers_were_registered_witness:
  "\<exists>w u. offers_of w 7 9 (map advert (interfaces_of three_registry)) \<and> world_step\<^sup>*\<^sup>* two_nodes u \<and> world_step\<^sup>*\<^sup>* u w \<and>
    map advert (interfaces_of three_registry) = map advert (interfaces_of (node u 9))"
proof -
  obtain w where w: "world_step\<^sup>*\<^sup>* two_nodes w" "offers_of w 7 9 (map advert (interfaces_of three_registry))"
    by (rule two_nodes_run)
  have "\<forall>n. kernel_ok (node two_nodes n) \<and> peers_list (node two_nodes n) = []" "wire two_nodes = {}"
    using three_node_ok fresh_kernel_ok
    by (simp_all add: two_nodes_def three_node_view(5)) (simp add: peers_list_def fresh_kernel_def)
  from offers_were_registered [OF this w] w(2) show ?thesis by blast
qed

end
