(* ===== verification/Leaks.thy ===== *)
theory Leaks
  imports Peer_Device
begin

text \<open>
  Memory that is lost: descriptors that neither the registry nor the table of peers leads to,
  once no handler is running (\<open>network/peer.c\<close>, \<open>interface.c\<close>).
\<close>

section \<open>What can be reached\<close>

definition lost :: "'z kstate_scheme \<Rightarrow> ptr set" where
  "lost s = dom (heap s) - {p. Some p \<in> set (live_slots s) \<union> set (owned s)}"

lemma finite_lost: "mem_wf s \<Longrightarrow> finite (lost s)"
  by (rule finite_subset [of _ "{..<next_ptr s}"]) (auto simp: lost_def mem_wf_def)

lemma lost_cong: "heap t = heap s \<Longrightarrow> live_slots t = live_slots s \<Longrightarrow> owned t = owned s \<Longrightarrow> lost t = lost s"
  by (simp add: lost_def)

text \<open>The descriptors a list is parsed into are new, and nothing else is.\<close>

lemma unserialize_dom:
  fixes s t :: "'z kstate_scheme"
  assumes ok: "kernel_ok s" and u: "unserialize_interfaces_packet g packet n s = Inr (Inr (a, c), t)"
  shows "dom (heap t) = dom (heap s) \<union> {p. Some p \<in> set a}" "dom (heap s) \<inter> {p. Some p \<in> set a} = {}"
    "card {p. Some p \<in> set a} = unat c"
proof -
  have wf: "mem_wf s" using ok by (simp add: kernel_ok_def registry_ok_def)
  obtain xs where xs: "new_interfaces xs s = (a, t)" "length xs = unat c" "unat c \<le> 256"
    using unserialize_accepts [OF u] .
  note fr = new_interfaces_frame [OF xs(1) wf] and fresh = new_interfaces_fresh [OF xs(1)]
  have am: "a = map Some [next_ptr s..<next_ptr t]" using fresh by (simp only:)
  have in_a: "Some p \<in> set a \<longleftrightarrow> next_ptr s \<le> p \<and> p < next_ptr t" for p unfolding am by auto
  have a: "{p. Some p \<in> set a} = {next_ptr s..<next_ptr t}" unfolding in_a by auto
  then show "card {p. Some p \<in> set a} = unat c" by (simp only: a fresh [THEN conjunct2] xs(2)) simp
  have old: "p < next_ptr s" if "p \<in> dom (heap s)" for p using wf that by (simp add: mem_wf_def)
  then show "dom (heap s) \<inter> {p. Some p \<in> set a} = {}" unfolding a using old by force
  have new: "heap t p \<noteq> None" if "Some p \<in> set a" for p
    using describes_live [OF new_interfaces_describes [OF xs(1) wf]] that by (auto simp: list_all_iff live_def)
  have "p \<in> dom (heap t) \<longleftrightarrow> p \<in> dom (heap s) \<or> Some p \<in> set a" for p
  proof (cases "p < next_ptr s")
    case True
    then have "heap t p = heap s p" "Some p \<notin> set a" using fr in_a by auto
    then show ?thesis by (simp add: domIff)
  next
    case False
    have "p < next_ptr t" if "p \<in> dom (heap t)" using fr that by (simp add: mem_wf_def)
    then have "p \<in> dom (heap t) \<Longrightarrow> Some p \<in> set a" using False in_a by auto
    then show ?thesis using new old [of p] False by auto
  qed
  then show "dom (heap t) = dom (heap s) \<union> {p. Some p \<in> set a}" by blast
qed

section \<open>What a packet loses\<close>

text \<open>Adding a peer parses its list and forgets it: every descriptor of the list is lost.\<close>

lemma added_loses:
  fixes s t :: "'z kstate_scheme"
  assumes ok: "kernel_ok s" and u: "unserialize_interfaces_packet g packet n s = Inr (Inr (b, c), u)"
    and t: "heap t = heap u" "live_slots t = live_slots s" "peers_list t = peers_list s @ [p]" "interfaces p = None"
  shows "card (lost t) = card (lost s) + unat c"
proof -
  let ?new = "{p. Some p \<in> set b}"
  note d = unserialize_dom [OF ok u] and k = unserialize_kernel [OF ok u]
  have wf: "mem_wf s" using ok by (simp add: kernel_ok_def registry_ok_def)
  have own: "owned t = owned s" "owned u = owned s" "live_slots u = live_slots s"
    using k(3) more_fields [OF k(4)] t(3,4) by (simp_all add: owned_def peer_slots_def live_slots_def slots_of_def)
  have apart: "set b \<inter> (set (live_slots s) \<union> set (owned s)) = {}"
    using k(10,11) own(2,3) by auto
  then have "lost t = lost s \<union> ?new"
    unfolding lost_def t(1,2) own(1) d(1) by auto
  moreover have "lost s \<inter> ?new = {}" using d(2) by (auto simp: lost_def)
  moreover have "finite ?new" by (rule finite_vimageI [of "set b" Some, unfolded vimage_def]) simp_all
  ultimately show ?thesis using card_Un_disjoint [OF finite_lost [OF wf]] d(3) by simp
qed

text \<open>Replacing a list frees exactly the descriptors it replaces.\<close>

lemma updated_keeps:
  fixes s t :: "'z kstate_scheme"
  assumes ok: "kernel_ok s" and i: "i < length (peers_list s)"
    and u: "unserialize_interfaces_packet g packet n s = Inr (Inr (a, c), u)"
    and t: "t = put_peer (int i) q (release_all (peer_slots (peers_list s ! i)) u)" "interfaces q = Some a"
      "peers_list t = (peers_list s)[i := q]" "live_slots t = live_slots s"
  shows "lost t = lost s"
proof -
  let ?old = "peer_slots (peers_list s ! i)"
  have sh: "table_shape s" using ok by (simp add: kernel_ok_def)
  have j: "0 \<le> int i" "int i < peer_count s" using i length_peers_list [OF sh] by simp_all
  obtain A B where own: "owned s = A @ ?old @ B" "\<And>p. owned (put_peer (int i) p s) = A @ peer_slots p @ B"
    using owned_split [OF sh j] by auto
  have "owned t = owned (put_peer (int i) q s)"
    by (simp add: owned_def t(3) peers_list_put [OF sh j])
  then have ot: "owned t = A @ a @ B" by (simp add: own(2) peer_slots_def t(2))
  note d = unserialize_dom [OF ok u]
  have h: "dom (heap t) = dom (heap u) - {p. Some p \<in> set ?old}" by (auto simp: t(1) split: if_splits)
  have "p \<in> lost t \<longleftrightarrow> p \<in> lost s" for p
    using d(1,2) h own(1) ot t(4) by (auto simp: lost_def)
  then show ?thesis by blast
qed

lemma lost_ready:
  fixes s u :: "'z kstate_scheme"
  assumes "mem.more u = mem.more s" "heap u = heap s" "kernel_ok u"
  shows "lost (peers_ready e u) = lost s"
proof -
  have "owned (peers_ready e u) = owned s"
    using peers_ready_ok(3) [OF assms(3), of e] more_fields [OF assms(1)]
    by (simp add: owned_def peers_list_def cong: option.case_cong)
  then show ?thesis
    using assms(2) more_fields [OF assms(1)]
    by (simp add: lost_def live_slots_def slots_of_def peers_ready_def init_peers_def)
qed

lemma first_list_lost:
  fixes s :: "'z kstate_scheme"
  assumes ok: "kernel_ok s" and new: "addr_index a (peers_list s) = None"
    and room: "peers (peers_ready e s) \<noteq> None" "length (peers_list s) < 256"
    and h: "hears e (sock_no k) a xs" "\<not> sk_null k" "length b = 65536"
  shows "\<exists>b1 t. discovery_step e (Some k) (b, f, s) = Inr (b1, a, t) \<and> kernel_ok t \<and> length b1 = 65536 \<and>
    addr_index a (peers_list t) = Some (length (peers_list s)) \<and> card (lost t) = card (lost s) + length xs"
proof -
  let ?b = "advert_bytes xs @ drop (length (advert_bytes xs)) b"
  obtain t p d where t: "discovery_step e (Some k) (b, f, s) = Inr (?b, a, t)" "kernel_ok t"
      "peers_list t = peers_list s @ [new_peer (int (length (peers_list s))) a (word_of_nat (length xs)) d p]"
    using first_broadcast [OF ok new room h] by blast
  have known: "addr_index a (peers_list t) = Some (length (peers_list s))"
    using new by (simp add: t(3) addr_index_append new_peer_def)
  have "card (lost t) = card (lost s) + length xs"
    using ok h(3) t(1)
  proof (cases rule: discovery_step_cases)
    case (added u n r sender)
    note rd = peers_ready_ok [OF added(1), of e]
    from rd(1) added(7) peers_ready_idem added(8) show ?thesis
    proof (cases rule: add_peer_cases)
      case same
      then show ?thesis using t(3) added(3) rd(3) by simp
    next
      case (added v c w q d')
      have "sint c = sint (word_of_nat (length xs) :: u32)"
        using arg_cong [OF added(5), of "\<lambda>ps. interface_count (last ps)"] by (simp add: t(3) new_peer_def)
      then have "c = word_of_nat (length xs)" by (rule word_eq_iff_signed [THEN iffD2])
      then have "unat c = length xs" using h(1) by (simp add: hears_def unat_of_nat_u32)
      then show ?thesis
        using added_loses [OF rd(1) added(1,6,8,5)] lost_ready [OF \<open>mem.more u = mem.more s\<close>, of e]
          \<open>heap u = heap s\<close> \<open>kernel_ok u\<close> by (simp add: new_peer_def)
    qed
  next
    case (updated u n r j sender)
    then show ?thesis using new by simp
  qed
  then show ?thesis using t(1,2) known h(1,3) by (auto simp: hears_def)
qed

lemma later_lists_kept:
  fixes s t :: "'z kstate_scheme"
  assumes ok: "kernel_ok s" and known: "addr_index a (peers_list s) = Some i" and b: "length b = 65536"
    and run: "discovery_step e sock (b, f, s) = Inr (b1, a, t)"
  shows "lost t = lost s"
  using ok b run
proof (cases rule: discovery_step_cases)
  case (added u n r sender)
  have "a \<in> set (map peer_addr (peers_list s))" using known addr_index_None [of a "peers_list s"] by auto
  then show ?thesis using added(3,7) peers_ready_ok(3) [OF added(1), of e] by simp
next
  case (updated u n r j sender)
  note rd = peers_ready_ok [OF updated(1), of e] and same_lost = lost_ready [OF updated(4,5,1), of e]
  from rd(1) updated(7,9) show ?thesis
  proof (cases rule: update_peer_cases)
    case same
    then show ?thesis by (simp add: same_lost)
  next
    case (updated c d v)
    from updated_keeps [OF rd(1) \<open>j < _\<close> updated(1,2) _ updated(5,7)] show ?thesis
      by (simp add: same_lost)
  qed
qed

lemma addr_index_same: "map peer_addr ps = map peer_addr qs \<Longrightarrow> addr_index a ps = addr_index a qs"
  by (induction ps qs rule: list_induct2') simp_all

lemma later_run:
  fixes s :: "'z kstate_scheme"
  assumes "hears e (sock_no k) a xs" and "\<not> sk_null k"
  shows "kernel_ok s \<Longrightarrow> addr_index a (peers_list s) = Some i \<Longrightarrow> length b = 65536 \<Longrightarrow>
    \<exists>b2 t. discovery_run e (Some k) n (b, a, s) = Inr (b2, a, t) \<and> lost t = lost s"
proof (induction n arbitrary: b s)
  case (Suc n)
  let ?b = "advert_bytes xs @ drop (length (advert_bytes xs)) b"
  obtain t c where t: "discovery_step e (Some k) (b, a, s) = Inr (?b, a, t)" "kernel_ok t"
      "peers_list t = (peers_list s)[i := (peers_list s ! i)\<lparr>interfaces := Some c, interface_count := int (length xs)\<rparr>]"
    using later_broadcast [OF Suc.prems(1,2) assms Suc.prems(3)] by blast
  have i: "i < length (peers_list s)" using addr_index_SomeD [OF Suc.prems(2)] by simp
  then have "map peer_addr (peers_list t) = map peer_addr (peers_list s)"
    by (simp add: t(3) map_update list_update_same_conv)
  then have known: "addr_index a (peers_list t) = Some i" using addr_index_same Suc.prems(2) by metis
  have len: "length ?b = 65536" using assms(1) Suc.prems(3) by (simp add: hears_def)
  have "lost t = lost s" by (rule later_lists_kept [OF Suc.prems(1,2,3) t(1)])
  with Suc.IH [OF t(2) known len] t(1) show ?case by auto
qed simp

section \<open>Properties\<close>

text \<open>
  C19: every peer costs the node the memory of one list. The list of its first broadcast is parsed
  and then forgotten, without being freed: as many descriptors as it has interfaces stay
  allocated with nothing leading to them. The broadcasts after it, however many, lose nothing:
  each frees the list it replaces.
\<close>

theorem first_list_leaks:
  assumes ok: "kernel_ok s" and new: "addr_index a (peers_list s) = None"
    and room: "peers (peers_ready e s) \<noteq> None" "length (peers_list s) < 256"
    and h: "hears e (sock_no k) a xs" "\<not> sk_null k" "length b = 65536"
  shows "\<exists>b2 t. discovery_run e (Some k) (Suc n) (b, f, s) = Inr (b2, a, t) \<and>
    card (lost t) = card (lost s) + length xs"
proof -
  obtain b1 s1 where s1: "discovery_step e (Some k) (b, f, s) = Inr (b1, a, s1)" "kernel_ok s1" "length b1 = 65536"
      "addr_index a (peers_list s1) = Some (length (peers_list s))" "card (lost s1) = card (lost s) + length xs"
    using first_list_lost [OF assms] by blast
  from later_run [OF h(1,2) s1(2,4,3), of n] s1(1,5) show ?thesis by auto
qed

section \<open>Examples\<close>

lemma small_heard: "hears hearing_kernel (sock_no (open_socket 4)) 9 two_small"
proof -
  have mem: "kmem hearing_kernel = kmalloc_max" by (simp add: hearing_kernel_def kind_kernel_def)
  have fit: "adverts_fit (kmem hearing_kernel) two_small"
    unfolding mem two_small_def by (rule adverts_fit_small) simp
  then have "list_all interface_readable two_small"
    by (auto simp: adverts_fit_def list_all_iff interface_sendable_def)
  moreover have "adverts_granted (kmem hearing_kernel) two_small"
    by (simp add: mem adverts_granted_def kgrant_def kmalloc_max_def two_small_def small_interface_def
        interface_0_def list_all_iff)
  moreover have "length (advert_bytes two_small) = 30" using length_small_packet by (simp add: small_packet_def)
  moreover have "sock_recvmsg hearing_kernel tr k m = (int (length small_packet), Some 9, small_packet)" for tr k m
    by (simp add: hearing_kernel_def)
  ultimately show ?thesis by (simp add: hears_def small_packet_def) (simp add: two_small_def)
qed

theorem first_list_leaks_witness:
  "\<exists>b2 t. discovery_run hearing_kernel (Some (open_socket 4)) (Suc 3) (replicate 65536 0, 0, fresh_kernel)
      = Inr (b2, 9, t) \<and> card (lost t) = 2"
proof -
  have "lost fresh_kernel = {}" by (simp add: lost_def fresh_kernel_def)
  moreover have "peers_list fresh_kernel = []" by (simp add: peers_list_def fresh_kernel_def)
  moreover have "peers (peers_ready hearing_kernel fresh_kernel) \<noteq> None"
    by (simp add: peers_ready_def init_peers_def kzalloc_array_def hearing_kernel_def kind_kernel_def kgrant_def
        kmalloc_max_def fresh_kernel_def)
  ultimately show ?thesis
    using first_list_leaks [OF fresh_kernel_ok _ _ _ small_heard, of "replicate 65536 0" 3 0]
    by (simp add: two_small_def open_socket_def numeral_2_eq_2)
qed

end
