(* ===== verification/Lifecycle.thy ===== *)
theory Lifecycle
  imports Manager_Device Broadcast
begin

text \<open>
  Loading and unloading the module: \<open>init.c\<close>, \<open>exit.c\<close> and the functions that start and stop the
  servers of \<open>network/\<close>, the netlink socket of \<open>interface.c\<close> and the directory of \<open>proc.c\<close>.
\<close>

section \<open>Starting the servers\<close>

record nstate = mstate +
  discovery_server_sock :: "nat option"
  discovery_server_loop_task :: "thread option"
  broadcast_loop_task :: "thread option"
  service_server_sock :: "nat option"
  service_server_loop_task :: "thread option"
  procfs_home :: "nat option"

definition start_discovery_server :: "kenv \<Rightarrow> 'z nstate_scheme \<Rightarrow> (int \<times> 'z nstate_scheme) result" where
  "start_discovery_server e s =
     (case sock_create e (trace s) of Inl err \<Rightarrow> Inr (err, s) | Inr k \<Rightarrow>
     let s = (emit (Sock_created k) s)\<lparr>discovery_server_sock := Some k\<rparr> in
     bindr (require (kgrant (kmem e) SIZEOF_SOCKADDR_IN) Null_deref) (\<lambda>_.
     let err = sock_bind e (trace s) k in
     if err < 0 then Inr (err, s) else
     bindr (start_thread e Discovery_loop (emit (Sock_bound k) s)) (\<lambda>s.
     Inr (0, s\<lparr>discovery_server_loop_task := Some Discovery_loop\<rparr>))))"

definition start_service_server :: "kenv \<Rightarrow> 'z nstate_scheme \<Rightarrow> (int \<times> 'z nstate_scheme) result" where
  "start_service_server e s =
     (case sock_create e (trace s) of Inl err \<Rightarrow> Inr (err, s) | Inr k \<Rightarrow>
     let s = (emit (Sock_created k) s)\<lparr>service_server_sock := Some k\<rparr> in
     bindr (require (kgrant (kmem e) SIZEOF_SOCKADDR_IN) Null_deref) (\<lambda>_.
     let err = sock_bind e (trace s) k in
     if err < 0 then Inr (err, s) else
     bindr (start_thread e Service_loop (emit (Sock_bound k) s)) (\<lambda>s.
     Inr (0, s\<lparr>service_server_loop_task := Some Service_loop\<rparr>))))"

definition start_broadcast :: "kenv \<Rightarrow> 'z nstate_scheme \<Rightarrow> (int \<times> 'z nstate_scheme) result" where
  "start_broadcast e s =
     bindr (start_thread e Broadcast_loop s) (\<lambda>s. Inr (0, s\<lparr>broadcast_loop_task := Some Broadcast_loop\<rparr>))"

definition init_interface_socket :: "kenv \<Rightarrow> 'z registry_scheme \<Rightarrow> int \<times> 'z registry_scheme" where
  "init_interface_socket e s =
     (case netlink_kernel_create e (trace s) of None \<Rightarrow> (- 1, s\<lparr>KERN_NETLINK := None\<rparr>)
      | Some k \<Rightarrow> (0, (emit (Nl_created k) s)\<lparr>KERN_NETLINK := Some k\<rparr>))"

definition init_procfs :: "kenv \<Rightarrow> 'z nstate_scheme \<Rightarrow> int \<times> 'z nstate_scheme" where
  "init_procfs e s =
     (case proc_mkdir e (trace s) of None \<Rightarrow> (- 1, s\<lparr>procfs_home := None\<rparr>)
      | Some en \<Rightarrow> (0, (emit (Proc_dir_created en) s)\<lparr>procfs_home := Some en\<rparr>))"

section \<open>Loading\<close>

text \<open>Every error ends the initialisation with -1 and leaves what was started before it.\<close>

definition or_fail :: "int \<times> 's \<Rightarrow> ('s \<Rightarrow> (int \<times> 's) result) \<Rightarrow> (int \<times> 's) result" where
  "or_fail m k = (case m of (err, s) \<Rightarrow> if err < 0 then Inr (- 1, s) else k s)"

lemma or_fail_simps [simp]:
  "err < 0 \<Longrightarrow> or_fail (err, s) k = Inr (- 1, s)" "\<not> err < 0 \<Longrightarrow> or_fail (err, s) k = k s"
  by (simp_all add: or_fail_def)

lemma or_fail_success:
  "or_fail m k = Inr (0, t) \<longleftrightarrow> (\<exists>r s. m = (r, s) \<and> \<not> r < 0 \<and> k s = Inr (0, t))"
  by (cases m) (simp add: or_fail_def)

definition init_module :: "kenv \<Rightarrow> 'z nstate_scheme \<Rightarrow> (int \<times> 'z nstate_scheme) result" where
  "init_module e s =
     or_fail (init_peer_major_device e s) (\<lambda>s.
     bindr (start_discovery_server e s) (\<lambda>m. or_fail m (\<lambda>s.
     bindr (start_broadcast e s) (\<lambda>(_, s).
     bindr (start_service_server e s) (\<lambda>m. or_fail m (\<lambda>s.
     or_fail (init_interface_socket e s) (\<lambda>s.
     bindr (start_broadcast e s) (\<lambda>(_, s).
     or_fail (register_manager_device e s) (\<lambda>s.
     or_fail (init_procfs e s) (\<lambda>s. Inr (0, s)))))))))))"

section \<open>Unloading\<close>

text \<open>\<open>None\<close>: the call waits for a thread whose function does not end.\<close>

definition stop_discovery_server :: "kenv \<Rightarrow> 'z nstate_scheme \<Rightarrow> 'z nstate_scheme option" where
  "stop_discovery_server e s = (case discovery_server_loop_task s of None \<Rightarrow> Some s | Some th \<Rightarrow>
     if kthread_stop e (trace s) th
     then Some ((emit (Thread_stopped th) s)\<lparr>discovery_server_loop_task := None\<rparr>) else None)"

definition stop_broadcast :: "kenv \<Rightarrow> 'z nstate_scheme \<Rightarrow> 'z nstate_scheme option" where
  "stop_broadcast e s = (case broadcast_loop_task s of None \<Rightarrow> Some s | Some th \<Rightarrow>
     if kthread_stop e (trace s) th
     then Some ((emit (Thread_stopped th) s)\<lparr>broadcast_loop_task := None\<rparr>) else None)"

definition stop_service_server :: "kenv \<Rightarrow> 'z nstate_scheme \<Rightarrow> 'z nstate_scheme option" where
  "stop_service_server e s = (case service_server_loop_task s of None \<Rightarrow> Some s | Some th \<Rightarrow>
     if kthread_stop e (trace s) th
     then Some ((emit (Thread_stopped th) s)\<lparr>service_server_loop_task := None\<rparr>) else None)"

definition netlink_kernel_release :: "'z registry_scheme \<Rightarrow> 'z registry_scheme" where
  "netlink_kernel_release s = (case KERN_NETLINK s of None \<Rightarrow> s | Some k \<Rightarrow> emit (Nl_released k) s)"

definition cleanup_module :: "kenv \<Rightarrow> 'z nstate_scheme \<Rightarrow> 'z nstate_scheme option result" where
  "cleanup_module e s =
     (case stop_discovery_server e s of None \<Rightarrow> Inr None | Some s \<Rightarrow>
      case stop_broadcast e s of None \<Rightarrow> Inr None | Some s \<Rightarrow>
      case stop_service_server e s of None \<Rightarrow> Inr None | Some s \<Rightarrow>
      bindr (unregister_manager_device s) (\<lambda>(_, s).
      let s = netlink_kernel_release s in
      bindr (fint_procfs (procfs_home s) s) (\<lambda>(_, s). Inr (Some s))))"

section \<open>What loading acquires\<close>

definition errors_negative :: "kenv \<Rightarrow> bool" where
  "errors_negative e \<longleftrightarrow> (\<forall>tr err. alloc_chrdev_region e tr = Inl err \<longrightarrow> err < 0) \<and>
     (\<forall>tr err. sock_create e tr = Inl err \<longrightarrow> err < 0)"

text \<open>Each step that succeeds changes the variables it is for and the trace, nothing else.\<close>

lemma peer_device_started:
  fixes s :: "'z nstate_scheme"
  assumes "errors_negative e" and "init_peer_major_device e s = (r, t)" and "\<not> r < 0"
  shows "\<exists>m c tr. t = s\<lparr>trace := tr, peer_major := Some m, peer_class := Some c\<rparr> \<and>
    held tr = held (trace s) + {#Chrdev_held m, Class_held c, Cdev_live m#}"
  using assms
  by (cases s) (auto simp: init_peer_major_device_def errors_negative_def Let_def emit_def add_mset_commute
      split: sum.splits option.splits if_splits)

lemma discovery_started:
  assumes "errors_negative e" and "start_discovery_server e s = Inr (r, t)" and "\<not> r < 0"
  shows "\<exists>k tr. t = s\<lparr>trace := tr, discovery_server_sock := Some k,
      discovery_server_loop_task := Some Discovery_loop\<rparr> \<and>
    held tr = held (trace s) + {#Socket_open k, Thread_running Discovery_loop#}"
  using assms
  by (cases s) (auto simp: start_discovery_server_def errors_negative_def Let_def emit_def start_thread_def
      bindr_eq_Inr add_mset_commute split: sum.splits if_splits)

lemma service_started:
  assumes "errors_negative e" and "start_service_server e s = Inr (r, t)" and "\<not> r < 0"
  shows "\<exists>k tr. t = s\<lparr>trace := tr, service_server_sock := Some k,
      service_server_loop_task := Some Service_loop\<rparr> \<and>
    held tr = held (trace s) + {#Socket_open k, Thread_running Service_loop#}"
  using assms
  by (cases s) (auto simp: start_service_server_def errors_negative_def Let_def emit_def start_thread_def
      bindr_eq_Inr add_mset_commute split: sum.splits if_splits)

lemma broadcast_started:
  assumes "start_broadcast e s = Inr (r, t)"
  shows "\<exists>tr. t = s\<lparr>trace := tr, broadcast_loop_task := Some Broadcast_loop\<rparr> \<and>
    held tr = add_mset (Thread_running Broadcast_loop) (held (trace s))"
  using assms
  by (cases s) (auto simp: start_broadcast_def emit_def start_thread_def bindr_eq_Inr split: if_splits)

lemma netlink_started:
  fixes s :: "'z nstate_scheme"
  assumes "init_interface_socket e s = (r, t)" and "\<not> r < 0"
  shows "\<exists>k tr. t = s\<lparr>trace := tr, KERN_NETLINK := Some k\<rparr> \<and>
    held tr = add_mset (Netlink_open k) (held (trace s))"
  using assms by (cases s) (auto simp: init_interface_socket_def emit_def split: option.splits)

lemma manager_started:
  fixes s :: "'z nstate_scheme"
  assumes "errors_negative e" and "register_manager_device e s = (r, t)" and "\<not> r < 0"
  shows "\<exists>m c tr. t = s\<lparr>trace := tr, manager_major := Some m, manager_class := Some c\<rparr> \<and>
    held tr = held (trace s) + {#Chrdev_held m, Class_held c, Device_node c 0, Cdev_live m#}"
  using assms
  by (cases s) (auto simp: register_manager_device_def errors_negative_def Let_def emit_def add_mset_commute
      split: sum.splits option.splits if_splits)

lemma procfs_started:
  assumes "init_procfs e s = (r, t)" and "\<not> r < 0"
  shows "\<exists>en tr. t = s\<lparr>trace := tr, procfs_home := Some en\<rparr> \<and>
    held tr = add_mset (Proc_entry en) (held (trace s))"
  using assms by (cases s) (auto simp: init_procfs_def emit_def split: option.splits)

text \<open>The module up to and including its netlink socket.\<close>

definition servers_held :: "nat \<Rightarrow> nat \<Rightarrow> nat \<Rightarrow> nat \<Rightarrow> nat \<Rightarrow> resource multiset" where
  "servers_held pm pc ds ss nl = {#Chrdev_held pm, Class_held pc, Cdev_live pm, Socket_open ds,
     Thread_running Discovery_loop, Thread_running Broadcast_loop, Socket_open ss,
     Thread_running Service_loop, Netlink_open nl, Thread_running Broadcast_loop#}"

definition manager_held :: "nat \<Rightarrow> nat \<Rightarrow> resource multiset" where
  "manager_held m c = {#Chrdev_held m, Class_held c, Device_node c 0, Cdev_live m#}"

lemma init_module_steps:
  assumes "init_module e s = Inr (0, t)"
  obtains r1 s1 r2 s2 r3 s3 r4 s4 r5 s5 r6 s6 r7 s7 r8 where
    "init_peer_major_device e s = (r1, s1)" "\<not> r1 < 0"
    "start_discovery_server e s1 = Inr (r2, s2)" "\<not> r2 < 0"
    "start_broadcast e s2 = Inr (r3, s3)"
    "start_service_server e s3 = Inr (r4, s4)" "\<not> r4 < 0"
    "init_interface_socket e s4 = (r5, s5)" "\<not> r5 < 0"
    "start_broadcast e s5 = Inr (r6, s6)"
    "register_manager_device e s6 = (r7, s7)" "\<not> r7 < 0"
    "init_procfs e s7 = (r8, t)" "\<not> r8 < 0"
  using assms by (auto simp: init_module_def or_fail_success bindr_eq_Inr)

lemma module_loaded:
  assumes "errors_negative e" and "init_module e s = Inr (0, t)"
  shows "\<exists>pm pc ds ss nl m c en tr. t = s\<lparr>trace := tr, peer_major := Some pm, peer_class := Some pc,
      discovery_server_sock := Some ds, discovery_server_loop_task := Some Discovery_loop,
      broadcast_loop_task := Some Broadcast_loop, service_server_sock := Some ss,
      service_server_loop_task := Some Service_loop, KERN_NETLINK := Some nl,
      manager_major := Some m, manager_class := Some c, procfs_home := Some en\<rparr> \<and>
    held tr = held (trace s) + servers_held pm pc ds ss nl + manager_held m c + {#Proc_entry en#}"
proof -
  from assms(2) obtain r1 s1 r2 s2 r3 s3 r4 s4 r5 s5 r6 s6 r7 s7 r8 where
    1: "init_peer_major_device e s = (r1, s1)" "\<not> r1 < 0" and
    2: "start_discovery_server e s1 = Inr (r2, s2)" "\<not> r2 < 0" and
    3: "start_broadcast e s2 = Inr (r3, s3)" and
    4: "start_service_server e s3 = Inr (r4, s4)" "\<not> r4 < 0" and
    5: "init_interface_socket e s4 = (r5, s5)" "\<not> r5 < 0" and
    6: "start_broadcast e s5 = Inr (r6, s6)" and
    7: "register_manager_device e s6 = (r7, s7)" "\<not> r7 < 0" and
    8: "init_procfs e s7 = (r8, t)" "\<not> r8 < 0"
    by (rule init_module_steps)
  obtain pm pc t1 where p1: "s1 = s\<lparr>trace := t1, peer_major := Some pm, peer_class := Some pc\<rparr>"
      "held t1 = held (trace s) + {#Chrdev_held pm, Class_held pc, Cdev_live pm#}"
    using peer_device_started [OF assms(1) 1] by blast
  obtain ds t2 where p2: "s2 = s1\<lparr>trace := t2, discovery_server_sock := Some ds,
      discovery_server_loop_task := Some Discovery_loop\<rparr>"
      "held t2 = held (trace s1) + {#Socket_open ds, Thread_running Discovery_loop#}"
    using discovery_started [OF assms(1) 2] by blast
  obtain t3 where p3: "s3 = s2\<lparr>trace := t3, broadcast_loop_task := Some Broadcast_loop\<rparr>"
      "held t3 = add_mset (Thread_running Broadcast_loop) (held (trace s2))"
    using broadcast_started [OF 3] by blast
  obtain ss t4 where p4: "s4 = s3\<lparr>trace := t4, service_server_sock := Some ss,
      service_server_loop_task := Some Service_loop\<rparr>"
      "held t4 = held (trace s3) + {#Socket_open ss, Thread_running Service_loop#}"
    using service_started [OF assms(1) 4] by blast
  obtain nl t5 where p5: "s5 = s4\<lparr>trace := t5, KERN_NETLINK := Some nl\<rparr>"
      "held t5 = add_mset (Netlink_open nl) (held (trace s4))"
    using netlink_started [OF 5] by blast
  obtain t6 where p6: "s6 = s5\<lparr>trace := t6, broadcast_loop_task := Some Broadcast_loop\<rparr>"
      "held t6 = add_mset (Thread_running Broadcast_loop) (held (trace s5))"
    using broadcast_started [OF 6] by blast
  obtain m c t7 where p7: "s7 = s6\<lparr>trace := t7, manager_major := Some m, manager_class := Some c\<rparr>"
      "held t7 = held (trace s6) + {#Chrdev_held m, Class_held c, Device_node c 0, Cdev_live m#}"
    using manager_started [OF assms(1) 7] by blast
  obtain en t8 where p8: "t = s7\<lparr>trace := t8, procfs_home := Some en\<rparr>"
      "held t8 = add_mset (Proc_entry en) (held (trace s7))"
    using procfs_started [OF 8] by blast
  have tr: "trace s1 = t1" "trace s2 = t2" "trace s3 = t3" "trace s4 = t4" "trace s5 = t5" "trace s6 = t6"
    "trace s7 = t7" by (simp_all add: p1 p2 p3 p4 p5 p6 p7)
  have "t = s\<lparr>trace := t8, peer_major := Some pm, peer_class := Some pc,
      discovery_server_sock := Some ds, discovery_server_loop_task := Some Discovery_loop,
      broadcast_loop_task := Some Broadcast_loop, service_server_sock := Some ss,
      service_server_loop_task := Some Service_loop, KERN_NETLINK := Some nl,
      manager_major := Some m, manager_class := Some c, procfs_home := Some en\<rparr>"
    unfolding p8(1) p7(1) p6(1) p5(1) p4(1) p3(1) p2(1) p1(1) by (cases s) simp
  moreover have "held t8 = held (trace s) + servers_held pm pc ds ss nl + manager_held m c + {#Proc_entry en#}"
    by (simp add: p8(2) p7(2) p6(2) p5(2) p4(2) p3(2) p2(2) p1(2) tr servers_held_def manager_held_def)
  ultimately show ?thesis by blast
qed

section \<open>Properties\<close>

text \<open>
  Were every loop to end when it is asked to, unloading would still not restore the kernel: the
  device number, the class and the character device of the peers and the sockets of both
  servers stay, and of the two broadcast threads only one is stopped, because starting the
  second overwrote the variable that named the first.
\<close>

lemma load_unload_leaks:
  assumes "errors_negative e" and "\<forall>tr th. kthread_stop e tr th" and "INTERFACE_COUNT s = 0"
    and "init_module e s = Inr (0, t)"
  shows "\<exists>u pm pc ds ss. cleanup_module e t = Inr (Some u) \<and> broadcast_loop_task u = None \<and>
    held (trace u) = held (trace s) + {#Chrdev_held pm, Class_held pc, Cdev_live pm,
      Socket_open ds, Socket_open ss, Thread_running Broadcast_loop#}"
proof -
  obtain pm pc ds ss nl m c en tr where t: "t = s\<lparr>trace := tr, peer_major := Some pm,
      peer_class := Some pc, discovery_server_sock := Some ds,
      discovery_server_loop_task := Some Discovery_loop, broadcast_loop_task := Some Broadcast_loop,
      service_server_sock := Some ss, service_server_loop_task := Some Service_loop,
      KERN_NETLINK := Some nl, manager_major := Some m, manager_class := Some c, procfs_home := Some en\<rparr>"
      "held tr = held (trace s) + servers_held pm pc ds ss nl + manager_held m c + {#Proc_entry en#}"
    using module_loaded [OF assms(1,4)] by blast
  let ?evs = "[Proc_removed en, Nl_released nl, Chrdev_freed m, Class_destroyed c, Device_destroyed c 0,
    Cdev_deleted m, Thread_stopped Service_loop, Thread_stopped Broadcast_loop, Thread_stopped Discovery_loop]"
  have "\<exists>u. cleanup_module e t = Inr (Some u) \<and> broadcast_loop_task u = None \<and> trace u = ?evs @ tr"
    using assms(2,3)
    by (simp add: t(1) cleanup_module_def stop_discovery_server_def stop_broadcast_def
        stop_service_server_def unregister_manager_device_def netlink_kernel_release_def
        fint_procfs_def emit_def Let_def)
  moreover have "held (?evs @ tr) = held (trace s) + {#Chrdev_held pm, Class_held pc, Cdev_live pm,
      Socket_open ds, Socket_open ss, Thread_running Broadcast_loop#}"
    by (simp add: t(2) servers_held_def manager_held_def)
  ultimately show ?thesis by metis
qed

text \<open>
  What the services started before the netlink socket need: every creation is granted.
\<close>

definition servers_start :: "kenv \<Rightarrow> bool" where
  "servers_start e \<longleftrightarrow> (\<forall>tr. \<exists>m. alloc_chrdev_region e tr = Inr m) \<and> (\<forall>tr. class_create e tr \<noteq> None) \<and>
     (\<forall>tr m. 0 \<le> cdev_add e tr m) \<and> (\<forall>tr. \<exists>k. sock_create e tr = Inr k) \<and>
     (\<forall>tr k. 0 \<le> sock_bind e tr k) \<and> kgrant (kmem e) SIZEOF_SOCKADDR_IN \<and>
     (\<forall>tr th. kthread_create e tr th)"

text \<open>
  C23: a load that fails is not rolled back: when the netlink unit is taken, the module answers -1
  with its three threads running and its sockets and devices in place, although the kernel
  then discards the code they run.
\<close>

theorem failed_load_keeps_running:
  assumes "servers_start e" and "\<forall>tr. netlink_kernel_create e tr = None"
  shows "\<exists>t pm pc ds ss. init_module e s = Inr (- 1, t) \<and>
    held (trace t) = held (trace s) + {#Chrdev_held pm, Class_held pc, Cdev_live pm, Socket_open ds,
      Thread_running Discovery_loop, Thread_running Broadcast_loop, Socket_open ss,
      Thread_running Service_loop#}"
proof -
  have all: "\<And>tr m. \<not> cdev_add e tr m < 0" "\<And>tr k. \<not> sock_bind e tr k < 0"
    "kgrant (kmem e) SIZEOF_SOCKADDR_IN" "\<And>tr th. kthread_create e tr th"
    using assms(1) by (auto simp: servers_start_def not_less)
  obtain m where m: "alloc_chrdev_region e (trace s) = Inr m"
    using assms(1) unfolding servers_start_def by blast
  obtain c where c: "class_create e (Chrdev_allocated m # trace s) = Some c"
    using assms(1) unfolding servers_start_def by (metis not_None_eq)
  let ?t1 = "Cdev_added m # Class_created c # Chrdev_allocated m # trace s"
  obtain k where k: "sock_create e ?t1 = Inr k" using assms(1) unfolding servers_start_def by blast
  let ?t2 = "Thread_started Broadcast_loop # Thread_started Discovery_loop # Sock_bound k # Sock_created k # ?t1"
  obtain l where l: "sock_create e ?t2 = Inr l" using assms(1) unfolding servers_start_def by blast
  let ?t3 = "Thread_started Service_loop # Sock_bound l # Sock_created l # ?t2"
  have "\<exists>t. init_module e s = Inr (- 1, t) \<and>
      trace t = Thread_started Service_loop # Sock_bound l # Sock_created l # ?t2"
    by (simp add: init_module_def init_peer_major_device_def m c all k l start_discovery_server_def
        start_broadcast_def start_service_server_def start_thread_def init_interface_socket_def
        assms(2) Let_def)
  moreover have "held ?t3 = held (trace s) + {#Chrdev_held m, Class_held c, Cdev_live m, Socket_open k,
      Thread_running Discovery_loop, Thread_running Broadcast_loop, Socket_open l, Thread_running Service_loop#}"
    by (simp add: add_mset_commute)
  ultimately show ?thesis by metis
qed

section \<open>Examples\<close>

definition unloaded :: nstate where
  "unloaded = mstate.extend fresh_node (nstate.fields None None None None None None)"

definition taken_kernel :: kenv where
  "taken_kernel = kind_kernel\<lparr>netlink_kernel_create := (\<lambda>tr. None)\<rparr>"

lemma kind_kernel_errors: "errors_negative kind_kernel"
  by (simp add: errors_negative_def kind_kernel_def)

lemma unloaded_loads: "\<exists>t. init_module kind_kernel unloaded = Inr (0, t)"
  by (simp add: init_module_def init_peer_major_device_def start_discovery_server_def start_broadcast_def
      start_service_server_def start_thread_def init_interface_socket_def register_manager_device_def
      init_procfs_def kind_kernel_def Let_def kgrant_def kmalloc_max_def)

lemma load_unload_leaks_witness:
  "\<exists>t u pm pc ds ss. init_module kind_kernel unloaded = Inr (0, t) \<and>
    cleanup_module kind_kernel t = Inr (Some u) \<and> broadcast_loop_task u = None \<and>
    held (trace u) = held (trace unloaded) + {#Chrdev_held pm, Class_held pc, Cdev_live pm,
      Socket_open ds, Socket_open ss, Thread_running Broadcast_loop#}"
proof -
  obtain t where t: "init_module kind_kernel unloaded = Inr (0, t)" using unloaded_loads by blast
  have "\<forall>tr th. kthread_stop kind_kernel tr th" "INTERFACE_COUNT unloaded = 0"
    by (simp_all add: kind_kernel_def unloaded_def fresh_node_def fresh_kernel_def mstate.defs kstate.defs)
  from load_unload_leaks [OF kind_kernel_errors this t] t show ?thesis by blast
qed

theorem failed_load_keeps_running_witness:
  "\<exists>t pm pc ds ss. init_module taken_kernel unloaded = Inr (- 1, t) \<and>
    held (trace t) = held (trace unloaded) + {#Chrdev_held pm, Class_held pc, Cdev_live pm, Socket_open ds,
      Thread_running Discovery_loop, Thread_running Broadcast_loop, Socket_open ss,
      Thread_running Service_loop#}"
  by (rule failed_load_keeps_running)
    (simp_all add: servers_start_def taken_kernel_def kind_kernel_def kgrant_def kmalloc_max_def)

end
