(* ===== verification/Endless.thy ===== *)
theory Endless
  imports Service Discovery Broadcast
begin

text \<open>
  The three threads of the module never look at the request to stop: each is a \<open>while (true)\<close>.
  The theories of the servers run such a loop for a number of turns; here it is the loop itself,
  whose value is \<open>None\<close> when it does not return. A locale connects the two, and the properties
  say which of the loops end, and how.
\<close>

section \<open>A loop without an end\<close>

text \<open>
  A turn faults, returns from the loop, or goes on. The loop is \<open>None\<close> when it runs for ever.
\<close>

partial_function (option) forever :: "('s \<Rightarrow> 'e + 'r + 's) \<Rightarrow> 's \<Rightarrow> ('e + 'r) option" where
  "forever turn s = (case turn s of Inl f \<Rightarrow> Some (Inl f)
     | Inr res \<Rightarrow> (case res of Inl r \<Rightarrow> Some (Inr r) | Inr t \<Rightarrow> forever turn t))"

lemma forever_turn:
  "turn s = Inl f \<Longrightarrow> forever turn s = Some (Inl f)"
  "turn s = Inr (Inl r) \<Longrightarrow> forever turn s = Some (Inr r)"
  "turn s = Inr (Inr t) \<Longrightarrow> forever turn s = forever turn t"
  by (subst forever.simps, simp)+

text \<open>
  \<open>turns n\<close> runs the loop for \<open>n\<close> turns at most. What it says of every \<open>n\<close> decides the loop.
\<close>

locale endless_loop =
  fixes turn :: "'s \<Rightarrow> 'e + 'r + 's" and turns :: "nat \<Rightarrow> 's \<Rightarrow> 'e + 'r + 's"
  assumes turns_0: "turns 0 s = Inr (Inr s)"
    and turns_Suc: "turns (Suc n) s = (case turn s of Inl f \<Rightarrow> Inl f
      | Inr res \<Rightarrow> (case res of Inl r \<Rightarrow> Inr (Inl r) | Inr t \<Rightarrow> turns n t))"
begin

lemma ends_after:
  "(\<forall>f. turns n s = Inl f \<longrightarrow> forever turn s = Some (Inl f)) \<and>
   (\<forall>r. turns n s = Inr (Inl r) \<longrightarrow> forever turn s = Some (Inr r))"
proof (induction n arbitrary: s)
  case (Suc n)
  show ?case using Suc.IH by (auto simp: turns_Suc forever_turn split: sum.splits)
qed (simp add: turns_0)

lemma ends_in:
  assumes "forever turn s = Some res"
  shows "\<exists>n. turns n s = (case res of Inl f \<Rightarrow> Inl f | Inr r \<Rightarrow> Inr (Inl r))"
proof (rule forever.raw_induct [where P = "\<lambda>f s res. f = turn \<longrightarrow>
    (\<exists>n. turns n s = (case res of Inl f \<Rightarrow> Inl f | Inr r \<Rightarrow> Inr (Inl r)))", OF _ assms, THEN mp, OF _ refl])
  fix loop g s res
  assume IH: "\<And>g s res. loop g s = Some res \<Longrightarrow> g = turn \<longrightarrow>
      (\<exists>n. turns n s = (case res of Inl f \<Rightarrow> Inl f | Inr r \<Rightarrow> Inr (Inl r)))"
    and eq: "(case g s of Inl f \<Rightarrow> Some (Inl f)
      | Inr res \<Rightarrow> (case res of Inl r \<Rightarrow> Some (Inr r) | Inr t \<Rightarrow> loop g t)) = Some res"
  show "g = turn \<longrightarrow> (\<exists>n. turns n s = (case res of Inl f \<Rightarrow> Inl f | Inr r \<Rightarrow> Inr (Inl r)))"
  proof
    assume g: "g = turn"
    show "\<exists>n. turns n s = (case res of Inl f \<Rightarrow> Inl f | Inr r \<Rightarrow> Inr (Inl r))"
    proof (cases "\<exists>t. turn s = Inr (Inr t)")
      case True
      then obtain t where t: "turn s = Inr (Inr t)" by blast
      then have "loop turn t = Some res" using eq g by simp
      then obtain n where "turns n t = (case res of Inl f \<Rightarrow> Inl f | Inr r \<Rightarrow> Inr (Inl r))"
        using IH by blast
      then show ?thesis using t by (intro exI [of _ "Suc n"]) (simp add: turns_Suc)
    next
      case False
      then show ?thesis
        using eq g by (intro exI [of _ "Suc 0"]) (auto simp: turns_0 turns_Suc split: sum.splits)
    qed
  qed
qed

lemma never_ends: "forever turn s = None \<longleftrightarrow> (\<forall>n. \<exists>t. turns n s = Inr (Inr t))"
proof
  assume none: "forever turn s = None"
  show "\<forall>n. \<exists>t. turns n s = Inr (Inr t)"
  proof
    fix n
    show "\<exists>t. turns n s = Inr (Inr t)"
    proof (cases "turns n s")
      case (Inr res)
      then show ?thesis using none ends_after [of n s] by (cases res) simp_all
    qed (use none ends_after [of n s] in simp)
  qed
next
  assume all: "\<forall>n. \<exists>t. turns n s = Inr (Inr t)"
  show "forever turn s = None"
  proof (cases "forever turn s")
    case (Some res)
    then obtain n where "turns n s = (case res of Inl f \<Rightarrow> Inl f | Inr r \<Rightarrow> Inr (Inl r))"
      using ends_in by blast
    then show ?thesis using all [rule_format, of n] by (auto split: sum.splits)
  qed simp
qed

end

section \<open>The accept loop\<close>

definition service_turn ::
  "kenv \<Rightarrow> nat \<Rightarrow> 'z mem_scheme \<Rightarrow> fault + (int \<times> 'z mem_scheme) + 'z mem_scheme" where
  "service_turn e listener s =
     (case sock_create e (trace s) of Inl err \<Rightarrow> Inr (Inl (err, s)) | Inr k \<Rightarrow>
     let s = emit (Sock_created k) s; err = sock_accept e (trace s) listener k in
     if err < 0 then Inr (Inl (err, s)) else
     bindr (start_thread e (Connection k) (emit (Sock_accepted listener k) s)) (\<lambda>s. Inr (Inr s)))"

definition service_turns ::
  "kenv \<Rightarrow> nat \<Rightarrow> nat \<Rightarrow> 'z mem_scheme \<Rightarrow> fault + (int \<times> 'z mem_scheme) + 'z mem_scheme" where
  "service_turns e listener n s = bindr (service_accept e listener n s)
     (\<lambda>(r, t). Inr (case r of Inl err \<Rightarrow> Inl (err, t) | Inr _ \<Rightarrow> Inr t))"

interpretation service: endless_loop "service_turn e listener" "service_turns e listener" for e listener
proof unfold_locales
  fix s :: "'z mem_scheme" and n
  show "service_turns e listener 0 s = Inr (Inr s)" by (simp add: service_turns_def)
  show "service_turns e listener (Suc n) s = (case service_turn e listener s of Inl f \<Rightarrow> Inl f
      | Inr res \<Rightarrow> (case res of Inl r \<Rightarrow> Inr (Inl r) | Inr t \<Rightarrow> service_turns e listener n t))"
    by (auto simp: service_turns_def service_turn_def Let_def start_thread_def split: sum.split)
qed

definition service_server :: "kenv \<Rightarrow> nat \<Rightarrow> 'z mem_scheme \<Rightarrow> (fault + int \<times> 'z mem_scheme) option" where
  "service_server e listener s =
     (let err = sock_listen e (trace s) listener in
     if err < 0 then Some (Inr (err, s)) else forever (service_turn e listener) (emit (Sock_listening listener) s))"

section \<open>The receive loop\<close>

definition discovery_turn ::
  "kenv \<Rightarrow> socket_t option \<Rightarrow> byte list \<times> u32 \<times> 'z kstate_scheme \<Rightarrow>
   fault + unit + (byte list \<times> u32 \<times> 'z kstate_scheme)" where
  "discovery_turn e sock st = bindr (discovery_step e sock st) (\<lambda>st. Inr (Inr st))"

definition discovery_turns ::
  "kenv \<Rightarrow> socket_t option \<Rightarrow> nat \<Rightarrow> byte list \<times> u32 \<times> 'z kstate_scheme \<Rightarrow>
   fault + unit + (byte list \<times> u32 \<times> 'z kstate_scheme)" where
  "discovery_turns e sock n st = bindr (discovery_run e sock n st) (\<lambda>st. Inr (Inr st))"

interpretation discovery: endless_loop "discovery_turn e sock" "discovery_turns e sock" for e sock
proof unfold_locales
  fix st :: "byte list \<times> u32 \<times> 'z kstate_scheme" and n
  show "discovery_turns e sock 0 st = Inr (Inr st)" by (simp add: discovery_turns_def)
  show "discovery_turns e sock (Suc n) st = (case discovery_turn e sock st of Inl f \<Rightarrow> Inl f
      | Inr res \<Rightarrow> (case res of Inl r \<Rightarrow> Inr (Inl r) | Inr t \<Rightarrow> discovery_turns e sock n t))"
    by (cases "discovery_step e sock st") (simp_all add: discovery_turns_def discovery_turn_def)
qed

definition discovery_server :: "kenv \<Rightarrow> socket_t option \<Rightarrow> 'z kstate_scheme \<Rightarrow> (fault + unit) option" where
  "discovery_server e sock s = (case mem_block (kzalloc_bytes (kmem e) DISCOVERY_BUFFER) of
     Inl f \<Rightarrow> Some (Inl f) | Inr buffer \<Rightarrow> forever (discovery_turn e sock) (buffer, 0, s))"

section \<open>The broadcast loop\<close>

definition broadcast_turn ::
  "kenv \<Rightarrow> (event list \<Rightarrow> net_device list) \<Rightarrow> 'z registry_scheme \<Rightarrow> fault + unit + 'z registry_scheme" where
  "broadcast_turn e devs s = bindr (broadcast_round e (devs (trace s)) s) (\<lambda>s. Inr (Inr s))"

definition broadcast_turns ::
  "kenv \<Rightarrow> (event list \<Rightarrow> net_device list) \<Rightarrow> nat \<Rightarrow> 'z registry_scheme \<Rightarrow>
   fault + unit + 'z registry_scheme" where
  "broadcast_turns e devs n s = bindr (broadcast_loop e devs n s) (\<lambda>s. Inr (Inr s))"

interpretation broadcast: endless_loop "broadcast_turn e devs" "broadcast_turns e devs" for e devs
proof unfold_locales
  fix s :: "'z registry_scheme" and n
  show "broadcast_turns e devs 0 s = Inr (Inr s)" by (simp add: broadcast_turns_def)
  show "broadcast_turns e devs (Suc n) s = (case broadcast_turn e devs s of Inl f \<Rightarrow> Inl f
      | Inr res \<Rightarrow> (case res of Inl r \<Rightarrow> Inr (Inl r) | Inr t \<Rightarrow> broadcast_turns e devs n t))"
    by (cases "broadcast_round e (devs (trace s)) s") (simp_all add: broadcast_turns_def broadcast_turn_def)
qed

definition broadcaster ::
  "kenv \<Rightarrow> (event list \<Rightarrow> net_device list) \<Rightarrow> 'z registry_scheme \<Rightarrow> (fault + unit) option" where
  "broadcaster e devs s = forever (broadcast_turn e devs) s"

section \<open>Properties\<close>

lemma service_ends:
  assumes threads: "\<forall>tr th. kthread_create e tr th"
    and full: "\<forall>tr k. n \<le> threads_started tr \<longrightarrow> sock_accept e tr listener k < 0"
  shows "\<exists>err t. forever (service_turn e listener) s = Some (Inr (err, t)) \<and>
    threads_started (trace t) \<le> max n (threads_started (trace s))"
proof (induction "n - threads_started (trace s)" arbitrary: s)
  case 0
  then have "n \<le> threads_started (Sock_created k # trace s)" for k by simp
  then have "sock_accept e (Sock_created k # trace s) listener k < 0" for k using full by blast
  then show ?case
    by (cases "sock_create e (trace s)")
      (auto simp: service_turn_def Let_def threads intro!: exI forever_turn(2))
next
  case (Suc m)
  show ?case
  proof (cases "\<exists>t. service_turn e listener s = Inr (Inr t)")
    case True
    then obtain t where t: "service_turn e listener s = Inr (Inr t)" by blast
    then have n: "threads_started (trace t) = Suc (threads_started (trace s))"
      by (auto simp: service_turn_def Let_def start_thread_def threads split: sum.splits if_splits)
    then have "m = n - threads_started (trace t)" using Suc.hyps(2) by simp
    from Suc.hyps(1) [OF this] obtain err u where "forever (service_turn e listener) t = Some (Inr (err, u))"
        "threads_started (trace u) \<le> max n (threads_started (trace t))"
      by blast
    moreover have "forever (service_turn e listener) s = forever (service_turn e listener) t"
      by (rule forever_turn(3)) (rule t)
    ultimately show ?thesis using n Suc.hyps(2) by auto
  next
    case False
    then obtain err t where "service_turn e listener s = Inr (Inl (err, t))" "threads_started (trace t) = threads_started (trace s)"
      by (auto simp: service_turn_def Let_def start_thread_def threads split: sum.splits if_splits)
    then show ?thesis by (auto dest!: forever_turn(2))
  qed
qed

text \<open>
  C14: the accept loop ends: as soon as no more connections are accepted after \<open>n\<close> of them, the
  service server returns, having started at most \<open>n\<close> threads, and nothing starts it again.
\<close>

theorem service_server_returns:
  assumes "\<forall>tr th. kthread_create e tr th"
    and "\<forall>tr k. n \<le> threads_started tr \<longrightarrow> sock_accept e tr listener k < 0"
  shows "\<exists>err t. service_server e listener s = Some (Inr (err, t)) \<and>
    threads_started (trace t) \<le> max n (threads_started (trace s))"
  using service_ends [OF assms, of "emit (Sock_listening listener) s"]
  by (auto simp: service_server_def Let_def)

lemma broadcaster_endless:
  assumes "network_up e" and "advertises e s"
    and "\<forall>tr. (\<forall>d \<in> set (devs tr). is_loopback d \<or> ip_ptr d \<noteq> None) \<and> broadcast_targets (devs tr) = addrs"
    and "length addrs \<le> 256"
  shows "broadcaster e devs s = None"
proof -
  have "\<exists>t. broadcast_turns e devs n s = Inr (Inr t)" for n
    using broadcast_runs [OF assms, of n] by (auto simp: broadcast_turns_def)
  then show ?thesis using broadcast.never_ends [of e devs s] by (simp add: broadcaster_def)
qed

text \<open>
  C15: the broadcast loop never ends. As long as the network works it makes turn after turn, each
  sends the list of interfaces to every network once and leaves nothing open, and the function
  of the thread does not return.
\<close>

theorem broadcaster_runs_forever:
  assumes "network_up e" and "advertises e s"
    and "\<forall>tr. (\<forall>d \<in> set (devs tr). is_loopback d \<or> ip_ptr d \<noteq> None) \<and> broadcast_targets (devs tr) = addrs"
    and "length addrs \<le> 256"
  shows "broadcaster e devs s = None \<and> (\<forall>n. \<exists>t tr. broadcast_loop e devs n s = Inr t \<and>
    trace t = tr @ trace s \<and> held (trace t) = held (trace s) \<and> interfaces_of t = interfaces_of s \<and>
    adverts_sent tr = concat (replicate n (map (\<lambda>a. (a, advert_bytes (interfaces_of s))) addrs)))"
  using broadcaster_endless [OF assms] broadcast_runs [OF assms] by blast

text \<open>
  A broadcast of one interface that announces more flags than the receiver's buffer holds.
\<close>

definition hostile :: "u32 \<Rightarrow> u32 \<Rightarrow> byte list" where
  "hostile idv n = u32_bytes 1 @ u32_bytes idv @ u32_bytes n"

text \<open>What reading it runs into: memory behind the buffer, unless the flags get none to go to.\<close>

definition hostile_fault :: "(nat \<Rightarrow> bool) \<Rightarrow> u32 \<Rightarrow> fault" where
  "hostile_fault ok n = (if kgrant ok (unat n) then Out_of_bounds else Null_deref)"

lemma hostile_faults:
  assumes "length rest < unat n" and "4 \<le> m" and "kgrant ok SIZEOF_INTERFACE"
  shows "unserialize_interfaces_packet ok (hostile idv n @ rest) m s = Inl (hostile_fault ok n)"
proof -
  have "rd_flags ok (u32_bytes n @ rest) = Inl (hostile_fault ok n)"
    using assms(1) by (simp add: rd_flags_def rd_mem_def hostile_fault_def)
  then have "rd_entry ok (u32_bytes idv @ u32_bytes n @ rest, s) = Inl (hostile_fault ok n)"
    using assms(3) by (simp add: rd_entry_def rd_interface_def)
  then show ?thesis using assms(2) by (simp add: unserialize_interfaces_alt hostile_def)
qed

lemma hostile_step:
  assumes "kernel_ok s" and "length (peers_list s) < 256"
    and "\<forall>tr. sock_recvmsg e tr (sock_no k) 65536 = (12, Some a, hostile idv n)"
    and "\<not> sk_null k" and "65524 < unat n" and "kgrant (kmem e) SIZEOF_INTERFACE"
  shows "discovery_step e (Some k) (replicate 65536 0, b0, s) = Inl (hostile_fault (kmem e) n)"
proof -
  let ?b = "replicate 65536 (0 :: byte)" and ?s = "emit (Sock_received (sock_no k) 65536) s"
  have len: "length (hostile idv n) = 12" by (simp add: hostile_def u32_bytes_def)
  define p and m :: u32 where "p = hostile idv n @ drop 12 ?b" and "m = word_of_int 12"
  have recv: "sock_recvfrom e (Some k) (PBlk ?b) (int DISCOVERY_BUFFER) s = Inr (12, Some a, PBlk p, ?s)"
    using recv_whole [of "hostile idv n" ?b k e s 12 "Some a"] assms(3,4) len
    by (simp add: hostile_def u32_bytes_def p_def)
  have ok: "kernel_ok ?s" and pl: "peers_list ?s = peers_list s"
    using kernel_ok_emit [OF assms(1), of "Sock_received (sock_no k) 65536"] by auto
  note rd = peers_ready_ok [OF ok, of e]
  let ?f = "hostile_fault (kmem e) n"
  have parse: "unserialize_interfaces_packet (kmem e) p m u = Inl ?f" for u :: "'a kstate_scheme"
    unfolding p_def m_def by (rule hostile_faults) (use assms(5,6) in simp_all)
  define u where "u = peers_ready e ?s"
  have sh: "table_shape u" using rd(1) by (simp add: kernel_ok_def u_def)
  have count: "nat (peer_count u) = length (peers_list s)" "0 \<le> peer_count u"
    using length_peers_list [OF sh] rd(3) pl sh by (simp_all add: u_def table_shape_def)
  have "peers_ready e u = u \<or> peer_count (peers_ready e u) = 0"
    by (simp add: peers_ready_def init_peers_def)
  then have add: "add_peer e a p m u = Inl ?f"
    using parse [of "peers_ready e u"] count assms(2) by (auto simp: add_peer_def Let_def)
  have upd: "update_peer_interfaces e (int j) p m u = Inl ?f" if j: "addr_index a (peers_list ?s) = Some j" for j
  proof -
    have "j < length (peers_list u)" using addr_index_SomeD [OF j] rd(3) by (simp add: u_def)
    then have "int j < peer_count u" "peers u \<noteq> None"
      using length_peers_list [OF sh] count(2) by (auto simp: peers_list_def split: option.splits)
    then show ?thesis using parse [of u] by (auto simp: update_peer_interfaces_def)
  qed
  show ?thesis
    unfolding discovery_step_received [OF recv ok refl] u_def [symmetric] m_def [symmetric]
    using add upd by (fastforce split: option.split)
qed

text \<open>
  C16: any host of the network can crash the receive loop: on a broadcast of twelve bytes that
  announces more flags than fit behind it in the buffer, the thread reads past the end of the
  buffer when the allocator grants room for that many flags, and writes through a null pointer
  when it refuses it; it never receives a second packet.
\<close>

theorem one_packet_stops_discovery:
  assumes "kernel_ok s" and "length (peers_list s) < 256"
    and "kgrant (kmem e) DISCOVERY_BUFFER" and "kgrant (kmem e) SIZEOF_INTERFACE"
    and "\<forall>tr. sock_recvmsg e tr (sock_no k) 65536 = (12, Some a, u32_bytes 1 @ u32_bytes idv @ u32_bytes n)"
    and "\<not> sk_null k" and "65524 < unat n"
  shows "discovery_server e (Some k) s
    = Some (Inl (if kgrant (kmem e) (unat n) then Out_of_bounds else Null_deref))"
proof -
  have "discovery_step e (Some k) (replicate 65536 0, 0, s) = Inl (hostile_fault (kmem e) n)"
    by (rule hostile_step [OF assms(1,2) _ assms(6,7,4)]) (use assms(5) in \<open>simp add: hostile_def\<close>)
  then have "discovery_turn e (Some k) (replicate 65536 0, 0, s) = Inl (hostile_fault (kmem e) n)"
    by (simp add: discovery_turn_def)
  then have "forever (discovery_turn e (Some k)) (replicate 65536 0, 0, s) = Some (Inl (hostile_fault (kmem e) n))"
    by (rule forever_turn(1))
  then show ?thesis using assms(3) by (simp add: discovery_server_def kzalloc_bytes_def hostile_fault_def)
qed

section \<open>Examples\<close>

definition closing_kernel :: kenv where
  "closing_kernel = kind_kernel\<lparr>sock_accept := (\<lambda>tr l k. if threads_started tr < 2 then 0 else - 22)\<rparr>"

theorem service_server_returns_witness:
  "\<exists>err t. service_server closing_kernel 7 three_registry = Some (Inr (err, t)) \<and>
    threads_started (trace t) \<le> max 2 (threads_started (trace three_registry))"
  by (rule service_server_returns) (simp_all add: closing_kernel_def kind_kernel_def)

theorem broadcaster_runs_forever_witness:
  "broadcaster kind_kernel (\<lambda>_. two_networks) three_registry = None \<and>
   (\<forall>n. \<exists>t tr. broadcast_loop kind_kernel (\<lambda>_. two_networks) n three_registry = Inr t \<and>
    trace t = tr @ trace three_registry \<and> held (trace t) = held (trace three_registry) \<and>
    interfaces_of t = interfaces_of three_registry \<and>
    adverts_sent tr = concat (replicate n (map (\<lambda>a. (a, advert_bytes (interfaces_of three_registry)))
      (broadcast_targets two_networks))))"
  by (rule broadcaster_runs_forever [OF kind_kernel_up three_advertised])
    (simp_all add: two_networks_targets, simp add: two_networks_def is_loopback_def)

definition attacked_kernel :: kenv where
  "attacked_kernel = kind_kernel\<lparr>sock_recvmsg := (\<lambda>tr k n. (12, Some 9, hostile 1 65536))\<rparr>"

theorem one_packet_stops_discovery_witness:
  "discovery_server attacked_kernel (Some (open_socket 4)) fresh_kernel
    = Some (Inl (if kgrant (kmem attacked_kernel) (unat (65536 :: u32)) then Out_of_bounds else Null_deref))"
  by (rule one_packet_stops_discovery [OF fresh_kernel_ok, of _ _ 9 1])
    (simp_all add: attacked_kernel_def hostile_def kind_kernel_def kgrant_def kmalloc_max_def open_socket_def
      peers_list_def fresh_kernel_def)

end
