(* ===== verification/Unload.thy ===== *)
theory Unload
  imports Lifecycle Endless
begin

text \<open>
  Unloading on the code as it is: \<open>cleanup_module\<close> asks the threads to stop with \<open>kthread_stop\<close>,
  which returns when the function of the thread has returned, and the loop of the broadcast
  thread does not look at the request.
\<close>

section \<open>Waiting for a thread\<close>

text \<open>
  What the kernel documents of \<open>kthread_stop\<close>, for the broadcast threads: it sets a flag and waits
  for the function of the thread to return. The function ran in a kernel \<open>eb\<close>, from a registry
  \<open>sb\<close>, with the devices \<open>devs\<close>.
\<close>

definition stop_waits ::
  "kenv \<Rightarrow> kenv \<Rightarrow> (event list \<Rightarrow> net_device list) \<Rightarrow> 'z registry_scheme \<Rightarrow> bool" where
  "stop_waits e eb devs sb \<longleftrightarrow>
     (\<forall>tr. kthread_stop e tr Broadcast_loop \<longrightarrow> broadcaster eb devs sb \<noteq> None)"

lemma cleanup_waits:
  assumes "broadcast_loop_task t = Some Broadcast_loop" and "\<forall>tr. \<not> kthread_stop e tr Broadcast_loop"
  shows "cleanup_module e t = Inr None"
proof (cases "stop_discovery_server e t")
  case (Some u)
  then have "broadcast_loop_task u = Some Broadcast_loop"
    using assms(1) by (auto simp: stop_discovery_server_def emit_def split: option.splits if_splits)
  then have "stop_broadcast e u = None" using assms(2) by (simp add: stop_broadcast_def)
  then show ?thesis using Some by (simp add: cleanup_module_def)
qed (simp add: cleanup_module_def)

section \<open>Properties\<close>

text \<open>
  C22: the module can be loaded and never be unloaded. A load leaves two broadcast threads, of
  which the module can name one; unloading waits for this one to return, and as long as the
  network works and the list is left as it is, it never does: the exit function does not return.
\<close>

theorem unload_never_returns:
  assumes "errors_negative e" and "init_module e s = Inr (0, t)"
    and "stop_waits e eb devs sb" and "network_up eb" and "advertises eb sb"
    and "\<forall>tr. (\<forall>d \<in> set (devs tr). is_loopback d \<or> ip_ptr d \<noteq> None) \<and> broadcast_targets (devs tr) = addrs"
    and "length addrs \<le> 256"
  shows "cleanup_module e t = Inr None \<and> broadcast_loop_task t = Some Broadcast_loop \<and>
    count (held (trace t)) (Thread_running Broadcast_loop)
      = count (held (trace s)) (Thread_running Broadcast_loop) + 2"
proof -
  obtain pm pc ds ss nl m c en tr where t: "t = s\<lparr>trace := tr, peer_major := Some pm,
      peer_class := Some pc, discovery_server_sock := Some ds,
      discovery_server_loop_task := Some Discovery_loop, broadcast_loop_task := Some Broadcast_loop,
      service_server_sock := Some ss, service_server_loop_task := Some Service_loop,
      KERN_NETLINK := Some nl, manager_major := Some m, manager_class := Some c, procfs_home := Some en\<rparr>"
      "held tr = held (trace s) + servers_held pm pc ds ss nl + manager_held m c + {#Proc_entry en#}"
    using module_loaded [OF assms(1,2)] by blast
  have task: "broadcast_loop_task t = Some Broadcast_loop" by (simp add: t(1))
  have "broadcaster eb devs sb = None" by (rule broadcaster_endless [OF assms(4-7)])
  then have "\<forall>tr. \<not> kthread_stop e tr Broadcast_loop" using assms(3) by (simp add: stop_waits_def)
  then have "cleanup_module e t = Inr None" by (rule cleanup_waits [OF task])
  moreover have "count (held (trace t)) (Thread_running Broadcast_loop)
      = count (held (trace s)) (Thread_running Broadcast_loop) + 2"
    by (simp add: t servers_held_def manager_held_def)
  ultimately show ?thesis using task by simp
qed

section \<open>Examples\<close>

definition waiting_kernel :: kenv where
  "waiting_kernel = kind_kernel\<lparr>kthread_stop := (\<lambda>tr th. th \<noteq> Broadcast_loop)\<rparr>"

lemma waiting_kernel_loads: "\<exists>t. init_module waiting_kernel unloaded = Inr (0, t)"
  by (simp add: init_module_def init_peer_major_device_def start_discovery_server_def start_broadcast_def
      start_service_server_def start_thread_def init_interface_socket_def register_manager_device_def
      init_procfs_def waiting_kernel_def kind_kernel_def Let_def kgrant_def kmalloc_max_def)

theorem unload_never_returns_witness:
  "\<exists>t. init_module waiting_kernel unloaded = Inr (0, t) \<and> cleanup_module waiting_kernel t = Inr None \<and>
    count (held (trace t)) (Thread_running Broadcast_loop) = 2"
proof -
  obtain t where t: "init_module waiting_kernel unloaded = Inr (0, t)" using waiting_kernel_loads by blast
  have e: "errors_negative waiting_kernel" by (simp add: errors_negative_def waiting_kernel_def kind_kernel_def)
  have w: "stop_waits waiting_kernel kind_kernel (\<lambda>_. two_networks) three_registry"
    by (simp add: stop_waits_def waiting_kernel_def)
  have "\<forall>tr. (\<forall>d \<in> set two_networks. is_loopback d \<or> ip_ptr d \<noteq> None) \<and>
      broadcast_targets two_networks = [0xFF01A8C0, 0xFFFFFF0A]"
    by (simp add: two_networks_targets) (simp add: two_networks_def is_loopback_def)
  from unload_never_returns [OF e t w kind_kernel_up three_advertised this] t show ?thesis
    by (simp add: unloaded_def fresh_node_def fresh_kernel_def mstate.defs kstate.defs)
qed

end
