(* ===== verification/Races.thy ===== *)
theory Races
  imports Peer_Device
begin

text \<open>
  Nothing in the module is locked, and its handlers run in threads of their own. Here two of
  them are cut where another thread can come in between: the call through a peer's device
  between its search and the use of what it found, and the registration between its check of
  the capacity and the write into the list. Both definitions are shown to be their phases in
  sequence, and each cut to be unsafe.
\<close>

section \<open>The call through a device, in two phases\<close>

definition ioctl_find :: "int \<Rightarrow> interface_t \<Rightarrow> 'z kstate_scheme \<Rightarrow> ptr result" where
  "ioctl_find i u_interface s =
     bindr (peer_at s i) (\<lambda>p. find_interface (interfaces p) (interface_count p) (if_id u_interface) s)"

definition ioctl_use ::
  "kenv \<Rightarrow> int \<Rightarrow> interface_t \<Rightarrow> ptr \<Rightarrow> 'z kstate_scheme \<Rightarrow>
   (int \<times> (u32 \<times> byte list) list \<times> 'z kstate_scheme) result" where
  "ioctl_use e i u_interface t_interface s =
     (if t_interface = 0 then Inr (- EIFNOTFOUND, [], s) else
     bindr (deref t_interface s) (\<lambda>t.
     if interface_t.argc t \<noteq> interface_t.argc u_interface \<or> retc t \<noteq> retc u_interface then Inr (- 1, [], s) else
     if (interface_t.argc u_interface \<noteq> 0 \<and> argv u_interface = None) \<or>
        (retc u_interface \<noteq> 0 \<and> retv u_interface = None) then Inr (- 1, [], s) else
     bindr (require (kgrant (kmem e) SIZEOF_INTERFACE) Null_deref) (\<lambda>_.
     bindr (for_collect 0 (unat (interface_t.argc t))
       (copy_argv e (kzalloc_array (kmem e) SIZEOF_ATTR_VALUE (unat (interface_t.argc t)) attr_value_0)
         (argv u_interface))) (\<lambda>args.
     let (interface, s) = new_interface (t\<lparr>argv := Some args\<rparr>) s in
     bindr (execute_remote_interface e i interface s) (\<lambda>(_, s).
     bindr (deref interface s) (\<lambda>x.
     bindr (for_collect 0 (unat (retc x)) (copy_retv (retv u_interface) (retv x))) (\<lambda>vals.
     bindr (deref interface s) (\<lambda>_.
     Inr (0, vals, release interface s)))))))))"

lemma peer_ioctl_phases: "peer_ioctl e i u s = bindr (ioctl_find i u s) (\<lambda>q. ioctl_use e i u q s)"
  by (simp add: peer_ioctl_def ioctl_find_def ioctl_use_def bindr_assoc)

section \<open>The registration, in two phases\<close>

definition grow_list :: "(nat \<Rightarrow> bool) \<Rightarrow> 'z registry_scheme \<Rightarrow> 'z registry_scheme" where
  "grow_list ok s = (if INTERFACE_CAPACITY s < INTERFACE_COUNT s + 1
     then s\<lparr>INTERFACE_CAPACITY := INTERFACE_CAPACITY s + GRADIENT,
            INTERFACE_LIST := krealloc_slots ok (INTERFACE_LIST s) (unat (INTERFACE_CAPACITY s + GRADIENT))\<rparr>
     else s)"

definition put_interface :: "ptr \<Rightarrow> 'z registry_scheme \<Rightarrow> 'z registry_scheme result" where
  "put_interface p s = bindr (slot_write (INTERFACE_LIST s) (unat (INTERFACE_COUNT s)) p) (\<lambda>a.
     Inr (s\<lparr>INTERFACE_LIST := Some a, INTERFACE_COUNT := INTERFACE_COUNT s + 1\<rparr>))"

lemma append_interface_phases: "append_interface ok p s = put_interface p (grow_list ok s)"
  by (simp add: append_interface_def put_interface_def grow_list_def Let_def)

section \<open>Properties\<close>

text \<open>
  C17: a call through a peer's device races with the broadcasts of this peer: when a broadcast
  arrives after the call has found the interface, the receive loop frees the descriptor, and
  the call goes on with memory that is no longer allocated.
\<close>

theorem broadcast_frees_called_interface:
  fixes s :: "'z kstate_scheme"
  assumes "peer_listed n s" and "addr_index a (peers_list s) = Some n"
    and "index_of (if_id u) (peer_view n s) = Some j"
    and "hears e2 (sock_no k) a xs" and "\<not> sk_null k" and "length b = 65536"
  shows "\<exists>q b1 t. ioctl_find (int n) u s = Inr q \<and>
    discovery_step e2 (Some k) (b, f, s) = Inr (b1, a, t) \<and> kernel_ok t \<and>
    ioctl_use e (int n) u q t = Inl Use_after_free"
proof -
  have ok: "kernel_ok s" and n: "n < length (peers_list s)" using assms(1) by (simp_all add: peer_listed_def)
  have sh: "table_shape s" using ok by (simp add: kernel_ok_def)
  have "int n < peer_count s" using n length_peers_list [OF sh] by simp
  then have at: "peer_at s (int n) = Inr (peers_list s ! n)" using peer_at_list(1) [OF sh, of "int n"] by simp
  note d = peer_listed_describes [OF assms(1)]
  let ?q = "the (peer_slots (peers_list s ! n) ! j)"
  have j: "j < length (peer_view n s)" using index_of_SomeD [OF assms(3)] by simp
  then obtain p where p: "peer_slots (peers_list s ! n) ! j = Some p" "p \<noteq> 0"
    using d(1) by (fastforce simp: describes_def list_all2_conv_all_nth)
  have find: "ioctl_find (int n) u s = Inr p"
    using find_interface_describes [OF d(1), where b = "[]"] d(2,3) assms(3) p(1) by (simp add: ioctl_find_def at)
  have slot: "Some p \<in> set (peer_slots (peers_list s ! n))"
    using p(1) j describes_length [OF d(1)] by (metis nth_mem)
  obtain t where t: "discovery_step e2 (Some k) (b, f, s)
      = Inr (advert_bytes xs @ drop (length (advert_bytes xs)) b, a, t)" "kernel_ok t" "heap t p = None"
    using later_broadcast [OF ok assms(2,4-6), of f] slot by blast
  then have "ioctl_use e (int n) u p t = Inl Use_after_free" using p(2) by (simp add: ioctl_use_def deref_def)
  then show ?thesis using find t(1,2) by blast
qed

text \<open>
  C18: two registrations race for the last slot: both find the list large enough, the first to
  write fills it, and the second writes past its end.
\<close>

theorem registrations_overflow_list:
  assumes "registry_ok s" and "unat (INTERFACE_COUNT s) + 1 = unat (INTERFACE_CAPACITY s)"
  shows "grow_list ok s = s \<and> (\<exists>t. append_interface ok p2 s = Inr t \<and> put_interface p1 t = Inl Out_of_bounds)"
proof -
  have c: "unat (INTERFACE_COUNT s + 1) = unat (INTERFACE_COUNT s) + 1"
    using assms(2) unat_u32_less [of "INTERFACE_CAPACITY s"] by (simp add: unat_add_u32)
  then have g: "grow_list ok s = s" using assms(2) by (simp add: grow_list_def word_less_nat_alt)
  have len: "length (slots_of s) = unat (INTERFACE_CAPACITY s)" using assms(1) by (simp add: registry_ok_def)
  then obtain xs where xs: "INTERFACE_LIST s = Some xs" "length xs = unat (INTERFACE_CAPACITY s)"
    using assms(2) by (auto simp: slots_of_def split: option.splits)
  let ?t = "s\<lparr>INTERFACE_LIST := Some (xs[unat (INTERFACE_COUNT s) := Some p2]),
    INTERFACE_COUNT := INTERFACE_COUNT s + 1\<rparr>"
  have "append_interface ok p2 s = Inr ?t"
    using xs assms(2) by (simp add: append_interface_phases g put_interface_def slot_write_def)
  moreover have "put_interface p1 ?t = Inl Out_of_bounds"
    using xs(2) assms(2) c by (simp add: put_interface_def slot_write_def)
  ultimately show ?thesis using g by blast
qed

section \<open>Examples\<close>

lemma two_small_heard: "hears hearing_kernel k 9 two_small"
proof -
  have "list_all interface_readable two_small"
    using small_interface_sendable by (simp add: two_small_def list_all_iff interface_sendable_def)
  moreover have "adverts_granted (kmem hearing_kernel) two_small"
    by (simp add: hearing_kernel_def kind_kernel_def adverts_granted_def kgrant_def kmalloc_max_def two_small_def
        small_interface_def interface_0_def list_all_iff)
  ultimately show ?thesis
    using length_small_packet unfolding small_packet_def
    by (simp add: hears_def) (simp add: hearing_kernel_def small_packet_def two_small_def)
qed

theorem broadcast_frees_called_interface_witness:
  "\<exists>q b1 t. ioctl_find (int 0) caller peer_kernel = Inr q \<and>
    discovery_step hearing_kernel (Some (open_socket 4)) (replicate 65536 0, 0, peer_kernel) = Inr (b1, 9, t) \<and>
    kernel_ok t \<and> ioctl_use calling_kernel (int 0) caller q t = Inl Use_after_free"
  by (rule broadcast_frees_called_interface [OF peer_kernel_listed _ _ two_small_heard, where j = 0])
    (simp_all add: caller_def peer_kernel_list listed_peer_def peer_kernel_view open_socket_def)

definition last_slot_registry :: registry where
  "last_slot_registry = three_registry\<lparr>INTERFACE_CAPACITY := 4,
     INTERFACE_LIST := Some [Some 1, Some 2, Some 3, None]\<rparr>"

lemma last_slot_registry_ok: "registry_ok last_slot_registry"
  by (simp add: registry_ok_def last_slot_registry_def three_registry_def mem_wf_def slots_of_def live_slots_def
      describes_def interfaces_of_def stored_interface_def blank_interface_def descriptor_ok_def
      flags_ok_def attr_array_ok_def info_0_def)

theorem registrations_overflow_list_witness:
  "grow_list kmalloc_max last_slot_registry = last_slot_registry \<and>
    (\<exists>t. append_interface kmalloc_max 2 last_slot_registry = Inr t \<and> put_interface 1 t = Inl Out_of_bounds)"
  by (rule registrations_overflow_list [OF last_slot_registry_ok])
    (simp add: last_slot_registry_def three_registry_def)

end
