(* ===== verification/Device_Files.thy ===== *)
theory Device_Files
  imports Manager_Device Peer_Device
begin

text \<open>
  Opening and closing the two devices (\<open>device/manager.c\<close>, \<open>device/peer.c\<close>). An open file holds
  references to the module, so that it is not unloaded under it: one that the handler takes,
  without looking at whether it was granted, and for the manager device one more, because its
  operations name the module as their owner. What the kernel's file layer does with an owner is
  not code of the repository: it is an argument, with its documented behaviour as a hypothesis.
\<close>

section \<open>Open and release\<close>

definition manager_open :: "kenv \<Rightarrow> 'z mem_scheme \<Rightarrow> int \<times> 'z mem_scheme" where
  "manager_open e s = (0, if try_module_get e (trace s) then emit Module_got s else s)"

definition manager_release :: "'z mem_scheme \<Rightarrow> int \<times> 'z mem_scheme" where
  "manager_release s = (0, emit Module_put s)"

definition peer_open :: "kenv \<Rightarrow> 'z mem_scheme \<Rightarrow> int \<times> 'z mem_scheme" where
  "peer_open e s = (0, if try_module_get e (trace s) then emit Module_got s else s)"

definition peer_release :: "'z mem_scheme \<Rightarrow> int \<times> 'z mem_scheme" where
  "peer_release s = (0, emit Module_put s)"

text \<open>
  The operations the devices are registered with, as far as they take part in opening and
  closing. \<open>fop_owner\<close> is whether the structure has \<open>.owner = THIS_MODULE\<close>: that of the manager
  has, that of the peers does not.
\<close>

record 's file_operations =
  fop_owner :: bool
  fop_open :: "'s \<Rightarrow> int \<times> 's"
  fop_release :: "'s \<Rightarrow> int \<times> 's"

definition manager_fops :: "kenv \<Rightarrow> ('z mem_scheme) file_operations" where
  "manager_fops e = \<lparr>fop_owner = True, fop_open = manager_open e, fop_release = manager_release\<rparr>"

definition peer_fops :: "kenv \<Rightarrow> ('z mem_scheme) file_operations" where
  "peer_fops e = \<lparr>fop_owner = False, fop_open = peer_open e, fop_release = peer_release\<rparr>"

section \<open>The file layer\<close>

text \<open>
  What the kernel documents of \<open>open\<close> and of the last \<open>close\<close> of a file of a character device.
  Operations with an owner are entered only with a reference to it: when it is refused, the
  open fails with -ENXIO and the handler is not called, and when the file is closed the
  reference goes back after the handler has run. Without an owner there is only the handler.
\<close>

definition opens_files ::
  "kenv \<Rightarrow> (('z mem_scheme) file_operations \<Rightarrow> 'z mem_scheme \<Rightarrow> int \<times> 'z mem_scheme) \<Rightarrow> bool" where
  "opens_files e vopen \<longleftrightarrow> (\<forall>f s. fop_owner f \<longrightarrow> try_module_get e (trace s) \<longrightarrow>
       0 \<le> fst (fop_open f (emit Module_got s)) \<longrightarrow> vopen f s = fop_open f (emit Module_got s)) \<and>
     (\<forall>f s. fop_owner f \<longrightarrow> \<not> try_module_get e (trace s) \<longrightarrow> vopen f s = (- 6, s)) \<and>
     (\<forall>f s. \<not> fop_owner f \<longrightarrow> vopen f s = fop_open f s)"

definition closes_files ::
  "(('z mem_scheme) file_operations \<Rightarrow> 'z mem_scheme \<Rightarrow> 'z mem_scheme) \<Rightarrow> bool" where
  "closes_files vclose \<longleftrightarrow> (\<forall>f s. vclose f s =
     (if fop_owner f then emit Module_put (snd (fop_release f s)) else snd (fop_release f s)))"

section \<open>Files in use\<close>

text \<open>What processes do with the devices.\<close>

datatype file_op = Open_manager | Close_manager | Open_peer | Close_peer

fun file_step ::
  "kenv \<Rightarrow> (('z mem_scheme) file_operations \<Rightarrow> 'z mem_scheme \<Rightarrow> int \<times> 'z mem_scheme) \<Rightarrow>
   (('z mem_scheme) file_operations \<Rightarrow> 'z mem_scheme \<Rightarrow> 'z mem_scheme) \<Rightarrow>
   file_op \<Rightarrow> 'z mem_scheme \<Rightarrow> 'z mem_scheme" where
  "file_step e vopen vclose Open_manager s = snd (vopen (manager_fops e) s)"
| "file_step e vopen vclose Close_manager s = vclose (manager_fops e) s"
| "file_step e vopen vclose Open_peer s = snd (vopen (peer_fops e) s)"
| "file_step e vopen vclose Close_peer s = vclose (peer_fops e) s"

text \<open>
  The files open of the manager and of the peers; a process closes only what was opened, so a
  list that closes more is no behaviour (\<open>None\<close>).
\<close>

fun open_files :: "nat \<Rightarrow> nat \<Rightarrow> file_op list \<Rightarrow> (nat \<times> nat) option" where
  "open_files m p [] = Some (m, p)"
| "open_files m p (Open_manager # fs) = open_files (Suc m) p fs"
| "open_files m p (Open_peer # fs) = open_files m (Suc p) fs"
| "open_files m p (Close_manager # fs) = (case m of 0 \<Rightarrow> None | Suc k \<Rightarrow> open_files k p fs)"
| "open_files m p (Close_peer # fs) = (case p of 0 \<Rightarrow> None | Suc k \<Rightarrow> open_files m k fs)"

abbreviation module_refs :: "'z mem_scheme \<Rightarrow> nat" where
  "module_refs s \<equiv> count (held (trace s)) Module_ref"

lemma file_step_refs:
  assumes "opens_files e vopen" and "closes_files vclose" and "\<forall>tr. try_module_get e tr"
  shows "module_refs (file_step e vopen vclose f s) = (case f of
    Open_manager \<Rightarrow> module_refs s + 2 | Close_manager \<Rightarrow> module_refs s - 2
    | Open_peer \<Rightarrow> module_refs s + 1 | Close_peer \<Rightarrow> module_refs s - 1)"
  using assms
  by (cases f) (simp_all add: opens_files_def closes_files_def manager_fops_def peer_fops_def
      manager_open_def manager_release_def peer_open_def peer_release_def)

lemma files_hold:
  assumes "opens_files e vopen" and "closes_files vclose" and "\<forall>tr. try_module_get e tr"
  shows "module_refs s = 2 * m + p \<Longrightarrow> open_files m p fs = Some (m', p') \<Longrightarrow>
    module_refs (fold (file_step e vopen vclose) fs s) = 2 * m' + p'"
proof (induction m p fs arbitrary: s rule: open_files.induct)
  case (1 m p)
  then show ?case by simp
qed (use file_step_refs [OF assms] in \<open>auto split: nat.splits simp del: file_step.simps\<close>)

section \<open>Properties\<close>

text \<open>
  C29: as long as references are granted, an open file of a peer holds the module once and an open
  file of the manager twice (once for the owner of its operations, once for its own handler),
  no more and no less. When the reference of the handler is refused, the open succeeds all the
  same, and closing the file gives back a reference that was never taken, one that belongs to
  another file when there is one; only the manager, whose owner is asked first, turns a process
  away while the module cannot be held at all.
\<close>

theorem open_files_hold_module:
  assumes "opens_files e vopen" and "closes_files vclose"
  shows "((\<forall>tr. try_module_get e tr) \<longrightarrow> module_refs s = 2 * m + p \<longrightarrow> open_files m p fs = Some (m', p') \<longrightarrow>
      module_refs (fold (file_step e vopen vclose) fs s) = 2 * m' + p') \<and>
    (\<not> try_module_get e (trace s) \<longrightarrow> vopen (manager_fops e) s = (- 6, s) \<and>
      fst (vopen (peer_fops e) s) = 0 \<and>
      held (trace (vclose (peer_fops e) (snd (vopen (peer_fops e) s)))) = held (trace s) - {#Module_ref#}) \<and>
    (try_module_get e (trace s) \<longrightarrow> \<not> try_module_get e (Module_got # trace s) \<longrightarrow>
      fst (vopen (manager_fops e) s) = 0 \<and>
      held (trace (vclose (manager_fops e) (snd (vopen (manager_fops e) s)))) = held (trace s) - {#Module_ref#})"
  using files_hold [OF assms, of s m p fs m' p'] assms
  by (simp add: opens_files_def closes_files_def manager_fops_def peer_fops_def
      manager_open_def manager_release_def peer_open_def peer_release_def)

section \<open>Examples\<close>

text \<open>A file layer that does what is documented, and a kernel in which the module is being unloaded.\<close>

definition layer_open :: "kenv \<Rightarrow> ('z mem_scheme) file_operations \<Rightarrow> 'z mem_scheme \<Rightarrow> int \<times> 'z mem_scheme" where
  "layer_open e f s = (if \<not> fop_owner f then fop_open f s
     else if \<not> try_module_get e (trace s) then (- 6, s)
     else case fop_open f (emit Module_got s) of (err, t) \<Rightarrow>
       if err < 0 then (err, emit Module_put t) else (err, t))"

definition layer_close :: "('z mem_scheme) file_operations \<Rightarrow> 'z mem_scheme \<Rightarrow> 'z mem_scheme" where
  "layer_close f s = (if fop_owner f then emit Module_put (snd (fop_release f s)) else snd (fop_release f s))"

lemma opening_opens: "opens_files e (layer_open e)"
  by (auto simp: opens_files_def layer_open_def split: prod.splits)

lemma closing_closes: "closes_files layer_close"
  by (simp add: closes_files_def layer_close_def)

definition unloading_kernel :: kenv where
  "unloading_kernel = kind_kernel\<lparr>try_module_get := (\<lambda>tr. Module_got \<notin> set tr)\<rparr>"

definition opened_once :: kstate where
  "opened_once = emit Module_got fresh_kernel"

theorem open_files_hold_module_witness:
  "module_refs (fold (file_step kind_kernel (layer_open kind_kernel) layer_close)
      [Open_manager, Open_peer, Open_manager, Close_manager] fresh_kernel) = 3 \<and>
   held (trace (layer_close (peer_fops unloading_kernel)
      (snd (layer_open unloading_kernel (peer_fops unloading_kernel) opened_once)))) = {#} \<and>
   fst (layer_open unloading_kernel (manager_fops unloading_kernel) opened_once) = - 6 \<and>
   fst (layer_open unloading_kernel (manager_fops unloading_kernel) fresh_kernel) = 0"
proof -
  have get: "\<forall>tr. try_module_get kind_kernel tr" by (simp add: kind_kernel_def)
  have "module_refs (fold (file_step kind_kernel (layer_open kind_kernel) layer_close)
      [Open_manager, Open_peer, Open_manager, Close_manager] fresh_kernel) = 2 * 1 + 1"
    using open_files_hold_module [OF opening_opens closing_closes, of kind_kernel fresh_kernel 0 0
        "[Open_manager, Open_peer, Open_manager, Close_manager]" 1 1] get
    by (simp add: fresh_kernel_def)
  moreover have u: "\<not> try_module_get unloading_kernel (trace opened_once)"
    "try_module_get unloading_kernel (trace fresh_kernel)"
    "\<not> try_module_get unloading_kernel (Module_got # trace fresh_kernel)"
    "held (trace opened_once) - {#Module_ref#} = {#}"
    by (simp_all add: unloading_kernel_def opened_once_def fresh_kernel_def)
  moreover note open_files_hold_module [OF opening_opens closing_closes, of unloading_kernel opened_once 0 0 "[]" 0 0]
    and open_files_hold_module [OF opening_opens closing_closes, of unloading_kernel fresh_kernel 0 0 "[]" 0 0]
  ultimately show ?thesis using u by simp
qed

end
