(* ===== verification/Peer_Reader.thy ===== *)
theory Peer_Reader
  imports Peer_Device Procfs_Entries
begin

text \<open>
  Reading the device of a peer: the program of \<open>test/peer_device_read.c\<close> on one side, the listing
  the kernel formats into its static buffer of 4096 bytes on the other.
\<close>

section \<open>The reading program\<close>

abbreviation (input) SIZEOF_BUFFER :: nat where "SIZEOF_BUFFER \<equiv> 4096"

text \<open>
  The device answers a read with a code and the bytes it stored. The program puts a zero behind
  them, in a static buffer, and prints; without a device it ends with the value \<open>None\<close>.
\<close>

definition read_main :: "(nat \<Rightarrow> 'k \<Rightarrow> (int \<times> byte list) result) \<Rightarrow> int \<Rightarrow> 'k \<Rightarrow> byte list option result" where
  "read_main device fd k = (if fd < 0 then Inr None else
     bindr (device SIZEOF_BUFFER k) (\<lambda>(n, x).
     bindr (require (0 \<le> n \<and> nat n < SIZEOF_BUFFER) Out_of_bounds) (\<lambda>_.
     bindr (fmt_s (PBlk ((x @ replicate (SIZEOF_BUFFER - length x) 0)[nat n := 0]))) (\<lambda>content.
     Inr (Some content)))))"

definition read_device :: "int \<Rightarrow> nat \<Rightarrow> 'z kstate_scheme \<Rightarrow> (int \<times> byte list) result" where
  "read_device i n s = bindr (peer_read i n 0 s) (\<lambda>(count, _, x). Inr (count, x))"

section \<open>The listing\<close>

definition interface_line :: "interface_t \<Rightarrow> byte list" where
  "interface_line x = ascii ''Interface '' @ dec_int (sint (if_id x)) @ ascii '', '' @
     dec_int (sint (interface_t.argc x)) @ ascii '' args '' @ dec_int (sint (retc x)) @ ascii '' rets'' @ newline"

lemma list_loop:
  assumes "describes a s xs" and "interfaces p = Some a"
  shows "j \<le> length xs \<Longrightarrow> length b < 4096 \<Longrightarrow> n = length xs - j \<Longrightarrow> for_loop j n (list_interface p s) b
    = (let t = b @ concat (map interface_line (drop j xs)) in if length t < 4096 then Inr t else Inl Out_of_bounds)"
proof (induction n arbitrary: j b)
  case (Suc n)
  then have j: "j < length xs" by simp
  then obtain q where q: "a ! j = Some q" "q \<noteq> 0" "heap s q = Some (xs ! j)" "j < length a"
    using assms(1) by (fastforce simp: describes_def list_all2_conv_all_nth)
  have d: "drop j xs = xs ! j # drop (Suc j) xs" using j by (simp add: Cons_nth_drop_Suc)
  have step: "list_interface p s j b = sprintf_at b (interface_line (xs ! j))"
    using q assms(2) by (simp add: list_interface_def interface_line_def slot_def deref_def)
  show ?case
  proof (cases "length (b @ interface_line (xs ! j)) < 4096")
    case True
    have "for_loop (Suc j) n (list_interface p s) (b @ interface_line (xs ! j))
        = (let t = (b @ interface_line (xs ! j)) @ concat (map interface_line (drop (Suc j) xs)) in
           if length t < 4096 then Inr t else Inl Out_of_bounds)"
      by (rule Suc.IH) (use j Suc.prems(3) True in simp_all)
    then show ?thesis using step d True by (simp add: sprintf_at_def)
  next
    case False
    then show ?thesis using step d by (simp add: sprintf_at_def Let_def)
  qed
qed simp

text \<open>What the device of a peer with a list of interfaces shows: a header and a line for each.\<close>

definition peer_text :: "nat \<Rightarrow> 'z kstate_scheme \<Rightarrow> byte list" where
  "peer_text n s = peer_header (peers_list s ! n) (shown (peer_name (peers_list s ! n))) @
     concat (map interface_line (peer_view n s))"

lemma listing_listed:
  assumes "peer_listed n s" and "showable (peer_name (peers_list s ! n))"
  shows "peer_listing (int n) s = (if length (peer_text n s) < 4096 then Inr (peer_text n s) else Inl Out_of_bounds)"
proof -
  note d = peer_listed_describes [OF assms(1)]
  have at: "peer_at s (int n) = Inr (peers_list s ! n)"
    using assms(1) peer_at_listed [OF assms(1)] by simp
  let ?h = "peer_header (peers_list s ! n) (shown (peer_name (peers_list s ! n)))"
  show ?thesis
  proof (cases "length ?h < 4096")
    case True
    then show ?thesis
      using list_loop [OF d(1,2), of 0 ?h "length (peer_view n s)"] d(3) fmt_s_shown [OF assms(2)]
      by (simp add: peer_listing_def at sprintf_at_def peer_text_def Let_def)
  next
    case False
    then show ?thesis
      using fmt_s_shown [OF assms(2)] by (simp add: peer_listing_def at sprintf_at_def peer_text_def)
  qed
qed

lemma interface_line_no_nul: "0 \<notin> set (interface_line x)"
  by (simp add: interface_line_def ascii_def newline_def)

lemma peer_header_no_nul: "0 \<notin> set name \<Longrightarrow> 0 \<notin> set (peer_header p name)"
  by (simp add: peer_header_def fmt_ipv4_def u32_bytes_def ascii_def newline_def)

lemma peer_text_no_nul: "0 \<notin> set (peer_text n s)"
  using interface_line_no_nul by (auto simp: peer_text_def peer_header_no_nul shown_no_nul)

section \<open>Properties\<close>

text \<open>
  C28: reading the device of a peer prints its header and one line for each interface it offers,
  completely and within both buffers, as long as this text is shorter than 4096 bytes; a peer
  whose list makes it longer overflows the kernel's buffer on the first read. The number of
  interfaces is the peer's to choose.
\<close>

theorem read_program_lists:
  assumes "peer_listed n s" and "showable (peer_name (peers_list s ! n))" and "0 \<le> fd"
  shows "read_main (read_device (int n)) fd s
    = (if length (peer_text n s) < 4096 then Inr (Some (peer_text n s)) else Inl Out_of_bounds)"
proof (cases "length (peer_text n s) < 4096")
  case True
  let ?t = "peer_text n s"
  have pos: "0 < length ?t" by (simp add: peer_text_def peer_header_def ascii_def)
  have "(?t @ replicate (4096 - length ?t) 0)[length ?t := 0] = cstring ?t @ replicate (4095 - length ?t) 0"
    using True by (simp add: list_update_append cstring_def) (cases "4096 - length ?t"; simp)
  moreover have "fmt_s (PBlk (cstring ?t @ r)) = Inr ?t" for r
    using peer_text_no_nul [of n s] by (simp add: fmt_s_def strlen_def) (simp add: cstring_def)
  ultimately show ?thesis
    using True pos assms(3) listing_listed [OF assms(1,2)]
    by (simp add: read_main_def read_device_def peer_read_def Let_def)
qed (use assms(3) listing_listed [OF assms(1,2)] in \<open>simp add: read_main_def read_device_def peer_read_def\<close>)

section \<open>Examples\<close>

definition crowded_kernel :: kstate where
  "crowded_kernel = peer_kernel\<lparr>heap := (\<lambda>q. if 1 \<le> q \<and> q \<le> 256 then Some offered else None), next_ptr := 257,
     peers := Some (listed_peer\<lparr>interfaces := Some (map Some [1..<257]), interface_count := 256\<rparr> # replicate 255 peer_0)\<rparr>"

lemma crowded_list: "peers_list crowded_kernel =
    [listed_peer\<lparr>interfaces := Some (map Some [1..<257]), interface_count := 256\<rparr>]"
  by (simp add: peers_list_def crowded_kernel_def peer_kernel_def)

lemma crowded_listed: "peer_listed 0 crowded_kernel"
  by (simp add: peer_listed_def kernel_ok_def registry_ok_def table_shape_def owned_def crowded_list)
    (auto simp: crowded_kernel_def peer_kernel_def fresh_kernel_def mem_wf_def slots_of_def live_slots_def
      interfaces_of_def listed_peer_def peer_0_def peer_slots_def live_def peer_ok_def list_all_iff distinct_map
      split: if_splits)

lemma crowded_view: "peer_view 0 crowded_kernel = replicate 256 offered"
proof (rule nth_equalityI)
  show "length (peer_view 0 crowded_kernel) = length (replicate 256 offered)"
    by (simp add: peer_view_def crowded_list peer_slots_def)
  show "peer_view 0 crowded_kernel ! i = replicate 256 offered ! i" if "i < length (peer_view 0 crowded_kernel)" for i
    using that by (simp add: peer_view_def crowded_list peer_slots_def del: upt_rec_numeral)
      (simp add: crowded_kernel_def)
qed

lemma crowded_text: "4096 \<le> length (peer_text 0 crowded_kernel)"
proof -
  have "length (interface_line offered) = 27"
    by (simp add: interface_line_def offered_def ascii_def newline_def dec_int_def dec_nat.simps)
  then have "length (concat (map interface_line (replicate n offered))) = 27 * n" for n
    by (induction n) simp_all
  then show ?thesis by (simp add: peer_text_def crowded_view)
qed

theorem read_program_lists_witness:
  "read_main (read_device (int 0)) 3 peer_kernel = Inr (Some (peer_text 0 peer_kernel)) \<and>
   read_main (read_device (int 0)) 3 crowded_kernel = Inl Out_of_bounds"
proof
  have t: "length (peer_text 0 peer_kernel) < 4096"
    by (simp add: peer_text_def peer_kernel_list peer_kernel_view)
      (simp add: peer_header_def listed_peer_def peer_0_def newline_def ascii_def fmt_ipv4_def u32_bytes_def
        dec_int_def dec_nat.simps interface_line_def offered_def shown_def fmt_s_def)
  have "showable (peer_name (peers_list peer_kernel ! 0))"
    by (simp add: peer_kernel_list listed_peer_def peer_0_def showable_def)
  from read_program_lists [OF peer_kernel_listed this, of 3] t
  show "read_main (read_device (int 0)) 3 peer_kernel = Inr (Some (peer_text 0 peer_kernel))" by simp
  have "showable (peer_name (peers_list crowded_kernel ! 0))"
    by (simp add: crowded_list listed_peer_def peer_0_def showable_def)
  from read_program_lists [OF crowded_listed this, of 3] crowded_text
  show "read_main (read_device (int 0)) 3 crowded_kernel = Inl Out_of_bounds" by simp
qed

end
