(* ===== verification/Spec2Isabelle.thy ===== *)
theory Spec2Isabelle
  imports Deployment System Leaks Unload Races Device_Files Peer_Reader
begin

text \<open>
  dist_comm: a Linux kernel module (\<open>module/\<close>) that lets the processes of one node call functions
  of processes on other nodes, and the user library (\<open>lib/\<close>) of the processes that serve them.

  \<^bold>\<open>How the parts interact.\<close> A process registers an \<^emph>\<open>interface\<close> through the manager device and
  activates it over netlink (\<open>lib/src/interface.c\<close>). The module keeps the registered interfaces
  in \<open>INTERFACE_LIST\<close> (\<open>module/interface.c\<close>) and sends their list to the broadcast address of
  every network once per interval (\<open>network/broadcast.c\<close>). The discovery server of another node
  keeps a table of peers from these packets (\<open>network/discovery.c\<close>, \<open>network/peer.c\<close>) and a
  device per peer (\<open>device/peer.c\<close>). A call through that device connects to the service server
  of the peer (\<open>network/service.c\<close>), which hands the packet to the process over netlink; the
  result travels back through the socket the interface remembers.

  \<^bold>\<open>The theories\<close>, in the order of the code's layers:
    \<^item> \<open>Prelude\<close>: machine types, faults, the result type, heap of descriptors, strings, loops.
    \<^item> \<open>Interface_Types\<close> (\<open>interface.h\<close>), \<open>Resources\<close>: descriptors, the trace of effects and the
      resources a trace leaves held.
    \<^item> \<open>Buffer\<close>, \<open>Codec\<close>, \<open>Packet_Rpc\<close>, \<open>Packet_Info\<close>, \<open>Packet_Interfaces\<close> (\<open>packet.c\<close>): the
      growing buffer, the contract of an encoder and a decoder, and the three packets.
    \<^item> \<open>Registry_State\<close>, \<open>Registry\<close>, \<open>Netlink\<close> (\<open>module/interface.c\<close>), \<open>Table\<close>: the globals,
      registration and removal, the contract of a table of interfaces, netlink handlers, calls.
    \<^item> \<open>Format\<close>, \<open>Procfs\<close>, \<open>Procfs_Entries\<close> (\<open>proc.c\<close>): what sprintf writes, the entries.
    \<^item> \<open>Sockets\<close> (\<open>util/socket.c\<close>), \<open>Peers\<close>, \<open>Remote\<close> (\<open>network/peer.c\<close>), \<open>Discovery\<close>,
      \<open>Service\<close>, \<open>Broadcast\<close>: the network side, their loops for any number of turns.
    \<^item> \<open>Peer_Device\<close>, \<open>Manager_Device\<close>, \<open>Device_Files\<close> (\<open>device/\<close>), \<open>Lifecycle\<close> (\<open>init.c\<close>,
      \<open>exit.c\<close> and the start and stop functions): devices, loading and unloading.
    \<^item> \<open>Lib_Netlink\<close>, \<open>Lib_Rpc\<close> (\<open>lib/src/\<close>): the user library.
    \<^item> \<open>Applications\<close>, \<open>Add_Service\<close>, \<open>Peer_Reader\<close> (\<open>test/\<close>): the programs that serve, call
      and read.
    \<^item> \<open>Quiet\<close>: what the handlers leave alone, as frames of control blocks. \<open>Node\<close>: all handlers of
      a node as steps of one transition system. \<open>Simulation\<close>, \<open>Directory\<close>: what a node
      promises as a transition system of its own, and that the handlers implement it.
      \<open>Leaks\<close>: the memory that discovery loses. \<open>Endless\<close>: the server loops as the
      \<open>while (true)\<close> they are. \<open>Unload\<close>: what their not ending means for the exit of the
      module. \<open>Races\<close>: two handlers cut where another thread can come in between.
    \<^item> \<open>System\<close>: any number of nodes, with their handlers interleaved and broadcasts that are lost,
      delayed and repeated.
    \<^item> \<open>Node_Call\<close>, \<open>Learning\<close>, \<open>Remote_Add\<close>, \<open>Deployment\<close>: a call through one node and its
      process, discovery between two nodes, a call between two nodes, and the example program
      from its first start to the sum the other node prints.

  \<^bold>\<open>The model.\<close> A C function is a HOL function from a state to a \<open>result\<close>: \<open>Inl\<close> a fault where C
  is undefined (null dereference, use after free, out of bounds, uninitialised, signed
  overflow), \<open>Inr\<close> the return value and the new state. Descriptors live in a heap from addresses
  to records, so that aliases and dangling pointers are visible; integers keep their width.
  The state of the module is one record, extended layer by layer: \<open>mem\<close> (heap and trace),
  \<open>registry\<close> (the globals of \<open>interface.c\<close>), \<open>kstate\<close> (the table of peers), \<open>nstate\<close> and
  \<open>mstate\<close> (sockets, threads and devices). Every effect on the world (a packet sent, a socket
  opened, an entry removed) is an event of the trace, newest first. The kernel's own functions
  are the fields of the record \<open>kenv\<close>; their answers may depend on everything that happened
  before. What they promise is a named hypothesis of the theorem that needs it (\<open>roomy\<close>,
  \<open>network_up\<close>, \<open>user_strings_copied\<close>, \<open>hearing\<close>, \<open>connected\<close> and others), and the example of
  the theorem meets it with a concrete kernel. Two of them are about code that calls into the
  module: \<open>stop_waits\<close> (\<open>Unload\<close>) that \<open>kthread_stop\<close> returns when the function of the thread
  has, and \<open>opens_files\<close> and \<open>closes_files\<close> (\<open>Device_Files\<close>) that the file layer takes a
  reference for operations with an owner, as the manager's have and the peers' have not.

  \<^bold>\<open>Registrations.\<close> \<open>register_interface\<close> checks neither the descriptor a process passes nor the
  allocations inside a descriptor. The step relations \<open>local_step\<close> and \<open>node_step\<close> take the
  condition on registrations as an argument; the theorems on runs use \<open>registration_fits\<close>
  (complete names, memory granted, fewer than 2^31 interfaces), and \<open>refused_flags_break\<close>
  (\<open>Node\<close>) shows that without it a registration leaves an incomplete descriptor behind.

  \<^bold>\<open>Interfaces.\<close> \<open>codec\<close> and \<open>canonical_codec\<close> (\<open>Codec\<close>) state what an item's writer and reader
  promise; lists of items inherit it, and the calls, descriptions, strings and advertisements
  interpret it. \<open>interface_table\<close> and \<open>updatable_table\<close> (\<open>Table\<close>) state what \<open>find_interface\<close>
  finds; the registry, the interfaces of a peer and those of a process interpret them.
  \<open>endless_loop\<close> (\<open>Endless\<close>) relates a loop to its turns; the three servers interpret it.
  \<open>control_frame\<close> and \<open>message_frame\<close> (\<open>Quiet\<close>) state what may change of a control block; the
  changes of a call and those of a netlink message interpret them. \<open>simulation\<close> (\<open>Simulation\<close>)
  relates a transition system to its specification; the processes of a node, the network and
  both together interpret it with the directory.

  \<^bold>\<open>What the lemmas show.\<close> Packets: round trips, exactness of the reader, overflow and truncation.
  Registry: registration refines appending to a list, removal shifts in the wrong direction.
  Handlers: which step touches what (\<open>quiet\<close>), from it that every sequence of steps keeps the
  state well-formed, that the network cannot change an interface or its port, and that every
  run is a run of the directory, in which no peer is ever forgotten. Discovery: every sequence of
  packets keeps the table of peers, what is learned from them, the list each peer costs, and the
  packet that crashes the receiver; over all nodes, that nothing is offered that was not
  registered. Loops: which end, and how.
  Lifecycle and devices: what loading and failing leave held, that unloading never returns, and
  what it would leave held if the loops ended. Programs: what is
  printed on the other node, and which arguments overflow a block.

  \<^bold>\<open>Bounds and fuel.\<close> No definition needs fuel to end: loops over arrays recurse on the counter
  the code has, and the endless ones (\<open>discovery_run\<close>, \<open>service_accept\<close>, \<open>broadcast_loop\<close>) on
  the number of turns, for every number; \<open>Endless\<close> shows that what they say of every number
  of turns decides the loop itself. Sizes are those of a 64-bit kernel. \<open>roomy ok L\<close> says the
  allocator grants blocks of up to \<open>L\<close> bytes and one increment; the examples use an allocator
  that grants 4 MB.

  \<^bold>\<open>Not modelled.\<close> What is only printed to the log; the bodies of the kernel's own functions;
  \<open>wake_up_process\<close> and \<open>msleep\<close>, which have no effect the code can see; the contents of
  \<open>sk_buff\<close> and message headers beyond the fields read. Handlers are steps that are not
  interrupted, except in \<open>Races\<close>. \<open>test/interface_packet.c\<close> and \<open>test/remove_interface.c\<close> have
  an empty \<open>main\<close>. \<open>main\<close> of the two remote callers tests a value its function does not
  return, which is undefined; their functions are modelled. Headers hold prototypes, the
  records named above and constants, which are abbreviations here.
\<close>

end
